theory Spec2Isabelle
  imports Main "HOL-Library.Word"
begin

unbundle bit_operations_syntax

section \<open>Data model\<close>

text \<open>
  A \<open>CRSSparsity\<close> is a compressed-row pattern: \<open>size1\<close> rows, \<open>size2\<close> columns, the
  column of every structural nonzero (\<open>col\<close>) and, for every row, where its nonzeros start
  (\<open>rowind\<close>, one entry more than there are rows).  A \<open>Matrix<T>\<close> is a pattern together
  with one value per structural nonzero.  The element type is a parameter: the numeric
  code instantiates it with the numbers it computes with, the dependency propagation
  re-reads the same buffers as bit vectors.
\<close>

record crs =
  size1 :: nat
  size2 :: nat
  rowind :: "nat list"
  col :: "nat list"

record 'a matrix =
  sparsity :: crs
  data :: "'a list"

text \<open>\<open>sp.size()\<close>: the number of structural nonzeros.\<close>

definition nnz :: "crs \<Rightarrow> nat" where
  "nnz sp = length (col sp)"

text \<open>
  Modelled from the spec: the matrix container's constructors are not part of the source
  file.  \<open>DMatrix(sparsity)\<close> is "A, zero-initialized over the pattern", and
  \<open>DMatrix(n, m, 0)\<close> is a dense \<open>n\<close>-by-\<open>m\<close> matrix filled with the given value, stored
  row by row.
\<close>

definition dense_sparsity :: "nat \<Rightarrow> nat \<Rightarrow> crs" where
  "dense_sparsity n m =
     \<lparr>size1 = n, size2 = m, rowind = map (\<lambda>i. i * m) [0..<Suc n],
      col = concat (replicate n [0..<m])\<rparr>"

definition DMatrix_sp :: "crs \<Rightarrow> ('a::zero) matrix" where
  "DMatrix_sp sp = \<lparr>sparsity = sp, data = replicate (nnz sp) 0\<rparr>"

definition DMatrix_dense :: "nat \<Rightarrow> nat \<Rightarrow> 'a \<Rightarrow> 'a matrix" where
  "DMatrix_dense n m v = \<lparr>sparsity = dense_sparsity n m, data = replicate (n * m) v\<rparr>"

section \<open>The solver object and its backend\<close>

text \<open>
  \<open>prepare()\<close> and \<open>solve(double*, int, bool)\<close> are virtual and implemented by the
  concrete solvers, so they are parameters here.  \<open>prepare_impl\<close> reads the matrix in the
  solver's A input and the old factorization and gives the new factorization together
  with the value it leaves in \<open>prepared\<close>; \<open>solve_impl\<close> maps the contents of the buffer
  it is handed to the contents it leaves there.  Every call through one of the two
  virtual functions is recorded in \<open>calls\<close>, a solve together with the factorization it
  was answered from.
\<close>

record ('a, 'f) backend =
  prepare_impl :: "'a matrix \<Rightarrow> 'f \<Rightarrow> 'f \<times> bool"
  solve_impl :: "'f \<Rightarrow> 'a list \<Rightarrow> nat \<Rightarrow> bool \<Rightarrow> 'a list"

datatype 'f call = Prepare | Solve 'f nat bool

record ('a, 'f) linsol =
  rowperm :: "nat list"
  colperm :: "nat list"
  rowblock :: "nat list"
  colblock :: "nat list"
  input_v :: "'a matrix list"
  output_v :: "'a matrix list"
  prepared :: bool
  factorization :: 'f
  calls :: "'f call list"

text \<open>
  Modelled from the spec: the input and output schemes are declared in the header, which
  is not part of the source file.  The solver has the two inputs A and B and the one
  output X; the numbering below is the order in which the spec lists them.
\<close>

definition LINSOL_A :: nat where "LINSOL_A = 0"
definition LINSOL_B :: nat where "LINSOL_B = 1"
definition LINSOL_NUM_IN :: nat where "LINSOL_NUM_IN = 2"
definition LINSOL_X :: nat where "LINSOL_X = 0"
definition LINSOL_NUM_OUT :: nat where "LINSOL_NUM_OUT = 1"

datatype error =
    AssertNotNull
  | NotSquare nat nat
  | StructurallySingular nat nat
  | DerivativesNotSupported
  | PreparationFailed

subsection \<open>Construction\<close>

text \<open>
  Modelled from the spec: \<open>isSingular\<close> and \<open>rank\<close> belong to the matrix tools, which are
  not part of the source file.  The structural rank is an oracle (the parameter
  \<open>sprank\<close>), and a square pattern is singular when its structural rank is not its
  dimension.
\<close>

definition isSingular :: "(crs \<Rightarrow> nat) \<Rightarrow> crs \<Rightarrow> bool" where
  "isSingular sprank sp \<longleftrightarrow> sprank sp \<noteq> size1 sp"

text \<open>\<open>v.resize(n)\<close> on a vector of matrices: cut, or fill up with empty matrices.\<close>

definition resize :: "nat \<Rightarrow> ('a::zero) matrix list \<Rightarrow> 'a matrix list" where
  "resize n v = take n v @ replicate (n - length v) (DMatrix_dense 0 0 0)"

text \<open>
  The constructor.  A sparsity handle may be null (\<open>None\<close>).  The three assertions come
  first and in the order of the source; each failure leaves the object as the base class
  constructor left it (\<open>obj\<close>).  The failure for a pattern that is not square carries the
  dimensions of the pattern, the one for a rank-deficient pattern carries \<open>rank(sparsity)\<close>
  and \<open>sparsity.size1()\<close>.  The Dulmage-Mendelsohn decomposition is the parameter \<open>dm\<close>.
\<close>

definition LinearSolverInternal ::
  "(crs \<Rightarrow> nat) \<Rightarrow> (crs \<Rightarrow> nat list \<times> nat list \<times> nat list \<times> nat list) \<Rightarrow>
   crs option \<Rightarrow> nat \<Rightarrow> ('a::zero, 'f) linsol \<Rightarrow> error option \<times> ('a, 'f) linsol" where
  "LinearSolverInternal sprank dm sparsity_arg nrhs obj =
     (case sparsity_arg of
        None \<Rightarrow> (Some AssertNotNull, obj)
      | Some sp \<Rightarrow>
          if size1 sp \<noteq> size2 sp then (Some (NotSquare (size1 sp) (size2 sp)), obj)
          else if isSingular sprank sp
            then (Some (StructurallySingular (sprank sp) (size1 sp)), obj)
          else
            (case dm sp of (rp, cp, rb, cb) \<Rightarrow>
              let o1 = obj\<lparr>rowperm := rp, colperm := cp, rowblock := rb, colblock := cb\<rparr>;
                  o2 = o1\<lparr>input_v := resize LINSOL_NUM_IN (input_v o1)\<rparr>;
                  o3 = o2\<lparr>input_v := (input_v o2)[LINSOL_A := DMatrix_sp sp]\<rparr>;
                  o4 = o3\<lparr>input_v := (input_v o3)[LINSOL_B := DMatrix_dense nrhs (size1 sp) 0]\<rparr>;
                  o5 = o4\<lparr>output_v := resize LINSOL_NUM_OUT (output_v o4)\<rparr>;
                  o6 = o5\<lparr>output_v := (output_v o5)[LINSOL_X := input_v o5 ! LINSOL_B]\<rparr>
              in (None, o6)))"

text \<open>\<open>init()\<close>: not prepared.\<close>

definition init :: "('a, 'f) linsol \<Rightarrow> ('a, 'f) linsol" where
  "init s = s\<lparr>prepared := False\<rparr>"

subsection \<open>Preparing and solving\<close>

definition prepare :: "('a, 'f) backend \<Rightarrow> ('a, 'f) linsol \<Rightarrow> ('a, 'f) linsol" where
  "prepare be s =
     (case prepare_impl be (input_v s ! LINSOL_A) (factorization s) of
        (f, ok) \<Rightarrow> s\<lparr>prepared := ok, factorization := f, calls := calls s @ [Prepare]\<rparr>)"

text \<open>\<open>solve(double* x, int nrhs, bool transpose)\<close>: the buffer after the call, and the
  solver with the call recorded.\<close>

definition solve_ptr ::
  "('a, 'f) backend \<Rightarrow> 'a list \<Rightarrow> nat \<Rightarrow> bool \<Rightarrow> ('a, 'f) linsol \<Rightarrow> 'a list \<times> ('a, 'f) linsol" where
  "solve_ptr be x nrhs tr s =
     (solve_impl be (factorization s) x nrhs tr, s\<lparr>calls := calls s @ [Solve (factorization s) nrhs tr]\<rparr>)"

text \<open>
  \<open>std::copy(first, last, out)\<close> on the value vectors of two matrices: the source
  overwrites the front of the destination.  (A source longer than the destination writes
  past its end in C++; the callers below copy between buffers of one size.)
\<close>

definition std_copy :: "'a list \<Rightarrow> 'a list \<Rightarrow> 'a list" where
  "std_copy src dst = src @ drop (length src) dst"

text \<open>\<open>solve(bool transpose)\<close>: copy B to X, solve X in place.\<close>

definition solve :: "('a, 'f) backend \<Rightarrow> bool \<Rightarrow> ('a, 'f) linsol \<Rightarrow> ('a, 'f) linsol" where
  "solve be tr s =
     (let b = data (input_v s ! LINSOL_B);
          xm = output_v s ! LINSOL_X;
          nrhs = size1 (sparsity (input_v s ! LINSOL_B));
          x = std_copy b (data xm)
      in case solve_ptr be x nrhs tr s of
           (x', s') \<Rightarrow> s'\<lparr>output_v := (output_v s')[LINSOL_X := xm\<lparr>data := x'\<rparr>]\<rparr>)"

text \<open>\<open>evaluate(int nfdir, int nadir)\<close>.  A raised exception is the first component; the
  second is the object as the exception leaves it.\<close>

definition evaluate ::
  "('a, 'f) backend \<Rightarrow> int \<Rightarrow> int \<Rightarrow> ('a, 'f) linsol \<Rightarrow> error option \<times> ('a, 'f) linsol" where
  "evaluate be nfdir nadir s =
     (if \<not> (nfdir = 0 \<and> nadir = 0) then (Some DerivativesNotSupported, s)
      else let s1 = prepare be s
           in if \<not> prepared s1 then (Some PreparationFailed, s1)
              else (None, solve be False s1))"

section \<open>Batched numeric evaluation\<close>

text \<open>
  The caller hands \<open>evaluateDGen\<close> pointers to matrices, and the code compares such
  pointers to find out whether two arguments are the same storage.  A pointer is a
  natural number here and the memory is a function from pointers to matrices.
  \<open>input\<close> is the pair of pointers (B, A), \<open>output\<close> the pointer to X, and every seed
  and sensitivity direction is a list of pointers of its own.

  The numbers are doubles.  Their arithmetic is a parameter: \<open>fneg\<close> is
  \<open>std::negate<double>\<close>, \<open>fsub\<close> is \<open>std::minus<double>\<close>, and \<open>fadd\<close> and \<open>fmul\<close> are
  the sum and the product inside the sparse matrix products.  Nothing is assumed about
  the four operations: a sum need not be exact and sums need not associate, as it is
  with the rounded arithmetic of the machine.
\<close>

record 'a arith =
  fneg :: "'a \<Rightarrow> 'a"
  fadd :: "'a \<Rightarrow> 'a \<Rightarrow> 'a"
  fsub :: "'a \<Rightarrow> 'a \<Rightarrow> 'a"
  fmul :: "'a \<Rightarrow> 'a \<Rightarrow> 'a"

type_synonym 'a heap = "nat \<Rightarrow> 'a matrix"

definition set_data :: "'a heap \<Rightarrow> nat \<Rightarrow> 'a list \<Rightarrow> 'a heap" where
  "set_data h p xs = h(p := (h p)\<lparr>data := xs\<rparr>)"

text \<open>\<open>transform(first, last, first, std::negate<double>())\<close>.\<close>

definition negate :: "'a arith \<Rightarrow> 'a list \<Rightarrow> 'a list" where
  "negate ar xs = map (fneg ar) xs"

text \<open>
  \<open>transform(z.begin(), z.end(), y.begin(), z.begin(), std::minus<double>())\<close>: the
  loop runs over the whole of \<open>z\<close> and reads \<open>y\<close> at the same offsets; \<open>z\<close> keeps its
  length.  (With a \<open>y\<close> shorter than \<open>z\<close> the source reads past the end of \<open>y\<close>.)
\<close>

definition minus_into :: "'a arith \<Rightarrow> 'a list \<Rightarrow> 'a list \<Rightarrow> 'a list" where
  "minus_into ar z y = map (\<lambda>k. fsub ar (z ! k) (y ! k)) [0..<length z]"

text \<open>\<open>fill(first, last, 0)\<close>.\<close>

definition fill_zero :: "('a::zero) list \<Rightarrow> 'a list" where
  "fill_zero xs = replicate (length xs) 0"

text \<open>
  Modelled from the spec: the sparse products \<open>mul_no_alloc_nn\<close>, \<open>mul_no_alloc_nt\<close> and
  \<open>mul_no_alloc_tn\<close> belong to the matrix container, which is not part of the source
  file.  Each adds a product to its third argument in place, "projected onto the
  sparsity" of that argument: "only entries present in the pattern are updated".
  \<open>entry m i j\<close> is the structural nonzero of \<open>m\<close> in row \<open>i\<close> and column \<open>j\<close>, if there
  is one, and \<open>row_of sp k\<close> is the row that holds the \<open>k\<close>-th structural nonzero.  An entry
  of a product is a sum over an inner index; \<open>pairs\<close> lists, in the order of that index,
  the two factors of every term in which both are structural nonzeros, and
  \<open>accumulate\<close> adds the products of such a list to a value one after the other.
\<close>

definition entry :: "'a matrix \<Rightarrow> nat \<Rightarrow> nat \<Rightarrow> 'a option" where
  "entry m i j =
     (case find (\<lambda>k. col (sparsity m) ! k = j)
             [rowind (sparsity m) ! i ..< rowind (sparsity m) ! Suc i] of
        None \<Rightarrow> None
      | Some k \<Rightarrow> Some (data m ! k))"

definition row_of :: "crs \<Rightarrow> nat \<Rightarrow> nat option" where
  "row_of sp k = find (\<lambda>i. rowind sp ! i \<le> k \<and> k < rowind sp ! Suc i) [0..<size1 sp]"

definition pairs :: "(nat \<Rightarrow> 'a option) \<Rightarrow> (nat \<Rightarrow> 'a option) \<Rightarrow> nat \<Rightarrow> ('a \<times> 'a) list" where
  "pairs xs ys n =
     concat (map (\<lambda>l. case xs l of
                         None \<Rightarrow> []
                       | Some a \<Rightarrow> (case ys l of None \<Rightarrow> [] | Some b \<Rightarrow> [(a, b)]))
               [0..<n])"

definition accumulate :: "'a arith \<Rightarrow> 'a \<Rightarrow> ('a \<times> 'a) list \<Rightarrow> 'a" where
  "accumulate ar z ps = foldl (\<lambda>v (a, b). fadd ar v (fmul ar a b)) z ps"

text \<open>The terms of the entry in row \<open>i\<close> and column \<open>j\<close> of the three products: \<open>x y\<close>,
  \<open>x y\<^sup>T\<close> and \<open>x\<^sup>T y\<close>.\<close>

definition terms_nn :: "'a matrix \<Rightarrow> 'a matrix \<Rightarrow> nat \<Rightarrow> nat \<Rightarrow> ('a \<times> 'a) list" where
  "terms_nn x y i j = pairs (\<lambda>l. entry x i l) (\<lambda>l. entry y l j) (size2 (sparsity x))"

definition terms_nt :: "'a matrix \<Rightarrow> 'a matrix \<Rightarrow> nat \<Rightarrow> nat \<Rightarrow> ('a \<times> 'a) list" where
  "terms_nt x y i j = pairs (\<lambda>l. entry x i l) (\<lambda>l. entry y j l) (size2 (sparsity x))"

definition terms_tn :: "'a matrix \<Rightarrow> 'a matrix \<Rightarrow> nat \<Rightarrow> nat \<Rightarrow> ('a \<times> 'a) list" where
  "terms_tn x y i j = pairs (\<lambda>l. entry x l i) (\<lambda>l. entry y l j) (size1 (sparsity x))"

text \<open>The terms that belong to the \<open>k\<close>-th structural nonzero of a pattern, when \<open>t i j\<close>
  are the terms of the entry in row \<open>i\<close> and column \<open>j\<close>.\<close>

definition terms_at :: "(nat \<Rightarrow> nat \<Rightarrow> ('a \<times> 'a) list) \<Rightarrow> crs \<Rightarrow> nat \<Rightarrow> ('a \<times> 'a) list" where
  "terms_at t sp k = (case row_of sp k of None \<Rightarrow> [] | Some i \<Rightarrow> t i (col sp ! k))"

definition mul_acc :: "'a arith \<Rightarrow> (nat \<Rightarrow> nat \<Rightarrow> ('a \<times> 'a) list) \<Rightarrow> 'a matrix \<Rightarrow> 'a matrix" where
  "mul_acc ar t z =
     z\<lparr>data := map (\<lambda>k. accumulate ar (data z ! k) (terms_at t (sparsity z) k))
                  [0..<length (data z)]\<rparr>"

definition mul_no_alloc_nn :: "'a arith \<Rightarrow> 'a matrix \<Rightarrow> 'a matrix \<Rightarrow> 'a matrix \<Rightarrow> 'a matrix" where
  "mul_no_alloc_nn ar x y z = mul_acc ar (terms_nn x y) z"

definition mul_no_alloc_nt :: "'a arith \<Rightarrow> 'a matrix \<Rightarrow> 'a matrix \<Rightarrow> 'a matrix \<Rightarrow> 'a matrix" where
  "mul_no_alloc_nt ar x y_trans z = mul_acc ar (terms_nt x y_trans) z"

definition mul_no_alloc_tn :: "'a arith \<Rightarrow> 'a matrix \<Rightarrow> 'a matrix \<Rightarrow> 'a matrix \<Rightarrow> 'a matrix" where
  "mul_no_alloc_tn ar x_trans y z = mul_acc ar (terms_tn x_trans y) z"

text \<open>Modelled from the spec: \<open>setInput\<close> belongs to the base class; it "writes A into the
  backend", that is, it copies the values into the solver's own input.\<close>

definition setInput :: "'a matrix \<Rightarrow> nat \<Rightarrow> ('a, 'f) linsol \<Rightarrow> ('a, 'f) linsol" where
  "setInput val i s = s\<lparr>input_v := (input_v s)[i := (input_v s ! i)\<lparr>data := data val\<rparr>]\<rparr>"

text \<open>The factorization and the primal solve (source lines 431 to 439).\<close>

definition dgen_primal ::
  "('a, 'f) backend \<Rightarrow> nat list \<Rightarrow> nat list \<Rightarrow> bool \<Rightarrow>
   ('a, 'f) linsol \<times> 'a heap \<Rightarrow> ('a, 'f) linsol \<times> 'a heap" where
  "dgen_primal be input output tr = (\<lambda>(s, h).
     let s1 = setInput (h (input ! 1)) LINSOL_A s;
         s2 = prepare be s1;
         h1 = (if input ! 0 \<noteq> output ! 0
               then set_data h (output ! 0)
                      (std_copy (data (h (input ! 0))) (data (h (output ! 0))))
               else h)
     in case solve_ptr be (data (h1 (output ! 0))) (size1 (sparsity (h1 (output ! 0)))) tr s2 of
          (x, s3) \<Rightarrow> (s3, set_data h1 (output ! 0) x))"

text \<open>One forward direction (the body of the loop at source line 442).\<close>

definition fwd_dir ::
  "'a arith \<Rightarrow> ('a, 'f) backend \<Rightarrow> nat list \<Rightarrow> nat list list \<Rightarrow> nat list list \<Rightarrow> bool \<Rightarrow>
   ('a, 'f) linsol \<times> 'a heap \<Rightarrow> nat \<Rightarrow> ('a, 'f) linsol \<times> 'a heap" where
  "fwd_dir ar be output fwdSeed fwdSens tr = (\<lambda>(s, h) d.
     let h1 = (if fwdSeed ! d ! 0 \<noteq> fwdSens ! d ! 0
               then set_data h (fwdSens ! d ! 0)
                      (std_copy (data (h (fwdSeed ! d ! 0))) (data (h (fwdSens ! d ! 0))))
               else h);
         h2 = set_data h1 (fwdSens ! d ! 0) (negate ar (data (h1 (fwdSens ! d ! 0))));
         h3 = (if tr
               then h2(fwdSens ! d ! 0 :=
                      mul_no_alloc_nt ar (h2 (output ! 0)) (h2 (fwdSeed ! d ! 1)) (h2 (fwdSens ! d ! 0)))
               else h2(fwdSens ! d ! 0 :=
                      mul_no_alloc_nn ar (h2 (output ! 0)) (h2 (fwdSeed ! d ! 1)) (h2 (fwdSens ! d ! 0))));
         h4 = set_data h3 (fwdSens ! d ! 0) (negate ar (data (h3 (fwdSens ! d ! 0))))
     in case solve_ptr be (data (h4 (fwdSens ! d ! 0))) (size1 (sparsity (h4 (output ! 0)))) tr s of
          (x, s') \<Rightarrow> (s', set_data h4 (fwdSens ! d ! 0) x))"

text \<open>One adjoint direction (the body of the loop at source line 457).\<close>

definition adj_dir ::
  "('a::zero) arith \<Rightarrow> ('a, 'f) backend \<Rightarrow> nat list \<Rightarrow> nat list list \<Rightarrow> nat list list \<Rightarrow> bool \<Rightarrow>
   ('a, 'f) linsol \<times> 'a heap \<Rightarrow> nat \<Rightarrow> ('a, 'f) linsol \<times> 'a heap" where
  "adj_dir ar be output adjSeed adjSens tr = (\<lambda>(s, h) d.
     let h1 = set_data h (adjSeed ! d ! 0) (negate ar (data (h (adjSeed ! d ! 0))))
     in case solve_ptr be (data (h1 (adjSeed ! d ! 0))) (size1 (sparsity (h1 (output ! 0))))
               (\<not> tr) s of
          (x, s') \<Rightarrow>
            let h2 = set_data h1 (adjSeed ! d ! 0) x;
                h3 = (if \<not> tr
                      then h2(adjSens ! d ! 1 :=
                             mul_no_alloc_tn ar (h2 (output ! 0)) (h2 (adjSeed ! d ! 0)) (h2 (adjSens ! d ! 1)))
                      else h2(adjSens ! d ! 1 :=
                             mul_no_alloc_tn ar (h2 (adjSeed ! d ! 0)) (h2 (output ! 0)) (h2 (adjSens ! d ! 1))));
                h4 = (if adjSeed ! d ! 0 = adjSens ! d ! 0
                      then set_data h3 (adjSens ! d ! 0) (negate ar (data (h3 (adjSens ! d ! 0))))
                      else let h' = set_data h3 (adjSens ! d ! 0)
                                      (minus_into ar (data (h3 (adjSens ! d ! 0)))
                                         (data (h3 (adjSeed ! d ! 0))))
                           in set_data h' (adjSeed ! d ! 0) (fill_zero (data (h' (adjSeed ! d ! 0)))))
            in (s', h4))"

definition dgen_forward ::
  "'a arith \<Rightarrow> ('a, 'f) backend \<Rightarrow> nat list \<Rightarrow> nat list list \<Rightarrow> nat list list \<Rightarrow> bool \<Rightarrow>
   ('a, 'f) linsol \<times> 'a heap \<Rightarrow> ('a, 'f) linsol \<times> 'a heap" where
  "dgen_forward ar be output fwdSeed fwdSens tr st =
     foldl (fwd_dir ar be output fwdSeed fwdSens tr) st [0..<length fwdSens]"

definition dgen_adjoint ::
  "('a::zero) arith \<Rightarrow> ('a, 'f) backend \<Rightarrow> nat list \<Rightarrow> nat list list \<Rightarrow> nat list list \<Rightarrow> bool \<Rightarrow>
   ('a, 'f) linsol \<times> 'a heap \<Rightarrow> ('a, 'f) linsol \<times> 'a heap" where
  "dgen_adjoint ar be output adjSeed adjSens tr st =
     foldl (adj_dir ar be output adjSeed adjSens tr) st [0..<length adjSeed]"

text \<open>\<open>evaluateDGen\<close>: \<open>nfwd\<close> is the number of forward sensitivity directions, \<open>nadj\<close> the
  number of adjoint seed directions.\<close>

definition evaluateDGen ::
  "('a::zero) arith \<Rightarrow> ('a, 'f) backend \<Rightarrow> nat list \<Rightarrow> nat list \<Rightarrow> nat list list \<Rightarrow>
   nat list list \<Rightarrow> nat list list \<Rightarrow> nat list list \<Rightarrow> bool \<Rightarrow>
   ('a, 'f) linsol \<times> 'a heap \<Rightarrow> ('a, 'f) linsol \<times> 'a heap" where
  "evaluateDGen ar be input output fwdSeed fwdSens adjSeed adjSens tr st =
     dgen_adjoint ar be output adjSeed adjSens tr
       (dgen_forward ar be output fwdSeed fwdSens tr
          (dgen_primal be input output tr st))"

text \<open>
  Laws of sign that the statements below name where they need them.  In both sets
  negation undoes itself and a difference is the sum with the negated number.
  \<open>sum_symmetric\<close> adds that negation can be moved into both terms of a sum; exact
  arithmetic has this, and so has binary64 arithmetic under rounding to nearest, which is
  symmetric in sign, up to the sign of a zero (\<open>x + (-x)\<close> is \<open>+0\<close> and its negation is
  \<open>-0\<close>).  \<open>product_symmetric\<close> adds that negation can be moved out of either factor of
  a product; exact arithmetic and binary64 arithmetic have this for all numbers.
\<close>

definition sum_symmetric :: "'a arith \<Rightarrow> bool" where
  "sum_symmetric ar \<longleftrightarrow>
     (\<forall>x. fneg ar (fneg ar x) = x)
     \<and> (\<forall>x y. fsub ar x y = fadd ar x (fneg ar y))
     \<and> (\<forall>x y. fneg ar (fadd ar x y) = fadd ar (fneg ar x) (fneg ar y))"

definition product_symmetric :: "'a arith \<Rightarrow> bool" where
  "product_symmetric ar \<longleftrightarrow>
     (\<forall>x. fneg ar (fneg ar x) = x)
     \<and> (\<forall>x y. fsub ar x y = fadd ar x (fneg ar y))
     \<and> (\<forall>x y. fmul ar x (fneg ar y) = fneg ar (fmul ar x y))
     \<and> (\<forall>x y. fmul ar (fneg ar x) y = fneg ar (fmul ar x y))"

text \<open>
  For the statements about the forward directions.  \<open>fwd_terms tr X A_hat sp k\<close> are the
  terms of the entry of \<open>X A_hat\<close> (for \<open>tr\<close>: of \<open>X A_hat\<^sup>T\<close>) at the \<open>k\<close>-th structural
  nonzero of the pattern \<open>sp\<close>.  \<open>negated_sum\<close> is the right-hand side as the code builds
  it: every value of \<open>B_hat\<close> negated, the terms of the product added to it one after the
  other, and the result negated.  \<open>residual\<close> is \<open>B_hat - X A_hat\<close> (for \<open>tr\<close>:
  \<open>B_hat - X A_hat\<^sup>T\<close>) on the pattern of \<open>B_hat\<close>: the terms of the product
  subtracted from every value of \<open>B_hat\<close> one after the other.  \<open>fwd_ok\<close> is the
  discipline the caller keeps with its buffers: the sensitivity buffer of a direction is
  neither X nor the A-seed of the direction nor any buffer of another direction, and no
  seed is X.  The B-seed of a direction may well be its sensitivity buffer.
\<close>

definition fwd_terms :: "bool \<Rightarrow> 'a matrix \<Rightarrow> 'a matrix \<Rightarrow> crs \<Rightarrow> nat \<Rightarrow> ('a \<times> 'a) list" where
  "fwd_terms tr X A_hat sp k = terms_at (if tr then terms_nt X A_hat else terms_nn X A_hat) sp k"

definition negated_sum :: "'a arith \<Rightarrow> bool \<Rightarrow> 'a matrix \<Rightarrow> 'a matrix \<Rightarrow> 'a matrix \<Rightarrow> 'a list" where
  "negated_sum ar tr B_hat X A_hat =
     map (\<lambda>k. fneg ar (accumulate ar (fneg ar (data B_hat ! k))
                         (fwd_terms tr X A_hat (sparsity B_hat) k)))
       [0..<length (data B_hat)]"

definition residual :: "'a arith \<Rightarrow> bool \<Rightarrow> 'a matrix \<Rightarrow> 'a matrix \<Rightarrow> 'a matrix \<Rightarrow> 'a list" where
  "residual ar tr B_hat X A_hat =
     map (\<lambda>k. foldl (\<lambda>r (x, a). fsub ar r (fmul ar x a)) (data B_hat ! k)
                 (fwd_terms tr X A_hat (sparsity B_hat) k))
       [0..<length (data B_hat)]"

definition fwd_ok :: "nat list \<Rightarrow> nat list list \<Rightarrow> nat list list \<Rightarrow> bool" where
  "fwd_ok output fwdSeed fwdSens \<longleftrightarrow>
     (\<forall>d<length fwdSens.
        output ! 0 \<notin> {fwdSeed ! d ! 0, fwdSeed ! d ! 1, fwdSens ! d ! 0}
        \<and> fwdSens ! d ! 0 \<noteq> fwdSeed ! d ! 1
        \<and> (\<forall>e<length fwdSens. e \<noteq> d \<longrightarrow>
              fwdSens ! e ! 0 \<notin> {fwdSeed ! d ! 0, fwdSeed ! d ! 1, fwdSens ! d ! 0}))"

text \<open>Two buffers have the same shape: one pattern, and as many values.\<close>

definition same_shape :: "'a matrix \<Rightarrow> 'a matrix \<Rightarrow> bool" where
  "same_shape x y \<longleftrightarrow> sparsity x = sparsity y \<and> length (data x) = length (data y)"

text \<open>
  The factorization that the one \<open>prepare()\<close> of a batched evaluation produces, and the
  primal solution: X with the values the backend leaves when it is handed the values of
  B (which are in X already when B and X are one buffer).
\<close>

definition primal_factorization ::
  "('a, 'f) backend \<Rightarrow> nat list \<Rightarrow> ('a, 'f) linsol \<Rightarrow> 'a heap \<Rightarrow> 'f" where
  "primal_factorization be input s h =
     factorization (prepare be (setInput (h (input ! 1)) LINSOL_A s))"

definition primal_solution ::
  "('a, 'f) backend \<Rightarrow> nat list \<Rightarrow> nat list \<Rightarrow> bool \<Rightarrow> ('a, 'f) linsol \<Rightarrow> 'a heap \<Rightarrow> 'a matrix" where
  "primal_solution be input output tr s h =
     (h (output ! 0))
       \<lparr>data := solve_impl be (primal_factorization be input s h)
          (if input ! 0 \<noteq> output ! 0
           then std_copy (data (h (input ! 0))) (data (h (output ! 0)))
           else data (h (output ! 0)))
          (size1 (sparsity (h (output ! 0)))) tr\<rparr>"

text \<open>
  For the statements about the adjoint directions.  \<open>solved_seed\<close> is the seed buffer of
  a direction after it has been negated and solved in place with the opposite transpose
  flag, and \<open>adjoint_lambda\<close> is that buffer negated back to the sign of the seed.
  \<open>adj_terms tr X L sp k\<close> are the terms of the entry of \<open>X\<^sup>T L\<close> (for \<open>tr\<close>: of
  \<open>L\<^sup>T X\<close>) at the \<open>k\<close>-th structural nonzero of the pattern \<open>sp\<close>.  \<open>adj_ok\<close> is the
  caller's discipline: X is not a buffer of any adjoint direction, the A-adjoint of a
  direction is neither its seed nor its B-adjoint, and two directions share no buffer.
  The seed of a direction may be its B-adjoint.  \<open>adj_fit\<close> says that the buffers of the
  adjoint directions have the shapes of what they are adjoints of: every seed has the
  shape of X, with every row of its pattern ending inside its value vector, every
  B-adjoint has the shape of its seed, and every A-adjoint has the pattern of A.
  \<open>in_place\<close> says of the backend that its solve leaves the buffer as long as it was.
\<close>

definition solved_seed ::
  "'a arith \<Rightarrow> ('a, 'f) backend \<Rightarrow> nat list \<Rightarrow> nat list \<Rightarrow> bool \<Rightarrow> ('a, 'f) linsol \<Rightarrow> 'a heap \<Rightarrow>
   nat \<Rightarrow> 'a matrix" where
  "solved_seed ar be input output tr s h seed =
     (h seed)\<lparr>data := solve_impl be (primal_factorization be input s h)
                          (negate ar (data (h seed))) (size1 (sparsity (h (output ! 0)))) (\<not> tr)\<rparr>"

definition adjoint_lambda ::
  "'a arith \<Rightarrow> ('a, 'f) backend \<Rightarrow> nat list \<Rightarrow> nat list \<Rightarrow> bool \<Rightarrow> ('a, 'f) linsol \<Rightarrow> 'a heap \<Rightarrow>
   nat \<Rightarrow> 'a matrix" where
  "adjoint_lambda ar be input output tr s h seed =
     (h seed)\<lparr>data := negate ar (data (solved_seed ar be input output tr s h seed))\<rparr>"

definition adj_terms :: "bool \<Rightarrow> 'a matrix \<Rightarrow> 'a matrix \<Rightarrow> crs \<Rightarrow> nat \<Rightarrow> ('a \<times> 'a) list" where
  "adj_terms tr X L sp k = terms_at (if tr then terms_tn L X else terms_tn X L) sp k"

definition adj_ok :: "nat list \<Rightarrow> nat list list \<Rightarrow> nat list list \<Rightarrow> bool" where
  "adj_ok output adjSeed adjSens \<longleftrightarrow>
     (\<forall>d<length adjSeed.
        output ! 0 \<notin> {adjSeed ! d ! 0, adjSens ! d ! 0, adjSens ! d ! 1}
        \<and> adjSens ! d ! 1 \<notin> {adjSeed ! d ! 0, adjSens ! d ! 0}
        \<and> (\<forall>e<length adjSeed. e \<noteq> d \<longrightarrow>
              {adjSeed ! e ! 0, adjSens ! e ! 0, adjSens ! e ! 1}
              \<inter> {adjSeed ! d ! 0, adjSens ! d ! 0, adjSens ! d ! 1} = {}))"

definition adj_fit :: "'a heap \<Rightarrow> nat list \<Rightarrow> nat list \<Rightarrow> nat list list \<Rightarrow> nat list list \<Rightarrow> bool" where
  "adj_fit h input output adjSeed adjSens \<longleftrightarrow>
     (\<forall>d<length adjSeed.
        same_shape (h (output ! 0)) (h (adjSeed ! d ! 0))
        \<and> (\<forall>i < size1 (sparsity (h (adjSeed ! d ! 0))).
              rowind (sparsity (h (adjSeed ! d ! 0))) ! Suc i \<le> length (data (h (adjSeed ! d ! 0))))
        \<and> same_shape (h (adjSeed ! d ! 0)) (h (adjSens ! d ! 0))
        \<and> sparsity (h (adjSens ! d ! 1)) = sparsity (h (input ! 1)))"

definition in_place :: "('a, 'f) backend \<Rightarrow> bool" where
  "in_place be \<longleftrightarrow> (\<forall>f x nrhs tr. length (solve_impl be f x nrhs tr) = length x)"

text \<open>
  What an adjoint direction \<open>d\<close> has made of its three buffers, from the memory \<open>h\<close>
  before it to the memory \<open>h'\<close> after it, when the solves are answered from the
  factorization \<open>f\<close>: with \<open>mu\<close> the seed negated and solved, the A-adjoint has had the
  terms of \<open>X\<^sup>T mu\<close> (for \<open>tr\<close>: of \<open>mu\<^sup>T X\<close>) added on its own pattern; the B-adjoint
  is \<open>mu\<close> negated when it is the seed buffer itself, and otherwise it has \<open>mu\<close>
  subtracted and the seed buffer is zero.
\<close>

definition adjoint_done ::
  "('a::zero) arith \<Rightarrow> ('a, 'f) backend \<Rightarrow> 'f \<Rightarrow> nat list \<Rightarrow> nat list list \<Rightarrow> nat list list \<Rightarrow> bool \<Rightarrow>
   'a heap \<Rightarrow> 'a heap \<Rightarrow> nat \<Rightarrow> bool" where
  "adjoint_done ar be f output adjSeed adjSens tr h h' d =
     (let mu = (h (adjSeed ! d ! 0))
                  \<lparr>data := solve_impl be f (negate ar (data (h (adjSeed ! d ! 0))))
                             (size1 (sparsity (h (output ! 0)))) (\<not> tr)\<rparr>
      in data (h' (adjSens ! d ! 1))
           = map (\<lambda>k. accumulate ar (data (h (adjSens ! d ! 1)) ! k)
                        (adj_terms tr (h (output ! 0)) mu (sparsity (h (adjSens ! d ! 1))) k))
               [0..<length (data (h (adjSens ! d ! 1)))]
         \<and> sparsity (h' (adjSens ! d ! 1)) = sparsity (h (adjSens ! d ! 1))
         \<and> (if adjSeed ! d ! 0 = adjSens ! d ! 0
            then data (h' (adjSens ! d ! 0)) = negate ar (data mu)
            else data (h' (adjSens ! d ! 0)) = minus_into ar (data (h (adjSens ! d ! 0))) (data mu)
                 \<and> data (h' (adjSeed ! d ! 0)) = fill_zero (data mu)))"

text \<open>
  The two updates of an adjoint direction as formulas.  \<open>adjoint_A_update\<close> is
  \<open>A_bar += -(X\<^sup>T L)\<close> (for \<open>tr\<close>: \<open>A_bar += -(L\<^sup>T X)\<close>) projected onto the pattern \<open>sp\<close>:
  every term of the product is negated and added to the value of \<open>A_bar\<close>, one after
  the other.  \<open>adjoint_B_update\<close> is \<open>B_bar += L\<close>.
\<close>

definition add_negated :: "'a arith \<Rightarrow> 'a \<Rightarrow> ('a \<times> 'a) list \<Rightarrow> 'a" where
  "add_negated ar z ps = foldl (\<lambda>v (a, b). fadd ar v (fneg ar (fmul ar a b))) z ps"

definition adjoint_A_update ::
  "'a arith \<Rightarrow> bool \<Rightarrow> 'a matrix \<Rightarrow> 'a matrix \<Rightarrow> 'a matrix \<Rightarrow> crs \<Rightarrow> 'a list" where
  "adjoint_A_update ar tr A_bar X L sp =
     map (\<lambda>k. add_negated ar (data A_bar ! k) (adj_terms tr X L sp k)) [0..<length (data A_bar)]"

definition adjoint_B_update :: "'a arith \<Rightarrow> 'a matrix \<Rightarrow> 'a matrix \<Rightarrow> 'a list" where
  "adjoint_B_update ar B_bar L =
     map (\<lambda>k. fadd ar (data B_bar ! k) (data L ! k)) [0..<length (data B_bar)]"

text \<open>Exact arithmetic, in any ring.\<close>

definition exact :: "('a::ring) arith" where
  "exact = \<lparr>fneg = uminus, fadd = (+), fsub = (-), fmul = (*)\<rparr>"

section \<open>Sparsity propagation\<close>

text \<open>
  \<open>propagateSparsityGen\<close> gets the same kind of pointers, re-reads the value vectors as
  arrays of bit vectors (\<open>bvec_t\<close>, a machine word whose width is left open here) and
  walks them with three raw pointers, each advanced by one after every access.  A raw
  pointer is the buffer it points into and an offset from the start of that buffer.
\<close>

definition peek :: "'a heap \<Rightarrow> nat \<Rightarrow> nat \<Rightarrow> 'a" where
  "peek h p off = data (h p) ! off"

definition poke :: "'a heap \<Rightarrow> nat \<Rightarrow> nat \<Rightarrow> 'a \<Rightarrow> 'a heap" where
  "poke h p off v = h(p := (h p)\<lparr>data := (data (h p))[off := v]\<rparr>)"

text \<open>Source lines 237 to 240: the dependencies of all elements of A.\<close>

definition collect_A :: "('w::len) word heap \<Rightarrow> nat \<Rightarrow> nat \<Rightarrow> 'w word \<times> nat" where
  "collect_A h A n =
     foldl (\<lambda>(A_dep, A_ptr) i. (A_dep OR peek h A A_ptr, Suc A_ptr)) (0, 0) [0..<n]"

text \<open>Source lines 245 to 254: one right-hand side of the forward pass (\<open>rind\<close> is the
  vector \<open>rowind\<close> of the source).\<close>

definition fwd_row ::
  "nat list \<Rightarrow> nat \<Rightarrow> nat \<Rightarrow> ('w::len) word \<Rightarrow> nat \<times> nat \<times> 'w word heap \<Rightarrow> nat \<Rightarrow>
   nat \<times> nat \<times> 'w word heap" where
  "fwd_row rind B X A_dep = (\<lambda>(B_ptr, X_ptr, h) i.
     case foldl (\<lambda>(AB_dep, B_ptr) k. (AB_dep OR peek h B B_ptr, Suc B_ptr)) (A_dep, B_ptr)
            [rind ! i..<rind ! Suc i] of
       (AB_dep, B_ptr') \<Rightarrow>
         (case foldl (\<lambda>(X_ptr, h) k. (Suc X_ptr, poke h X X_ptr AB_dep)) (X_ptr, h)
                 [rind ! i..<rind ! Suc i] of
            (X_ptr', h') \<Rightarrow> (B_ptr', X_ptr', h')))"

text \<open>Source lines 264 to 277: one right-hand side of the reverse pass.\<close>

definition rev_row ::
  "nat list \<Rightarrow> nat \<Rightarrow> nat \<Rightarrow> ('w::len) word \<times> nat \<times> nat \<times> 'w word heap \<Rightarrow> nat \<Rightarrow>
   'w word \<times> nat \<times> nat \<times> 'w word heap" where
  "rev_row rind B X = (\<lambda>(X_dep_all, B_ptr, X_ptr, h) i.
     case foldl (\<lambda>(X_dep, X_ptr, h) k. (X_dep OR peek h X X_ptr, Suc X_ptr, poke h X X_ptr 0))
            (0, X_ptr, h) [rind ! i..<rind ! Suc i] of
       (X_dep, X_ptr', h1) \<Rightarrow>
         (case foldl (\<lambda>(B_ptr, h) k. (Suc B_ptr, poke h B B_ptr (peek h B B_ptr OR X_dep)))
                 (B_ptr, h1) [rind ! i..<rind ! Suc i] of
            (B_ptr', h2) \<Rightarrow> (X_dep_all OR X_dep, B_ptr', X_ptr', h2)))"

text \<open>Source lines 281 to 283: the dependencies of all X go to every element of A.\<close>

definition spread_A :: "('w::len) word heap \<Rightarrow> nat \<Rightarrow> nat \<Rightarrow> 'w word \<Rightarrow> nat \<times> 'w word heap" where
  "spread_A h A n X_dep_all =
     foldl (\<lambda>(A_ptr, h) i. (Suc A_ptr, poke h A A_ptr (peek h A A_ptr OR X_dep_all))) (0, h)
       [0..<n]"

text \<open>
  \<open>propagateSparsityGen\<close> (the branch that is compiled, \<open>#if 1\<close>).  The row structure is
  the one of the first input, \<open>nnz\<close> is the number of structural nonzeros of the second
  input; the work vectors and the transpose flag are not used.
\<close>

definition propagateSparsityGen ::
  "nat list \<Rightarrow> nat list \<Rightarrow> bool \<Rightarrow> bool \<Rightarrow> ('w::len) word heap \<Rightarrow> 'w word heap" where
  "propagateSparsityGen input output fwd tr h =
     (let sp = sparsity (h (input ! 0));
          nrhs = size1 sp;
          n = nnz (sparsity (h (input ! 1)))
      in if fwd
         then (case collect_A h (input ! 1) n of
                 (A_dep, A_ptr) \<Rightarrow>
                   (case foldl (fwd_row (rowind sp) (input ! 0) (output ! 0) A_dep) (0, 0, h)
                           [0..<nrhs] of
                      (B_ptr, X_ptr, h') \<Rightarrow> h'))
         else (case foldl (rev_row (rowind sp) (input ! 0) (output ! 0)) (0, 0, 0, h)
                      [0..<nrhs] of
                 (X_dep_all, B_ptr, X_ptr, h1) \<Rightarrow> snd (spread_A h1 (input ! 1) n X_dep_all)))"

text \<open>
  For the statements: the OR of a list of bit vectors; the masks that a buffer holds
  between two offsets; a well-formed row structure (one start per row and the end, the
  first start 0, the starts ascending); and a list with a function applied to the entries
  between two offsets.
\<close>

definition or_all :: "('w::len) word list \<Rightarrow> 'w word" where
  "or_all xs = foldl (OR) 0 xs"

definition masks :: "'a list \<Rightarrow> nat \<Rightarrow> nat \<Rightarrow> 'a list" where
  "masks xs lo hi = map (\<lambda>k. xs ! k) [lo..<hi]"

definition rows_ok :: "crs \<Rightarrow> bool" where
  "rows_ok sp \<longleftrightarrow> length (rowind sp) = Suc (size1 sp) \<and> rowind sp ! 0 = 0 \<and> sorted (rowind sp)"

definition map_range :: "('a \<Rightarrow> 'a) \<Rightarrow> nat \<Rightarrow> nat \<Rightarrow> 'a list \<Rightarrow> 'a list" where
  "map_range g lo hi xs = map (\<lambda>k. if lo \<le> k \<and> k < hi then g (xs ! k) else xs ! k) [0..<length xs]"

text \<open>
  The buffers fit the row structure of the first input: the row structure is well formed,
  the buffers of the first input and of the output hold a bit vector for every
  structural nonzero of it, and the buffer of the second input holds one for every
  structural nonzero of its own pattern.  Without this the code reads or writes past the
  end of a buffer.
\<close>

definition buffers_ok :: "nat list \<Rightarrow> nat list \<Rightarrow> 'a heap \<Rightarrow> bool" where
  "buffers_ok input output h \<longleftrightarrow>
     rows_ok (sparsity (h (input ! 0)))
     \<and> rowind (sparsity (h (input ! 0))) ! size1 (sparsity (h (input ! 0)))
         \<le> length (data (h (input ! 0)))
     \<and> rowind (sparsity (h (input ! 0))) ! size1 (sparsity (h (input ! 0)))
         \<le> length (data (h (output ! 0)))
     \<and> nnz (sparsity (h (input ! 1))) \<le> length (data (h (input ! 1)))"

text \<open>The OR of the masks in row \<open>i\<close> of a buffer with the row starts \<open>rind\<close>.\<close>

definition row_dep :: "('w::len) word list \<Rightarrow> nat list \<Rightarrow> nat \<Rightarrow> 'w word" where
  "row_dep xs rind i = or_all (masks xs (rind ! i) (rind ! Suc i))"

section \<open>Symbolic evaluation\<close>

text \<open>
  \<open>evaluateMXGen\<close> works on expressions of the graph engine.  The engine is not part of
  the source file, so the type of expressions is a parameter and so is every operation
  the code calls on it: the test for a structural zero, shape and number of rows, the
  zero expression of a shape (\<open>MX::sparse\<close>), the empty expression (\<open>MX()\<close>), the node
  constructor behind \<open>solve\<close> (\<open>getSolve\<close>), difference, sum, product, product projected
  onto a sparsity, the sparsity of an expression, transpose, vertical concatenation and
  vertical split.  The arguments are again pointers, now to slots that hold an
  expression each.  A call of the member \<open>solve(A, B, transpose)\<close> makes a solve node and
  is recorded with its arguments.
\<close>

record 'm engine =
  isZero :: "'m \<Rightarrow> bool"
  mx_shape :: "'m \<Rightarrow> nat \<times> nat"
  mx_size1 :: "'m \<Rightarrow> nat"
  mx_sparse :: "nat \<times> nat \<Rightarrow> 'm"
  mx_null :: 'm
  getSolve :: "'m \<Rightarrow> 'm \<Rightarrow> bool \<Rightarrow> 'm"
  mx_minus :: "'m \<Rightarrow> 'm \<Rightarrow> 'm"
  mx_plus :: "'m \<Rightarrow> 'm \<Rightarrow> 'm"
  mul :: "'m \<Rightarrow> 'm \<Rightarrow> 'm"
  mul_sp :: "'m \<Rightarrow> 'm \<Rightarrow> crs \<Rightarrow> 'm"
  mx_sparsity :: "'m \<Rightarrow> crs"
  mx_trans :: "'m \<Rightarrow> 'm"
  vertcat :: "'m list \<Rightarrow> 'm"
  vertsplit :: "'m \<Rightarrow> nat list \<Rightarrow> 'm list"

type_synonym 'm slots = "nat \<Rightarrow> 'm"

type_synonym 'm emitted = "('m \<times> 'm \<times> bool) list"

text \<open>\<open>MX solve(const MX& A, const MX& B, bool transpose)\<close>, source line 480.\<close>

definition solve_mx :: "'m engine \<Rightarrow> 'm \<Rightarrow> 'm \<Rightarrow> bool \<Rightarrow> 'm emitted \<Rightarrow> 'm \<times> 'm emitted" where
  "solve_mx eng A B tr log = (getSolve eng A B tr, log @ [(A, B, tr)])"

text \<open>The nondifferentiated output (source lines 128 to 135).\<close>

definition mx_primal ::
  "'m engine \<Rightarrow> nat list \<Rightarrow> nat list \<Rightarrow> bool \<Rightarrow> bool \<Rightarrow> 'm slots \<times> 'm emitted \<Rightarrow>
   'm slots \<times> 'm emitted" where
  "mx_primal eng input output output_given tr = (\<lambda>(sl, log).
     if \<not> output_given
     then (if isZero eng (sl (input ! 0))
           then (sl(output ! 0 := mx_sparse eng (mx_shape eng (sl (input ! 0)))), log)
           else (case solve_mx eng (sl (input ! 1)) (sl (input ! 0)) tr log of
                   (x, log') \<Rightarrow> (sl(output ! 0 := x), log')))
     else (sl, log))"

text \<open>
  One forward direction of the collecting loop (source lines 142 to 160).  The loop
  carries the vectors \<open>rhs_ind\<close>, \<open>rhs\<close> and \<open>row_offset\<close> and the slots.
\<close>

definition fwd_collect ::
  "'m engine \<Rightarrow> nat list \<Rightarrow> nat list list \<Rightarrow> nat list list \<Rightarrow> bool \<Rightarrow>
   nat list \<times> 'm list \<times> nat list \<times> 'm slots \<Rightarrow> nat \<Rightarrow> nat list \<times> 'm list \<times> nat list \<times> 'm slots" where
  "fwd_collect eng output fwdSeed fwdSens tr = (\<lambda>(rhs_ind, rhs, row_offset, sl) d.
     let B_hat = sl (fwdSeed ! d ! 0);
         A_hat = sl (fwdSeed ! d ! 1);
         X = sl (output ! 0);
         rhs_d = (if tr then mx_minus eng B_hat (mul eng X (mx_trans eng A_hat))
                  else mx_minus eng B_hat (mul eng X A_hat))
     in if isZero eng rhs_d
        then (rhs_ind, rhs, row_offset, sl(fwdSens ! d ! 0 := mx_sparse eng (mx_shape eng rhs_d)))
        else (rhs_ind @ [d], rhs @ [rhs_d], row_offset @ [last row_offset + mx_size1 eng rhs_d], sl))"

text \<open>Saving one piece of the stacked solve (source line 169).\<close>

definition fwd_save :: "nat list list \<Rightarrow> nat list \<Rightarrow> 'm list \<Rightarrow> 'm slots \<Rightarrow> nat \<Rightarrow> 'm slots" where
  "fwd_save fwdSens rhs_ind parts sl i = sl(fwdSens ! (rhs_ind ! i) ! 0 := parts ! i)"

text \<open>The forward sensitivities (source lines 137 to 171).\<close>

definition mx_forward ::
  "'m engine \<Rightarrow> nat list \<Rightarrow> nat list \<Rightarrow> nat list list \<Rightarrow> nat list list \<Rightarrow> bool \<Rightarrow>
   'm slots \<times> 'm emitted \<Rightarrow> 'm slots \<times> 'm emitted" where
  "mx_forward eng input output fwdSeed fwdSens tr = (\<lambda>(sl, log).
     case foldl (fwd_collect eng output fwdSeed fwdSens tr) ([], [], [0], sl)
            [0..<length fwdSens] of
       (rhs_ind, rhs, row_offset, sl1) \<Rightarrow>
         if rhs \<noteq> []
         then (case solve_mx eng (sl1 (input ! 1)) (vertcat eng rhs) tr log of
                 (x, log') \<Rightarrow>
                   let parts = vertsplit eng x row_offset
                   in (foldl (fwd_save fwdSens rhs_ind parts) sl1 [0..<length parts], log'))
         else (sl1, log))"

text \<open>One adjoint direction of the collecting loop (source lines 178 to 193).\<close>

definition adj_collect ::
  "'m engine \<Rightarrow> nat list list \<Rightarrow> nat list list \<Rightarrow>
   nat list \<times> 'm list \<times> nat list \<times> 'm slots \<Rightarrow> nat \<Rightarrow> nat list \<times> 'm list \<times> nat list \<times> 'm slots" where
  "adj_collect eng adjSeed adjSens = (\<lambda>(rhs_ind, rhs, row_offset, sl) d.
     let X_bar = sl (adjSeed ! d ! 0)
     in if isZero eng X_bar
        then (if adjSeed ! d ! 0 \<noteq> adjSens ! d ! 0
              then (rhs_ind, rhs, row_offset,
                    (sl(adjSens ! d ! 0 := X_bar))(adjSeed ! d ! 0 := mx_null eng))
              else (rhs_ind, rhs, row_offset, sl))
        else (rhs_ind @ [d], rhs @ [X_bar], row_offset @ [last row_offset + mx_size1 eng X_bar],
              sl(adjSeed ! d ! 0 := mx_null eng)))"

text \<open>One solved direction of the distributing loop (source lines 201 to 215).\<close>

definition adj_save ::
  "'m engine \<Rightarrow> nat list \<Rightarrow> nat list \<Rightarrow> nat list list \<Rightarrow> nat list list \<Rightarrow> bool \<Rightarrow>
   nat list \<Rightarrow> 'm list \<Rightarrow> 'm slots \<Rightarrow> nat \<Rightarrow> 'm slots" where
  "adj_save eng input output adjSeed adjSens tr rhs_ind parts = (\<lambda>sl i.
     let d = rhs_ind ! i;
         sl1 = (if \<not> tr
                then sl(adjSens ! d ! 1 :=
                       mx_minus eng (sl (adjSens ! d ! 1))
                         (mul_sp eng (mx_trans eng (sl (output ! 0))) (parts ! i)
                            (mx_sparsity eng (sl (input ! 1)))))
                else sl(adjSens ! d ! 1 :=
                       mx_minus eng (sl (adjSens ! d ! 1))
                         (mul_sp eng (mx_trans eng (parts ! i)) (sl (output ! 0))
                            (mx_sparsity eng (sl (input ! 1))))))
     in if adjSeed ! d ! 0 = adjSens ! d ! 0
        then sl1(adjSens ! d ! 0 := parts ! i)
        else sl1(adjSens ! d ! 0 := mx_plus eng (sl1 (adjSens ! d ! 0)) (parts ! i)))"

text \<open>The collecting loop of the adjoint pass, from the three vectors as \<open>resize\<close> leaves
  them (source lines 174 to 194).\<close>

definition adj_collect_all ::
  "'m engine \<Rightarrow> nat list list \<Rightarrow> nat list list \<Rightarrow> 'm slots \<Rightarrow>
   nat list \<times> 'm list \<times> nat list \<times> 'm slots" where
  "adj_collect_all eng adjSeed adjSens sl =
     foldl (adj_collect eng adjSeed adjSens) ([], [], [0], sl) [0..<length adjSeed]"

text \<open>The slots as the collecting loop of the adjoint pass leaves them.\<close>

definition adj_collected :: "'m engine \<Rightarrow> nat list list \<Rightarrow> nat list list \<Rightarrow> 'm slots \<Rightarrow> 'm slots" where
  "adj_collected eng adjSeed adjSens sl =
     (case adj_collect_all eng adjSeed adjSens sl of (rhs_ind, rhs, row_offset, sl1) \<Rightarrow> sl1)"

text \<open>The adjoint sensitivities (source lines 173 to 217).\<close>

definition mx_adjoint ::
  "'m engine \<Rightarrow> nat list \<Rightarrow> nat list \<Rightarrow> nat list list \<Rightarrow> nat list list \<Rightarrow> bool \<Rightarrow>
   'm slots \<times> 'm emitted \<Rightarrow> 'm slots \<times> 'm emitted" where
  "mx_adjoint eng input output adjSeed adjSens tr = (\<lambda>(sl, log).
     case adj_collect_all eng adjSeed adjSens sl of
       (rhs_ind, rhs, row_offset, sl1) \<Rightarrow>
         if rhs \<noteq> []
         then (case solve_mx eng (sl1 (input ! 1)) (vertcat eng rhs) (\<not> tr) log of
                 (x, log') \<Rightarrow>
                   let parts = vertsplit eng x row_offset
                   in (foldl (adj_save eng input output adjSeed adjSens tr rhs_ind parts) sl1
                         [0..<length parts], log'))
         else (sl1, log))"

definition evaluateMXGen ::
  "'m engine \<Rightarrow> nat list \<Rightarrow> nat list \<Rightarrow> nat list list \<Rightarrow> nat list list \<Rightarrow>
   nat list list \<Rightarrow> nat list list \<Rightarrow> bool \<Rightarrow> bool \<Rightarrow>
   'm slots \<times> 'm emitted \<Rightarrow> 'm slots \<times> 'm emitted" where
  "evaluateMXGen eng input output fwdSeed fwdSens adjSeed adjSens output_given tr st =
     mx_adjoint eng input output adjSeed adjSens tr
       (mx_forward eng input output fwdSeed fwdSens tr
          (mx_primal eng input output output_given tr st))"

text \<open>
  For the statements about the symbolic engine.  \<open>row_offsets\<close> are the offsets the
  collecting loops record for a list of row counts.  \<open>fwd_residual\<close> is the right-hand
  side of forward direction \<open>d\<close> and \<open>fwd_nonzero\<close> are the directions whose right-hand
  side is not a structural zero; \<open>adj_nonzero\<close> are the adjoint directions whose seed is
  not a structural zero and \<open>adj_parts\<close> are the pieces of the one stacked adjoint solve.
  \<open>splits_ok\<close> is what the code expects of \<open>vertsplit\<close>: one piece between every two
  neighbouring offsets.  \<open>mx_fwd_ok\<close> and \<open>mx_adj_ok\<close> are the discipline of the caller
  with its slots: a forward sensitivity slot is neither X nor A nor a slot of another
  forward direction; the adjoint directions keep \<open>adj_ok\<close> and none of their slots is A.
\<close>

definition row_offsets :: "nat list \<Rightarrow> nat list" where
  "row_offsets sizes = foldl (\<lambda>row_offset n. row_offset @ [last row_offset + n]) [0] sizes"



definition adj_nonzero :: "'m engine \<Rightarrow> 'm slots \<Rightarrow> nat list list \<Rightarrow> nat \<Rightarrow> nat list" where
  "adj_nonzero eng sl adjSeed n = filter (\<lambda>d. \<not> isZero eng (sl (adjSeed ! d ! 0))) [0..<n]"

definition adj_parts ::
  "'m engine \<Rightarrow> nat list \<Rightarrow> bool \<Rightarrow> 'm slots \<Rightarrow> nat list list \<Rightarrow> 'm list" where
  "adj_parts eng input tr sl adjSeed =
     vertsplit eng
       (getSolve eng (sl (input ! 1))
          (vertcat eng (map (\<lambda>d. sl (adjSeed ! d ! 0)) (adj_nonzero eng sl adjSeed (length adjSeed))))
          (\<not> tr))
       (row_offsets (map (\<lambda>d. mx_size1 eng (sl (adjSeed ! d ! 0)))
                       (adj_nonzero eng sl adjSeed (length adjSeed))))"

definition splits_ok :: "'m engine \<Rightarrow> bool" where
  "splits_ok eng \<longleftrightarrow> (\<forall>x row_offset. length (vertsplit eng x row_offset) = length row_offset - 1)"


definition mx_adj_ok :: "nat list \<Rightarrow> nat list \<Rightarrow> nat list list \<Rightarrow> nat list list \<Rightarrow> bool" where
  "mx_adj_ok input output adjSeed adjSens \<longleftrightarrow>
     adj_ok output adjSeed adjSens
     \<and> (\<forall>d<length adjSeed. input ! 1 \<notin> {adjSeed ! d ! 0, adjSens ! d ! 0, adjSens ! d ! 1})"


definition before_adjoint ::
  "'m engine \<Rightarrow> nat list \<Rightarrow> nat list \<Rightarrow> nat list list \<Rightarrow> nat list list \<Rightarrow> bool \<Rightarrow> bool \<Rightarrow>
   'm slots \<times> 'm emitted \<Rightarrow> 'm slots" where
  "before_adjoint eng input output fwdSeed fwdSens output_given tr st =
     fst (mx_forward eng input output fwdSeed fwdSens tr
            (mx_primal eng input output output_given tr st))"


text \<open>
  Expressions are finite, a node is built from operands that are there before it.  This
  is \<open>acyclic_engine\<close>: there is a rank of expressions under which a solve node ranks
  above its right-hand side, a concatenation ranks not below any of its parts and a piece
  of a split ranks not below the expression that was split.
\<close>

definition acyclic_engine :: "'m engine \<Rightarrow> ('m \<Rightarrow> nat) \<Rightarrow> bool" where
  "acyclic_engine eng rk \<longleftrightarrow>
     (\<forall>A B t. rk B < rk (getSolve eng A B t))
     \<and> (\<forall>xs. \<forall>x\<in>set xs. rk x \<le> rk (vertcat eng xs))
     \<and> (\<forall>x offs. \<forall>p\<in>set (vertsplit eng x offs). rk x \<le> rk p)"

text \<open>
  An engine for the examples: expressions are terms, every operation builds its term,
  the structural zeros are the zero expressions and what difference, product and
  transpose make of them.
\<close>

datatype mx =
    Sym string nat nat
  | Null
  | Sparse nat nat
  | SolveNode mx mx bool
  | Minus mx mx
  | Plus mx mx
  | Mul mx mx
  | MulSp mx mx crs
  | Trans mx
  | Vertcat "mx list"
  | Part mx "nat list" nat

primrec is_zero :: "mx \<Rightarrow> bool" where
  "is_zero (Sym name r c) = False"
| "is_zero Null = False"
| "is_zero (Sparse r c) = True"
| "is_zero (SolveNode a b t) = False"
| "is_zero (Minus a b) = (is_zero a \<and> is_zero b)"
| "is_zero (Plus a b) = (is_zero a \<and> is_zero b)"
| "is_zero (Mul a b) = (is_zero a \<or> is_zero b)"
| "is_zero (MulSp a b sp) = (is_zero a \<or> is_zero b)"
| "is_zero (Trans a) = is_zero a"
| "is_zero (Vertcat xs) = False"
| "is_zero (Part x offs i) = False"

primrec shape_of :: "mx \<Rightarrow> nat \<times> nat" where
  "shape_of (Sym name r c) = (r, c)"
| "shape_of Null = (0, 0)"
| "shape_of (Sparse r c) = (r, c)"
| "shape_of (SolveNode a b t) = shape_of b"
| "shape_of (Minus a b) = shape_of a"
| "shape_of (Plus a b) = shape_of a"
| "shape_of (Mul a b) = (fst (shape_of a), snd (shape_of b))"
| "shape_of (MulSp a b sp) = (size1 sp, size2 sp)"
| "shape_of (Trans a) = (snd (shape_of a), fst (shape_of a))"
| "shape_of (Vertcat xs) =
     (sum_list (map fst (map shape_of xs)), foldr max (map snd (map shape_of xs)) 0)"
| "shape_of (Part x offs i) = (offs ! Suc i - offs ! i, snd (shape_of x))"

definition term_engine :: "mx engine" where
  "term_engine =
     \<lparr>isZero = is_zero, mx_shape = shape_of, mx_size1 = (\<lambda>x. fst (shape_of x)),
      mx_sparse = (\<lambda>(r, c). Sparse r c), mx_null = Null, getSolve = SolveNode,
      mx_minus = Minus, mx_plus = Plus, mul = Mul, mul_sp = MulSp,
      mx_sparsity = (\<lambda>x. dense_sparsity (fst (shape_of x)) (snd (shape_of x))),
      mx_trans = Trans, vertcat = Vertcat,
      vertsplit = (\<lambda>x offs. map (Part x offs) [0..<length offs - 1])\<rparr>"

text \<open>
  An arithmetic for the examples: binary64 on whole numbers.  A sum, a difference or a
  product of two whole numbers is rounded to 53 significant bits, a tie going to the
  neighbour whose last bit is even; this is what binary64 arithmetic gives on whole
  numbers as long as the results stay below \<open>2^1024\<close> in magnitude.  \<open>bit_count n\<close> is
  the number of binary digits of \<open>n\<close>.
\<close>

function bit_count :: "int \<Rightarrow> nat" where
  "bit_count n = (if n \<le> 0 then 0 else Suc (bit_count (n div 2)))"
  by pat_completeness auto

termination bit_count
  by (relation "measure nat") auto

declare bit_count.simps [simp del]

definition round53 :: "int \<Rightarrow> int" where
  "round53 v =
     (let a = \<bar>v\<bar>;
          e = bit_count a - 53;
          q = a div 2 ^ e;
          r = a mod 2 ^ e
      in sgn v * ((if 2 ^ e < 2 * r \<or> (2 ^ e = 2 * r \<and> odd q) then q + 1 else q) * 2 ^ e))"

definition int53 :: "int arith" where
  "int53 =
     \<lparr>fneg = uminus, fadd = (\<lambda>x y. round53 (x + y)), fsub = (\<lambda>x y. round53 (x - y)),
      fmul = (\<lambda>x y. round53 (x * y))\<rparr>"

text \<open>A fixed backend for the examples: it accepts a matrix when none of its entries is
  zero, keeps the values as factorization, and "solves" by negating the buffer (the
  solve of the 1-by-1 system with the matrix \<open>-1\<close>).\<close>

definition neg_backend :: "(int, int list) backend" where
  "neg_backend =
     \<lparr>prepare_impl = (\<lambda>a f. (data a, 0 \<notin> set (data a))),
      solve_impl = (\<lambda>f x nrhs tr. map uminus x)\<rparr>"

definition raw_object :: "(int, int list) linsol" where
  "raw_object =
     \<lparr>rowperm = [], colperm = [], rowblock = [], colblock = [], input_v = [],
      output_v = [], prepared = False, factorization = [], calls = []\<rparr>"


text \<open>Two patterns for the examples: the 2-by-2 diagonal, and a 1-by-2 row.\<close>

definition diag2 :: crs where
  "diag2 = \<lparr>size1 = 2, size2 = 2, rowind = [0, 1, 2], col = [0, 1]\<rparr>"

definition corner2 :: crs where
  "corner2 = \<lparr>size1 = 2, size2 = 2, rowind = [0, 1, 1], col = [0]\<rparr>"

definition row12 :: crs where
  "row12 = \<lparr>size1 = 1, size2 = 2, rowind = [0, 2], col = [0, 1]\<rparr>"

definition no_dm :: "crs \<Rightarrow> nat list \<times> nat list \<times> nat list \<times> nat list" where
  "no_dm sp = ([], [], [], [])"

text \<open>
  A memory for the examples.  Pointer 0 is B, 1 is A (the 2-by-2 matrix \<open>-1\<close> on the
  diagonal, whose solve is the negation that \<open>neg_backend\<close> performs), 2 is X; 3, 4 and 5
  are the B-seed, the A-seed and the sensitivity buffer of a forward direction; 6, 7 and 8
  are the seed, the B-adjoint and the A-adjoint of an adjoint direction.
\<close>

definition row2 :: "int list \<Rightarrow> int matrix" where
  "row2 xs = \<lparr>sparsity = dense_sparsity 1 2, data = xs\<rparr>"

definition dg2 :: "int list \<Rightarrow> int matrix" where
  "dg2 xs = \<lparr>sparsity = diag2, data = xs\<rparr>"

definition heap0 :: "int heap" where
  "heap0 = (\<lambda>p. row2 [0, 0])
     (0 := row2 [1, 2], 1 := dg2 [-1, -1], 2 := row2 [0, 0],
      3 := row2 [10, 20], 4 := dg2 [3, 5], 5 := row2 [0, 0],
      6 := row2 [7, 9], 7 := row2 [100, 200], 8 := dg2 [1000, 2000])"

definition solver0 :: "(int, int list) linsol" where
  "solver0 = raw_object\<lparr>input_v := [dg2 [0, 0], row2 [0, 0]], output_v := [row2 [0, 0]]\<rparr>"

text \<open>The same memory with two values at which binary64 arithmetic rounds: the second
  value of the B-seed and the first value of the A-adjoint are \<open>2^54\<close>.\<close>

definition heap1 :: "int heap" where
  "heap1 = heap0(3 := row2 [10, 18014398509481984], 8 := dg2 [18014398509481984, 2000])"

text \<open>
  A memory of bit vectors for the examples: pointer 0 is B, with the two rows
  \<open>(1, 2)\<close> and \<open>(4)\<close>; 1 is A, with \<open>8\<close> and \<open>16\<close> on its diagonal; 2 is X, on the
  pattern of B.
\<close>

definition tri2 :: crs where
  "tri2 = \<lparr>size1 = 2, size2 = 2, rowind = [0, 2, 3], col = [0, 1, 1]\<rparr>"

definition bits0 :: "8 word heap" where
  "bits0 = (\<lambda>p. \<lparr>sparsity = tri2, data = [0, 0, 0]\<rparr>)
     (0 := \<lparr>sparsity = tri2, data = [1, 2, 4]\<rparr>,
      1 := \<lparr>sparsity = diag2, data = [8, 16]\<rparr>,
      2 := \<lparr>sparsity = tri2, data = [32, 64, 128]\<rparr>)"

text \<open>
  Slots for the examples.  Slot 0 is B, 1 is A, 2 is X.  Three forward directions: the
  first with both seeds zero, the second with a B-seed, the third with an A-seed.  Four
  adjoint directions: a zero seed with a sensitivity slot of its own, a seed whose slot is
  also its sensitivity slot, a seed with a sensitivity slot of its own, and a zero seed
  whose slot is also its sensitivity slot.
\<close>

definition slots0 :: "mx slots" where
  "slots0 = (\<lambda>p. Null)
     (0 := Sym ''B'' 1 2, 1 := Sym ''A'' 2 2, 2 := Sym ''X'' 1 2,
      3 := Sparse 1 2, 4 := Sparse 2 2,
      6 := Sym ''B1'' 1 2, 7 := Sparse 2 2,
      8 := Sparse 1 2, 9 := Sym ''A2'' 2 2,
      12 := Sparse 1 2, 13 := Sym ''S13'' 1 2, 14 := Sym ''S14'' 2 2,
      15 := Sym ''Xb'' 1 2, 16 := Sym ''S16'' 2 2,
      17 := Sym ''Xc'' 1 2, 18 := Sym ''S18'' 1 2, 19 := Sym ''S19'' 2 2,
      20 := Sparse 1 2, 21 := Sym ''S21'' 2 2)"

definition fseed0 :: "nat list list" where "fseed0 = [[3, 4], [6, 7], [8, 9]]"
definition fsens0 :: "nat list list" where "fsens0 = [[5], [10], [11]]"
definition aseed0 :: "nat list list" where "aseed0 = [[12], [15], [17], [20]]"
definition asens0 :: "nat list list" where "asens0 = [[13, 14], [15, 16], [18, 19], [20, 21]]"

section \<open>Properties of the construction\<close>

text \<open>
  C4, as stated, fails in two places.  With the 2-by-2 diagonal pattern and one
  right-hand side the construction succeeds and B has one row and two columns
  (\<open>DMatrix(nrhs, n, 0)\<close>), which is not the 2-by-1 matrix of the claim.  And the failure
  for the 1-by-2 pattern is the same value whatever the rank oracle answers: it carries
  the dimensions of the pattern and no rank at all.
\<close>

theorem construction_counterexample:
  "fst (LinearSolverInternal (\<lambda>sp. 2) no_dm (Some diag2) 1 raw_object) = None
   \<and> input_v (snd (LinearSolverInternal (\<lambda>sp. 2) no_dm (Some diag2) 1 raw_object)) ! LINSOL_B
       = DMatrix_dense 1 2 0
   \<and> size1 (sparsity (input_v (snd (LinearSolverInternal (\<lambda>sp. 2) no_dm (Some diag2) 1 raw_object))
        ! LINSOL_B)) \<noteq> 2
   \<and> input_v (snd (LinearSolverInternal (\<lambda>sp. 2) no_dm (Some diag2) 1 raw_object)) ! LINSOL_B
       \<noteq> DMatrix_dense 2 1 0
   \<and> fst (LinearSolverInternal (\<lambda>sp. 0) no_dm (Some row12) 1 raw_object) = Some (NotSquare 1 2)
   \<and> fst (LinearSolverInternal (\<lambda>sp. 1) no_dm (Some row12) 1 raw_object) = Some (NotSquare 1 2)"
  by (simp add: LinearSolverInternal_def isSingular_def diag2_def row12_def no_dm_def
      raw_object_def resize_def LINSOL_A_def LINSOL_B_def LINSOL_NUM_IN_def LINSOL_X_def
      LINSOL_NUM_OUT_def DMatrix_dense_def DMatrix_sp_def dense_sparsity_def Let_def)

text \<open>
  C4, amended.  A pattern that is not square fails with its dimensions; a square pattern
  whose structural rank is not its dimension fails with that rank and the dimension; both
  failures leave the object untouched, so no buffer has been allocated.  Otherwise the
  construction succeeds with exactly two inputs and one output: A is zero over the
  pattern, B is the dense zero matrix with \<open>nrhs\<close> rows and \<open>n\<close> columns, and X is a copy
  of B.
\<close>

theorem construction:
  "(size1 sp \<noteq> size2 sp \<longrightarrow>
      LinearSolverInternal sprank dm (Some sp) nrhs obj
        = (Some (NotSquare (size1 sp) (size2 sp)), obj))
   \<and> (size1 sp = size2 sp \<and> sprank sp \<noteq> size1 sp \<longrightarrow>
      LinearSolverInternal sprank dm (Some sp) nrhs obj
        = (Some (StructurallySingular (sprank sp) (size1 sp)), obj))
   \<and> (size1 sp = size2 sp \<and> sprank sp = size1 sp \<longrightarrow>
      fst (LinearSolverInternal sprank dm (Some sp) nrhs obj) = None
      \<and> input_v (snd (LinearSolverInternal sprank dm (Some sp) nrhs obj))
          = [\<lparr>sparsity = sp, data = replicate (nnz sp) 0\<rparr>,
             \<lparr>sparsity = dense_sparsity nrhs (size1 sp), data = replicate (nrhs * size1 sp) 0\<rparr>]
      \<and> output_v (snd (LinearSolverInternal sprank dm (Some sp) nrhs obj))
          = [\<lparr>sparsity = dense_sparsity nrhs (size1 sp), data = replicate (nrhs * size1 sp) 0\<rparr>])"
proof -
  have two: "(resize 2 v)[0 := a, Suc 0 := b] = [a, b]" for v :: "'a matrix list" and a b
    by (cases v; cases "tl v") (auto simp: resize_def numeral_2_eq_2)
  have one: "(resize (Suc 0) v)[0 := a] = [a]" for v :: "'a matrix list" and a
    by (cases v) (auto simp: resize_def)
  show ?thesis
    by (auto simp: LinearSolverInternal_def isSingular_def Let_def two one
        LINSOL_A_def LINSOL_B_def LINSOL_NUM_IN_def LINSOL_X_def LINSOL_NUM_OUT_def
        DMatrix_dense_def DMatrix_sp_def split: prod.splits)
qed

theorem construction_witness:
  "LinearSolverInternal (\<lambda>sp. 1) no_dm (Some row12) 3 raw_object
     = (Some (NotSquare 1 2), raw_object)
   \<and> LinearSolverInternal (\<lambda>sp. 1) no_dm (Some corner2) 3 raw_object
     = (Some (StructurallySingular 1 2), raw_object)
   \<and> fst (LinearSolverInternal (\<lambda>sp. 2) no_dm (Some diag2) 3 raw_object) = None
   \<and> input_v (snd (LinearSolverInternal (\<lambda>sp. 2) no_dm (Some diag2) 3 raw_object))
       = [\<lparr>sparsity = diag2, data = [0, 0]\<rparr>,
          \<lparr>sparsity = dense_sparsity 3 2, data = [0, 0, 0, 0, 0, 0]\<rparr>]
   \<and> output_v (snd (LinearSolverInternal (\<lambda>sp. 2) no_dm (Some diag2) 3 raw_object))
       = [\<lparr>sparsity = dense_sparsity 3 2, data = [0, 0, 0, 0, 0, 0]\<rparr>]"
  using construction [of row12 "\<lambda>sp. 1" no_dm 3 raw_object]
    construction [of corner2 "\<lambda>sp. 1" no_dm 3 raw_object]
    construction [of diag2 "\<lambda>sp. 2" no_dm 3 raw_object]
  by (simp add: row12_def corner2_def diag2_def nnz_def numeral_eq_Suc)

section \<open>Non-batched evaluation\<close>

text \<open>
  C8.  In \<open>evaluate\<close>, when \<open>prepare()\<close> leaves \<open>prepared\<close> unset, the evaluation ends with
  the exception "Preparation failed": the only backend call made is the one
  \<open>prepare()\<close>, no solve is recorded, and the output buffer is the one from before the
  call.
\<close>

theorem evaluate_preparation_failed:
  assumes "\<not> snd (prepare_impl be (input_v s ! LINSOL_A) (factorization s))"
  shows "fst (evaluate be 0 0 s) = Some PreparationFailed
       \<and> calls (snd (evaluate be 0 0 s)) = calls s @ [Prepare]
       \<and> output_v (snd (evaluate be 0 0 s)) = output_v s"
  using assms by (auto simp: evaluate_def prepare_def Let_def split: prod.splits)

theorem evaluate_preparation_failed_witness:
  "\<not> snd (prepare_impl neg_backend
            (input_v (raw_object\<lparr>input_v := [DMatrix_dense 1 1 0, DMatrix_dense 1 1 5]\<rparr>) ! LINSOL_A)
            (factorization (raw_object\<lparr>input_v := [DMatrix_dense 1 1 0, DMatrix_dense 1 1 5]\<rparr>)))
   \<and> fst (evaluate neg_backend 0 0 (raw_object\<lparr>input_v := [DMatrix_dense 1 1 0, DMatrix_dense 1 1 5]\<rparr>))
       = Some PreparationFailed
   \<and> calls (snd (evaluate neg_backend 0 0 (raw_object\<lparr>input_v := [DMatrix_dense 1 1 0, DMatrix_dense 1 1 5]\<rparr>)))
       = [Prepare]"
  using evaluate_preparation_failed
    [of neg_backend "raw_object\<lparr>input_v := [DMatrix_dense 1 1 0, DMatrix_dense 1 1 5]\<rparr>"]
  by (simp add: neg_backend_def raw_object_def DMatrix_dense_def LINSOL_A_def)


section \<open>Batched numeric evaluation: the backend calls\<close>

lemma sparsity_set_data: "sparsity (set_data h p xs a) = sparsity (h a)"
  by (simp add: set_data_def)

lemma sparsity_mul_acc: "sparsity (mul_acc ar t z) = sparsity z"
  by (simp add: mul_acc_def)

lemma fwd_dir_solver:
  "fst (fwd_dir ar be output fwdSeed fwdSens tr (s, h) d)
     = s\<lparr>calls := calls s @ [Solve (factorization s) (size1 (sparsity (h (output ! 0)))) tr]\<rparr>"
  by (simp add: fwd_dir_def solve_ptr_def Let_def sparsity_set_data sparsity_mul_acc
      mul_no_alloc_nn_def mul_no_alloc_nt_def)

lemma fwd_dir_sparsity:
  "sparsity (snd (fwd_dir ar be output fwdSeed fwdSens tr (s, h) d) a) = sparsity (h a)"
  by (simp add: fwd_dir_def solve_ptr_def Let_def sparsity_set_data sparsity_mul_acc
      mul_no_alloc_nn_def mul_no_alloc_nt_def)

lemma adj_dir_solver:
  "fst (adj_dir ar be output adjSeed adjSens tr (s, h) d)
     = s\<lparr>calls := calls s @ [Solve (factorization s) (size1 (sparsity (h (output ! 0)))) (\<not> tr)]\<rparr>"
  by (simp add: adj_dir_def solve_ptr_def Let_def sparsity_set_data sparsity_mul_acc
      mul_no_alloc_tn_def)

lemma adj_dir_sparsity:
  "sparsity (snd (adj_dir ar be output adjSeed adjSens tr (s, h) d) a) = sparsity (h a)"
  by (simp add: adj_dir_def solve_ptr_def Let_def sparsity_set_data sparsity_mul_acc
      mul_no_alloc_tn_def)

lemma fwd_loop_solver:
  "fst (foldl (fwd_dir ar be output fwdSeed fwdSens tr) (s, h) [0..<n])
     = s\<lparr>calls := calls s @ replicate n (Solve (factorization s) (size1 (sparsity (h (output ! 0)))) tr)\<rparr>
   \<and> (\<forall>a. sparsity (snd (foldl (fwd_dir ar be output fwdSeed fwdSens tr) (s, h) [0..<n]) a) = sparsity (h a))"
proof (induction n)
  case 0
  show ?case by simp
next
  case (Suc n)
  obtain s' h' where st: "foldl (fwd_dir ar be output fwdSeed fwdSens tr) (s, h) [0..<n] = (s', h')"
    by (cases "foldl (fwd_dir ar be output fwdSeed fwdSens tr) (s, h) [0..<n]")
  with Suc show ?case
    by (simp add: fwd_dir_solver fwd_dir_sparsity replicate_append_same)
qed

lemma adj_loop_solver:
  "fst (foldl (adj_dir ar be output adjSeed adjSens tr) (s, h) [0..<n])
     = s\<lparr>calls := calls s @ replicate n (Solve (factorization s) (size1 (sparsity (h (output ! 0)))) (\<not> tr))\<rparr>
   \<and> (\<forall>a. sparsity (snd (foldl (adj_dir ar be output adjSeed adjSens tr) (s, h) [0..<n]) a) = sparsity (h a))"
proof (induction n)
  case 0
  show ?case by simp
next
  case (Suc n)
  obtain s' h' where st: "foldl (adj_dir ar be output adjSeed adjSens tr) (s, h) [0..<n] = (s', h')"
    by (cases "foldl (adj_dir ar be output adjSeed adjSens tr) (s, h) [0..<n]")
  with Suc show ?case
    by (simp add: adj_dir_solver adj_dir_sparsity replicate_append_same)
qed

lemma dgen_primal_solver:
  "fst (dgen_primal be input output tr (s, h))
     = (prepare be (setInput (h (input ! 1)) LINSOL_A s))
         \<lparr>calls := calls s @ [Prepare,
            Solve (factorization (prepare be (setInput (h (input ! 1)) LINSOL_A s)))
              (size1 (sparsity (h (output ! 0)))) tr]\<rparr>"
  by (simp add: dgen_primal_def solve_ptr_def Let_def sparsity_set_data prepare_def setInput_def
      split: prod.splits)

lemma dgen_primal_sparsity:
  "sparsity (snd (dgen_primal be input output tr (s, h)) a) = sparsity (h a)"
  by (simp add: dgen_primal_def solve_ptr_def Let_def sparsity_set_data split: prod.splits)

text \<open>
  C3.  Whatever the numbers of forward and adjoint directions, the backend calls made by
  one \<open>evaluateDGen\<close> are: one \<open>prepare()\<close>, then the primal solve, one solve for every
  forward direction and one (with the opposite transpose flag) for every adjoint
  direction; every one of these solves is answered from the factorization which that
  one \<open>prepare()\<close> produced.
\<close>

theorem single_preparation:
  "calls (fst (evaluateDGen ar be input output fwdSeed fwdSens adjSeed adjSens tr (s, h)))
     = calls s
       @ [Prepare]
       @ [Solve (factorization (prepare be (setInput (h (input ! 1)) LINSOL_A s)))
            (size1 (sparsity (h (output ! 0)))) tr]
       @ replicate (length fwdSens)
           (Solve (factorization (prepare be (setInput (h (input ! 1)) LINSOL_A s)))
              (size1 (sparsity (h (output ! 0)))) tr)
       @ replicate (length adjSeed)
           (Solve (factorization (prepare be (setInput (h (input ! 1)) LINSOL_A s)))
              (size1 (sparsity (h (output ! 0)))) (\<not> tr))"
proof -
  obtain s1 h1 where p: "dgen_primal be input output tr (s, h) = (s1, h1)"
    by (cases "dgen_primal be input output tr (s, h)")
  obtain s2 h2 where f: "dgen_forward ar be output fwdSeed fwdSens tr (s1, h1) = (s2, h2)"
    by (cases "dgen_forward ar be output fwdSeed fwdSens tr (s1, h1)")
  have s1: "s1 = (prepare be (setInput (h (input ! 1)) LINSOL_A s))
         \<lparr>calls := calls s @ [Prepare,
            Solve (factorization (prepare be (setInput (h (input ! 1)) LINSOL_A s)))
              (size1 (sparsity (h (output ! 0)))) tr]\<rparr>"
    using dgen_primal_solver [of be "input" "output" tr s h] p by simp
  have h1: "sparsity (h1 a) = sparsity (h a)" for a
    using dgen_primal_sparsity [of be "input" "output" tr s h a] p by simp
  have s2: "s2 = s1\<lparr>calls := calls s1 @ replicate (length fwdSens)
        (Solve (factorization s1) (size1 (sparsity (h1 (output ! 0)))) tr)\<rparr>"
    and h2: "sparsity (h2 a) = sparsity (h1 a)" for a
    using fwd_loop_solver [of ar be "output" fwdSeed fwdSens tr s1 h1 "length fwdSens"] f
    by (simp_all add: dgen_forward_def)
  have e: "evaluateDGen ar be input output fwdSeed fwdSens adjSeed adjSens tr (s, h)
      = dgen_adjoint ar be output adjSeed adjSens tr (s2, h2)"
    by (simp add: evaluateDGen_def p f)
  have "fst (dgen_adjoint ar be output adjSeed adjSens tr (s2, h2))
      = s2\<lparr>calls := calls s2 @ replicate (length adjSeed)
          (Solve (factorization s2) (size1 (sparsity (h2 (output ! 0)))) (\<not> tr))\<rparr>"
    using adj_loop_solver [of ar be "output" adjSeed adjSens tr s2 h2 "length adjSeed"]
    by (simp add: dgen_adjoint_def)
  then have "calls (fst (evaluateDGen ar be input output fwdSeed fwdSens adjSeed adjSens tr (s, h)))
      = calls s2 @ replicate (length adjSeed)
          (Solve (factorization s2) (size1 (sparsity (h (output ! 0)))) (\<not> tr))"
    by (simp add: e h2 h1)
  also have "calls s2 = calls s1 @ replicate (length fwdSens)
        (Solve (factorization s1) (size1 (sparsity (h (output ! 0)))) tr)"
    by (simp add: s2 h1)
  also have "factorization s2 = factorization s1"
    by (simp add: s2)
  also have "calls s1 = calls s @ [Prepare,
            Solve (factorization (prepare be (setInput (h (input ! 1)) LINSOL_A s)))
              (size1 (sparsity (h (output ! 0)))) tr]"
    by (simp add: s1)
  also have "factorization s1 = factorization (prepare be (setInput (h (input ! 1)) LINSOL_A s))"
    by (simp add: s1)
  finally show ?thesis
    by simp
qed



section \<open>Batched numeric evaluation: forward sensitivities\<close>

lemma std_copy_same_length: "length src = length dst \<Longrightarrow> std_copy src dst = src"
  by (simp add: std_copy_def)

lemma fwd_dir_frame:
  "a \<noteq> fwdSens ! d ! 0 \<Longrightarrow> snd (fwd_dir ar be output fwdSeed fwdSens tr (s, h) d) a = h a"
  by (simp add: fwd_dir_def solve_ptr_def Let_def set_data_def)

lemma neg_accumulate:
  assumes "sum_symmetric ar"
  shows "fneg ar (accumulate ar z ps) = foldl (\<lambda>r (x, a). fsub ar r (fmul ar x a)) (fneg ar z) ps"
proof (induction ps arbitrary: z)
  case Nil
  show ?case by (simp add: accumulate_def)
next
  case (Cons p ps)
  obtain x a where p: "p = (x, a)" by (cases p)
  have "fneg ar (fadd ar z (fmul ar x a)) = fsub ar (fneg ar z) (fmul ar x a)"
    using assms by (simp add: sum_symmetric_def)
  with Cons [of "fadd ar z (fmul ar x a)"] show ?case
    by (simp add: accumulate_def p)
qed

lemma negated_sum_residual:
  assumes "sum_symmetric ar"
  shows "negated_sum ar tr B_hat X A_hat = residual ar tr B_hat X A_hat"
proof -
  have "fneg ar (fneg ar x) = x" for x
    using assms by (simp add: sum_symmetric_def)
  then show ?thesis
    by (simp add: negated_sum_def residual_def neg_accumulate [OF assms])
qed

lemma negate_mul_acc_negate:
  "negate ar (data (mul_acc ar t (z\<lparr>data := negate ar b\<rparr>)))
     = map (\<lambda>k. fneg ar (accumulate ar (fneg ar (b ! k)) (terms_at t (sparsity z) k))) [0..<length b]"
  by (simp add: negate_def mul_acc_def)

lemma fwd_dir_result:
  assumes "fwdSens ! d ! 0 \<noteq> output ! 0" "fwdSens ! d ! 0 \<noteq> fwdSeed ! d ! 1"
    and "same_shape (h (fwdSeed ! d ! 0)) (h (fwdSens ! d ! 0))"
  shows "data (snd (fwd_dir ar be output fwdSeed fwdSens tr (s, h) d) (fwdSens ! d ! 0))
       = solve_impl be (factorization s)
           (negated_sum ar tr (h (fwdSeed ! d ! 0)) (h (output ! 0)) (h (fwdSeed ! d ! 1)))
           (size1 (sparsity (h (output ! 0)))) tr"
proof -
  let ?P = "fwdSens ! d ! 0"
  let ?b = "data (h (fwdSeed ! d ! 0))"
  let ?t = "if tr then terms_nt (h (output ! 0)) (h (fwdSeed ! d ! 1))
            else terms_nn (h (output ! 0)) (h (fwdSeed ! d ! 1))"
  have sp: "sparsity (h ?P) = sparsity (h (fwdSeed ! d ! 0))"
    and c: "std_copy ?b (data (h ?P)) = ?b"
    using assms(3) by (simp_all add: same_shape_def std_copy_same_length)
  have "data (snd (fwd_dir ar be output fwdSeed fwdSens tr (s, h) d) ?P)
      = solve_impl be (factorization s)
          (negate ar (data (mul_acc ar ?t ((h ?P)\<lparr>data := negate ar ?b\<rparr>))))
          (size1 (sparsity (h (output ! 0)))) tr"
    using assms(1,2)
    by (simp add: fwd_dir_def solve_ptr_def Let_def set_data_def c
        mul_no_alloc_nn_def mul_no_alloc_nt_def)
  also have "negate ar (data (mul_acc ar ?t ((h ?P)\<lparr>data := negate ar ?b\<rparr>)))
      = negated_sum ar tr (h (fwdSeed ! d ! 0)) (h (output ! 0)) (h (fwdSeed ! d ! 1))"
    unfolding negate_mul_acc_negate negated_sum_def fwd_terms_def sp
    by simp
  finally show ?thesis .
qed

lemma adj_dir_frame:
  "a \<notin> {adjSeed ! d ! 0, adjSens ! d ! 0, adjSens ! d ! 1}
   \<Longrightarrow> snd (adj_dir ar be output adjSeed adjSens tr (s, h) d) a = h a"
  by (simp add: adj_dir_def solve_ptr_def Let_def set_data_def)

lemma adj_loop_frame:
  "\<forall>e<n. a \<notin> {adjSeed ! e ! 0, adjSens ! e ! 0, adjSens ! e ! 1}
   \<Longrightarrow> snd (foldl (adj_dir ar be output adjSeed adjSens tr) (s, h) [0..<n]) a = h a"
proof (induction n)
  case 0
  show ?case by simp
next
  case (Suc n)
  obtain s' h' where st: "foldl (adj_dir ar be output adjSeed adjSens tr) (s, h) [0..<n] = (s', h')"
    by (cases "foldl (adj_dir ar be output adjSeed adjSens tr) (s, h) [0..<n]")
  from Suc.prems have "a \<notin> {adjSeed ! n ! 0, adjSens ! n ! 0, adjSens ! n ! 1}"
    by simp
  then have "snd (adj_dir ar be output adjSeed adjSens tr (s', h') n) a = h' a"
    by (rule adj_dir_frame)
  moreover have "h' a = h a"
    using Suc st by simp
  ultimately show ?case
    by (simp add: st)
qed

lemma fwd_loop_result:
  assumes ok: "fwd_ok output fwdSeed fwdSens"
    and shape: "\<forall>d<length fwdSens. same_shape (h (fwdSeed ! d ! 0)) (h (fwdSens ! d ! 0))"
    and n: "n \<le> length fwdSens"
  shows "(\<forall>a. (\<forall>e<n. a \<noteq> fwdSens ! e ! 0)
            \<longrightarrow> snd (foldl (fwd_dir ar be output fwdSeed fwdSens tr) (s, h) [0..<n]) a = h a)
       \<and> (\<forall>d<n. data (snd (foldl (fwd_dir ar be output fwdSeed fwdSens tr) (s, h) [0..<n])
                         (fwdSens ! d ! 0))
             = solve_impl be (factorization s)
                 (negated_sum ar tr (h (fwdSeed ! d ! 0)) (h (output ! 0)) (h (fwdSeed ! d ! 1)))
                 (size1 (sparsity (h (output ! 0)))) tr)"
  using n
proof (induction n)
  case 0
  show ?case by simp
next
  case (Suc n)
  let ?F = "fwd_dir ar be output fwdSeed fwdSens tr"
  obtain s' h' where st: "foldl ?F (s, h) [0..<n] = (s', h')"
    by (cases "foldl ?F (s, h) [0..<n]")
  from Suc.prems have n: "n < length fwdSens" by simp
  have fs: "factorization s' = factorization s"
    using fwd_loop_solver [of ar be "output" fwdSeed fwdSens tr s h n] st by simp
  have frame: "h' a = h a" if "\<forall>e<n. a \<noteq> fwdSens ! e ! 0" for a
    using Suc.IH n st that by simp
  have old: "data (h' (fwdSens ! d ! 0))
             = solve_impl be (factorization s)
                 (negated_sum ar tr (h (fwdSeed ! d ! 0)) (h (output ! 0)) (h (fwdSeed ! d ! 1)))
                 (size1 (sparsity (h (output ! 0)))) tr" if "d < n" for d
    using Suc.IH n st that by simp
  have others: "fwdSeed ! n ! 0 \<noteq> fwdSens ! e ! 0 \<and> fwdSeed ! n ! 1 \<noteq> fwdSens ! e ! 0
      \<and> fwdSens ! n ! 0 \<noteq> fwdSens ! e ! 0" if "e < n" for e
  proof -
    have "fwdSens ! e ! 0 \<notin> {fwdSeed ! n ! 0, fwdSeed ! n ! 1, fwdSens ! n ! 0}"
      using ok n that by (simp add: fwd_ok_def)
    then show ?thesis by auto
  qed
  have x: "output ! 0 \<notin> {fwdSeed ! n ! 0, fwdSeed ! n ! 1, fwdSens ! n ! 0}"
    and a1: "fwdSens ! n ! 0 \<noteq> fwdSeed ! n ! 1"
    using ok n by (simp_all add: fwd_ok_def)
  have "\<forall>e<length fwdSens. output ! 0 \<noteq> fwdSens ! e ! 0"
    using ok by (auto simp: fwd_ok_def)
  then have xs: "output ! 0 \<noteq> fwdSens ! e ! 0" if "e < n" for e
    using n that by simp
  have h0: "h' (fwdSeed ! n ! 0) = h (fwdSeed ! n ! 0)"
    and h1: "h' (fwdSeed ! n ! Suc 0) = h (fwdSeed ! n ! Suc 0)"
    and hP: "h' (fwdSens ! n ! 0) = h (fwdSens ! n ! 0)"
    using others by (simp_all add: frame)
  have hX: "h' (output ! 0) = h (output ! 0)"
    using xs by (simp add: frame)
  have shape': "same_shape (h' (fwdSeed ! n ! 0)) (h' (fwdSens ! n ! 0))"
    using shape n by (simp add: h0 hP)
  have new: "data (snd (?F (s', h') n) (fwdSens ! n ! 0))
       = solve_impl be (factorization s)
           (negated_sum ar tr (h (fwdSeed ! n ! 0)) (h (output ! 0)) (h (fwdSeed ! n ! 1)))
           (size1 (sparsity (h (output ! 0)))) tr"
    using fwd_dir_result [of fwdSens n "output" fwdSeed h' ar be tr s'] x a1 shape'
    by (simp add: fs h0 h1 hX)
  have step: "foldl ?F (s, h) [0..<Suc n] = ?F (s', h') n"
    by (simp add: st)
  show ?case
  proof (intro conjI allI impI)
    fix a
    assume a: "\<forall>e<Suc n. a \<noteq> fwdSens ! e ! 0"
    then have "snd (?F (s', h') n) a = h' a"
      by (intro fwd_dir_frame) simp
    with a show "snd (foldl ?F (s, h) [0..<Suc n]) a = h a"
      by (simp add: st frame)
  next
    fix d
    assume d: "d < Suc n"
    show "data (snd (foldl ?F (s, h) [0..<Suc n]) (fwdSens ! d ! 0))
             = solve_impl be (factorization s)
                 (negated_sum ar tr (h (fwdSeed ! d ! 0)) (h (output ! 0)) (h (fwdSeed ! d ! 1)))
                 (size1 (sparsity (h (output ! 0)))) tr"
    proof (cases "d = n")
      case True
      then show ?thesis
        by (simp only: step new)
    next
      case False
      with d have dn: "d < n" by simp
      then have "fwdSens ! d ! 0 \<noteq> fwdSens ! n ! 0"
        using others [of d] by simp
      then have "snd (?F (s', h') n) (fwdSens ! d ! 0) = h' (fwdSens ! d ! 0)"
        by (rule fwd_dir_frame)
      then show ?thesis
        by (simp only: step old [OF dn])
    qed
  qed
qed

lemma dgen_primal_frame:
  "a \<noteq> output ! 0 \<Longrightarrow> snd (dgen_primal be input output tr (s, h)) a = h a"
  by (simp add: dgen_primal_def solve_ptr_def Let_def set_data_def split: prod.splits)

lemma dgen_primal_X:
  "snd (dgen_primal be input output tr (s, h)) (output ! 0) = primal_solution be input output tr s h"
  by (simp add: dgen_primal_def solve_ptr_def Let_def set_data_def primal_solution_def
      primal_factorization_def prepare_def setInput_def split: prod.splits)

lemma dgen_primal_factorization:
  "factorization (fst (dgen_primal be input output tr (s, h))) = primal_factorization be input s h"
  by (simp add: dgen_primal_solver primal_factorization_def)


text \<open>
  C1.  Let the caller keep the buffer discipline \<open>fwd_ok\<close>, let every B-seed have the
  shape of its sensitivity buffer, and let no adjoint direction use a forward sensitivity
  buffer.  Then after \<open>evaluateDGen\<close> the sensitivity buffer of every forward direction
  \<open>d\<close> holds what the backend's in-place solve, with the transpose flag of the primal
  solve and the factorization of the one \<open>prepare()\<close>, makes of this right-hand side:
  the B-seed negated, the terms of \<open>X A_hat\<close> (for \<open>tr\<close>: of \<open>X A_hat\<^sup>T\<close>) added to it,
  and the sum negated again, where \<open>X\<close> is the primal solution (\<open>negated_sum\<close>).  So the
  sign is flipped by the two negations around the product and the solve is the one solve of
  the backend; this holds whatever the arithmetic of the numbers is.  When that
  arithmetic is symmetric in sign, the right-hand side is the residual
  \<open>B_hat - X A_hat\<close> (for \<open>tr\<close>: \<open>B_hat - X A_hat\<^sup>T\<close>), the terms of the product subtracted
  from the B-seed one after the other.
\<close>

theorem forward_sensitivities:
  assumes ok: "fwd_ok output fwdSeed fwdSens"
    and shape: "\<forall>d<length fwdSens. same_shape (h (fwdSeed ! d ! 0)) (h (fwdSens ! d ! 0))"
    and adj: "\<forall>d<length fwdSens. \<forall>e<length adjSeed.
                fwdSens ! d ! 0 \<notin> {adjSeed ! e ! 0, adjSens ! e ! 0, adjSens ! e ! 1}"
    and d: "d < length fwdSens"
  shows "data (snd (evaluateDGen ar be input output fwdSeed fwdSens adjSeed adjSens tr (s, h))
                 (fwdSens ! d ! 0))
           = solve_impl be (primal_factorization be input s h)
               (negated_sum ar tr (h (fwdSeed ! d ! 0)) (primal_solution be input output tr s h)
                  (h (fwdSeed ! d ! 1)))
               (size1 (sparsity (h (output ! 0)))) tr
       \<and> (sum_symmetric ar \<longrightarrow>
            data (snd (evaluateDGen ar be input output fwdSeed fwdSens adjSeed adjSens tr (s, h))
                   (fwdSens ! d ! 0))
              = solve_impl be (primal_factorization be input s h)
                  (residual ar tr (h (fwdSeed ! d ! 0)) (primal_solution be input output tr s h)
                     (h (fwdSeed ! d ! 1)))
                  (size1 (sparsity (h (output ! 0)))) tr)"
proof -
  obtain s1 h1 where p: "dgen_primal be input output tr (s, h) = (s1, h1)"
    by (cases "dgen_primal be input output tr (s, h)")
  obtain s2 h2 where f: "dgen_forward ar be output fwdSeed fwdSens tr (s1, h1) = (s2, h2)"
    by (cases "dgen_forward ar be output fwdSeed fwdSens tr (s1, h1)")
  have fs: "factorization s1 = primal_factorization be input s h"
    using dgen_primal_factorization [of be "input" "output" tr s h] p by simp
  have X: "h1 (output ! 0) = primal_solution be input output tr s h"
    using dgen_primal_X [of be "input" "output" tr s h] p by simp
  have frame: "h1 a = h a" if "a \<noteq> output ! 0" for a
    using dgen_primal_frame [of a "output" be "input" tr s h] p that by simp
  have nx: "\<forall>e<length fwdSens. fwdSeed ! e ! 0 \<noteq> output ! 0 \<and> fwdSeed ! e ! Suc 0 \<noteq> output ! 0
      \<and> fwdSens ! e ! 0 \<noteq> output ! 0"
    using ok by (auto simp: fwd_ok_def)
  have shape1: "\<forall>e<length fwdSens. same_shape (h1 (fwdSeed ! e ! 0)) (h1 (fwdSens ! e ! 0))"
    using shape nx by (simp add: frame)
  have "data (h2 (fwdSens ! d ! 0))
      = solve_impl be (factorization s1)
          (negated_sum ar tr (h1 (fwdSeed ! d ! 0)) (h1 (output ! 0)) (h1 (fwdSeed ! d ! 1)))
          (size1 (sparsity (h1 (output ! 0)))) tr"
    using fwd_loop_result [OF ok shape1 order_refl, of ar be tr s1] f d
    by (simp add: dgen_forward_def)
  also have "h1 (fwdSeed ! d ! 0) = h (fwdSeed ! d ! 0)"
    using nx d by (simp add: frame)
  also have "h1 (fwdSeed ! d ! 1) = h (fwdSeed ! d ! 1)"
    using nx d by (simp add: frame)
  also have "sparsity (h1 (output ! 0)) = sparsity (h (output ! 0))"
    by (simp add: X primal_solution_def)
  finally have fwd: "data (h2 (fwdSens ! d ! 0))
      = solve_impl be (primal_factorization be input s h)
           (negated_sum ar tr (h (fwdSeed ! d ! 0)) (primal_solution be input output tr s h)
              (h (fwdSeed ! d ! 1)))
           (size1 (sparsity (h (output ! 0)))) tr"
    by (simp add: fs X)
  have "snd (dgen_adjoint ar be output adjSeed adjSens tr (s2, h2)) (fwdSens ! d ! 0)
      = h2 (fwdSens ! d ! 0)"
    unfolding dgen_adjoint_def using adj d by (intro adj_loop_frame) simp
  then have "data (snd (evaluateDGen ar be input output fwdSeed fwdSens adjSeed adjSens tr (s, h))
                 (fwdSens ! d ! 0))
           = solve_impl be (primal_factorization be input s h)
               (negated_sum ar tr (h (fwdSeed ! d ! 0)) (primal_solution be input output tr s h)
                  (h (fwdSeed ! d ! 1)))
               (size1 (sparsity (h (output ! 0)))) tr"
    by (simp add: evaluateDGen_def p f fwd)
  then show ?thesis
    by (simp add: negated_sum_residual)
qed

lemma round53_minus: "round53 (- v) = - round53 v"
  by (simp add: round53_def Let_def)

lemma sum_symmetric_int53: "sum_symmetric int53"
proof -
  have 1: "- (- x) = x" for x :: int
    by simp
  have 4: "- round53 (x + y) = round53 (- x + - y)" for x y
  proof -
    have "- x + - y = - (x + y)" by simp
    then show ?thesis by (simp only: round53_minus)
  qed
  have 5: "round53 (x - y) = round53 (x + - y)" for x y
    by simp
  show ?thesis
    unfolding sum_symmetric_def int53_def
    by (intro conjI allI) (simp_all only: arith.simps 1 4 5)
qed

text \<open>An instance in the rounded arithmetic of the examples, with the B-seed
  \<open>(10, 2^54)\<close>, the primal solution \<open>(-1, -2)\<close> and the A-seed \<open>(3, 5)\<close> on the
  diagonal: the second entry of the right-hand side is \<open>2^54 + 10\<close> rounded, which is
  \<open>2^54 + 8\<close>.\<close>

theorem forward_sensitivities_witness:
  "fwd_ok [2] [[3, 4]] [[5]]
   \<and> same_shape (heap1 3) (heap1 5)
   \<and> sum_symmetric int53
   \<and> data (snd (evaluateDGen int53 neg_backend [0, 1] [2] [[3, 4]] [[5]] [[6]] [[7, 8]] False
                  (solver0, heap1)) 5)
       = [-13, -18014398509481992]"
proof -
  have ok: "fwd_ok [2] [[3, 4]] [[5]]"
    by (simp add: fwd_ok_def)
  have shape: "\<forall>d<length [[5::nat]]. same_shape (heap1 ([[3, 4]] ! d ! 0)) (heap1 ([[5]] ! d ! 0))"
    by (simp add: same_shape_def heap1_def heap0_def row2_def)
  have adj: "\<forall>d<length [[5::nat]]. \<forall>e<length [[6::nat]].
         [[5::nat]] ! d ! 0 \<notin> {[[6]] ! e ! 0, [[7, 8]] ! e ! 0, [[7, 8]] ! e ! 1}"
    by simp
  have d0: "0 < length [[5::nat]]"
    by simp
  have val: "solve_impl neg_backend (primal_factorization neg_backend [0, 1] solver0 heap1)
           (residual int53 False (heap1 ([[3, 4]] ! 0 ! 0))
              (primal_solution neg_backend [0, 1] [2] False solver0 heap1)
              (heap1 ([[3, 4]] ! 0 ! 1)))
           (size1 (sparsity (heap1 ([2] ! 0)))) False = [-13, -18014398509481992]"
    by code_simp
  show ?thesis
    using forward_sensitivities [OF ok shape adj d0, of int53 neg_backend "[0, 1]" False solver0,
        THEN conjunct2, rule_format, OF sum_symmetric_int53]
      ok shape val sum_symmetric_int53
    by simp
qed

text \<open>In exact arithmetic the residual is the B-seed minus the sum of the terms.\<close>

lemma residual_exact:
  "residual exact tr B_hat X A_hat
     = map (\<lambda>k. data B_hat ! k
                  - sum_list (map (\<lambda>(x, a). x * a) (fwd_terms tr X A_hat (sparsity B_hat) k)))
         [0..<length (data B_hat)]"
proof -
  have "foldl (\<lambda>r (x, a). r - x * a) b ps = b - sum_list (map (\<lambda>(x, a). x * a) ps)"
    for b :: 'a and ps
    by (induction ps arbitrary: b) (auto simp: algebra_simps)
  then show ?thesis
    by (simp add: residual_def exact_def)
qed



section \<open>Batched numeric evaluation: adjoint sensitivities\<close>

lemma entry_map:
  assumes "rowind (sparsity m) ! Suc i \<le> length xs"
  shows "entry (m\<lparr>data := map f xs\<rparr>) i j = map_option f (entry (m\<lparr>data := xs\<rparr>) i j)"
proof (cases "find (\<lambda>k. col (sparsity m) ! k = j) [rowind (sparsity m) ! i ..< rowind (sparsity m) ! Suc i]")
  case None
  then show ?thesis by (simp add: entry_def)
next
  case (Some k)
  then have "k \<in> set [rowind (sparsity m) ! i ..< rowind (sparsity m) ! Suc i]"
    by (auto simp: find_Some_iff)
  with assms have "k < length xs" by simp
  with Some show ?thesis by (simp add: entry_def)
qed

lemma pairs_Suc:
  "pairs xs ys (Suc n)
     = pairs xs ys n @ (case xs n of None \<Rightarrow> [] | Some a \<Rightarrow> (case ys n of None \<Rightarrow> [] | Some b \<Rightarrow> [(a, b)]))"
  by (simp add: pairs_def)

lemma pairs_map_snd:
  "\<forall>l<n. ys' l = map_option f (ys l) \<Longrightarrow> pairs xs ys' n = map (\<lambda>(a, b). (a, f b)) (pairs xs ys n)"
proof (induction n)
  case 0
  show ?case by (simp add: pairs_def)
next
  case (Suc n)
  then show ?case
    by (simp add: pairs_Suc split: option.splits)
qed

lemma pairs_map_fst:
  "\<forall>l<n. xs' l = map_option f (xs l) \<Longrightarrow> pairs xs' ys n = map (\<lambda>(a, b). (f a, b)) (pairs xs ys n)"
proof (induction n)
  case 0
  show ?case by (simp add: pairs_def)
next
  case (Suc n)
  then show ?case
    by (simp add: pairs_Suc split: option.splits)
qed

lemma add_negated_snd:
  assumes "product_symmetric ar"
  shows "add_negated ar v (map (\<lambda>(a, b). (a, fneg ar b)) ps) = accumulate ar v ps"
proof (induction ps arbitrary: v)
  case Nil
  show ?case by (simp add: add_negated_def accumulate_def)
next
  case (Cons p ps)
  obtain a b where p: "p = (a, b)" by (cases p)
  have "fneg ar (fmul ar a (fneg ar b)) = fmul ar a b"
    using assms by (simp add: product_symmetric_def)
  with Cons [of "fadd ar v (fmul ar a b)"] show ?case
    by (simp add: add_negated_def accumulate_def p)
qed

lemma add_negated_fst:
  assumes "product_symmetric ar"
  shows "add_negated ar v (map (\<lambda>(a, b). (fneg ar a, b)) ps) = accumulate ar v ps"
proof (induction ps arbitrary: v)
  case Nil
  show ?case by (simp add: add_negated_def accumulate_def)
next
  case (Cons p ps)
  obtain a b where p: "p = (a, b)" by (cases p)
  have "fneg ar (fmul ar (fneg ar a) b) = fmul ar a b"
    using assms by (simp add: product_symmetric_def)
  with Cons [of "fadd ar v (fmul ar a b)"] show ?case
    by (simp add: add_negated_def accumulate_def p)
qed

text \<open>The terms of a product with \<open>L\<close> negated are the terms with the factor from \<open>L\<close>
  negated.\<close>

lemma adj_terms_negated:
  assumes sym: "product_symmetric ar"
    and rows: "size1 (sparsity X) = size1 (sparsity L)"
    and fit: "\<forall>i < size1 (sparsity L). rowind (sparsity L) ! Suc i \<le> length xs"
  shows "add_negated ar v (adj_terms tr X (L\<lparr>data := negate ar xs\<rparr>) sp k)
       = accumulate ar v (adj_terms tr X (L\<lparr>data := xs\<rparr>) sp k)"
proof -
  have e: "entry (L\<lparr>data := negate ar xs\<rparr>) l j = map_option (fneg ar) (entry (L\<lparr>data := xs\<rparr>) l j)"
    if "l < size1 (sparsity L)" for l j
    unfolding negate_def using fit that by (intro entry_map) simp
  have tn: "terms_tn X (L\<lparr>data := negate ar xs\<rparr>) i j
      = map (\<lambda>(a, b). (a, fneg ar b)) (terms_tn X (L\<lparr>data := xs\<rparr>) i j)" for i j
    unfolding terms_tn_def using e rows by (intro pairs_map_snd) simp
  have nt: "terms_tn (L\<lparr>data := negate ar xs\<rparr>) X i j
      = map (\<lambda>(a, b). (fneg ar a, b)) (terms_tn (L\<lparr>data := xs\<rparr>) X i j)" for i j
    unfolding terms_tn_def using e by (simp add: pairs_map_fst)
  show ?thesis
    by (cases "row_of sp k")
      (simp_all add: adj_terms_def terms_at_def tn nt add_negated_snd [OF sym] add_negated_fst [OF sym],
        simp_all add: add_negated_def accumulate_def)
qed

lemma fwd_loop_frame:
  "\<forall>e<n. a \<noteq> fwdSens ! e ! 0
   \<Longrightarrow> snd (foldl (fwd_dir ar be output fwdSeed fwdSens tr) (s, h) [0..<n]) a = h a"
proof (induction n)
  case 0
  show ?case by simp
next
  case (Suc n)
  obtain s' h' where st: "foldl (fwd_dir ar be output fwdSeed fwdSens tr) (s, h) [0..<n] = (s', h')"
    by (cases "foldl (fwd_dir ar be output fwdSeed fwdSens tr) (s, h) [0..<n]")
  from Suc.prems have "a \<noteq> fwdSens ! n ! 0"
    by simp
  then have "snd (fwd_dir ar be output fwdSeed fwdSens tr (s', h') n) a = h' a"
    by (rule fwd_dir_frame)
  moreover have "h' a = h a"
    using Suc st by simp
  ultimately show ?case
    by (simp add: st)
qed

text \<open>What one adjoint direction leaves in its three buffers.\<close>

lemma data_mul_acc:
  "data (mul_acc ar t z)
     = map (\<lambda>k. accumulate ar (data z ! k) (terms_at t (sparsity z) k)) [0..<length (data z)]"
  by (simp add: mul_acc_def)

lemma adj_dir_A:
  assumes "adjSens ! d ! 1 \<notin> {adjSeed ! d ! 0, adjSens ! d ! 0}"
    and "output ! 0 \<noteq> adjSeed ! d ! 0"
  shows "data (snd (adj_dir ar be output adjSeed adjSens tr (s, h) d) (adjSens ! d ! 1))
       = map (\<lambda>k. accumulate ar (data (h (adjSens ! d ! 1)) ! k)
                    (adj_terms tr (h (output ! 0))
                       ((h (adjSeed ! d ! 0))\<lparr>data := solve_impl be (factorization s)
                          (negate ar (data (h (adjSeed ! d ! 0)))) (size1 (sparsity (h (output ! 0))))
                          (\<not> tr)\<rparr>)
                       (sparsity (h (adjSens ! d ! 1))) k))
           [0..<length (data (h (adjSens ! d ! 1)))]"
proof -
  let ?L = "(h (adjSeed ! d ! 0))\<lparr>data := solve_impl be (factorization s)
                    (negate ar (data (h (adjSeed ! d ! 0)))) (size1 (sparsity (h (output ! 0)))) (\<not> tr)\<rparr>"
  have "snd (adj_dir ar be output adjSeed adjSens tr (s, h) d) (adjSens ! d ! 1)
      = (if tr then mul_no_alloc_tn ar ?L (h (output ! 0)) (h (adjSens ! d ! 1))
         else mul_no_alloc_tn ar (h (output ! 0)) ?L (h (adjSens ! d ! 1)))"
    using assms
    by (simp add: adj_dir_def solve_ptr_def Let_def set_data_def)
  then show ?thesis
    by (simp add: mul_no_alloc_tn_def data_mul_acc adj_terms_def)
qed

lemma adj_dir_B_same:
  assumes "adjSens ! d ! 1 \<notin> {adjSeed ! d ! 0, adjSens ! d ! 0}"
    and "adjSeed ! d ! 0 = adjSens ! d ! 0"
  shows "data (snd (adj_dir ar be output adjSeed adjSens tr (s, h) d) (adjSens ! d ! 0))
       = negate ar (solve_impl be (factorization s)
                    (negate ar (data (h (adjSeed ! d ! 0)))) (size1 (sparsity (h (output ! 0)))) (\<not> tr))"
  using assms
  by (simp add: adj_dir_def solve_ptr_def Let_def set_data_def)

lemma adj_dir_B_other:
  assumes "adjSens ! d ! 1 \<notin> {adjSeed ! d ! 0, adjSens ! d ! 0}"
    and "adjSeed ! d ! 0 \<noteq> adjSens ! d ! 0"
  shows "data (snd (adj_dir ar be output adjSeed adjSens tr (s, h) d) (adjSens ! d ! 0))
       = minus_into ar (data (h (adjSens ! d ! 0)))
           (solve_impl be (factorization s)
              (negate ar (data (h (adjSeed ! d ! 0)))) (size1 (sparsity (h (output ! 0)))) (\<not> tr))"
    and "data (snd (adj_dir ar be output adjSeed adjSens tr (s, h) d) (adjSeed ! d ! 0))
       = fill_zero (solve_impl be (factorization s)
              (negate ar (data (h (adjSeed ! d ! 0)))) (size1 (sparsity (h (output ! 0)))) (\<not> tr))"
  using assms
  by (simp_all add: adj_dir_def solve_ptr_def Let_def set_data_def)

lemma adj_dir_done:
  assumes "adjSens ! d ! 1 \<notin> {adjSeed ! d ! 0, adjSens ! d ! 0}"
    and "output ! 0 \<noteq> adjSeed ! d ! 0"
  shows "adjoint_done ar be (factorization s) output adjSeed adjSens tr h
           (snd (adj_dir ar be output adjSeed adjSens tr (s, h) d)) d"
  unfolding adjoint_done_def Let_def
  using adj_dir_A [OF assms, of ar be tr s] adj_dir_B_same [OF assms(1), of ar be "output" tr s h]
    adj_dir_B_other [OF assms(1), of ar be "output" tr s h]
  by (simp add: adj_dir_sparsity)

lemma adjoint_done_cong:
  assumes "adjoint_done ar be f output adjSeed adjSens tr h h' d"
    and "k (adjSeed ! d ! 0) = h (adjSeed ! d ! 0)" "k (adjSens ! d ! 0) = h (adjSens ! d ! 0)"
      "k (adjSens ! d ! 1) = h (adjSens ! d ! 1)" "k (output ! 0) = h (output ! 0)"
    and "k' (adjSeed ! d ! 0) = h' (adjSeed ! d ! 0)" "k' (adjSens ! d ! 0) = h' (adjSens ! d ! 0)"
      "k' (adjSens ! d ! 1) = h' (adjSens ! d ! 1)"
  shows "adjoint_done ar be f output adjSeed adjSens tr k k' d"
  using assms unfolding adjoint_done_def Let_def by simp

lemma adj_loop_done:
  assumes ok: "adj_ok output adjSeed adjSens"
    and n: "n \<le> length adjSeed"
  shows "\<forall>d<n. adjoint_done ar be (factorization s) output adjSeed adjSens tr h
           (snd (foldl (adj_dir ar be output adjSeed adjSens tr) (s, h) [0..<n])) d"
  using n
proof (induction n)
  case 0
  show ?case by simp
next
  case (Suc n)
  let ?F = "adj_dir ar be output adjSeed adjSens tr"
  obtain s' h' where st: "foldl ?F (s, h) [0..<n] = (s', h')"
    by (cases "foldl ?F (s, h) [0..<n]")
  from Suc.prems have n: "n < length adjSeed" by simp
  have fs: "factorization s' = factorization s"
    using adj_loop_solver [of ar be "output" adjSeed adjSens tr s h n] st by simp
  have disj: "{adjSeed ! e ! 0, adjSens ! e ! 0, adjSens ! e ! 1}
              \<inter> {adjSeed ! n ! 0, adjSens ! n ! 0, adjSens ! n ! 1} = {}" if "e < n" for e
    using ok n that by (simp add: adj_ok_def)
  have x: "output ! 0 \<notin> {adjSeed ! e ! 0, adjSens ! e ! 0, adjSens ! e ! 1}"
    if "e < length adjSeed" for e
    using ok that by (simp add: adj_ok_def)
  have a1: "adjSens ! n ! 1 \<notin> {adjSeed ! n ! 0, adjSens ! n ! 0}"
    using ok n by (simp add: adj_ok_def)
  have frame: "h' a = h a" if "\<forall>e<n. a \<notin> {adjSeed ! e ! 0, adjSens ! e ! 0, adjSens ! e ! 1}" for a
    using adj_loop_frame [OF that, of ar be "output" tr s h] st by simp
  have mine: "\<forall>e<n. a \<notin> {adjSeed ! e ! 0, adjSens ! e ! 0, adjSens ! e ! 1}"
    if "a \<in> {adjSeed ! n ! 0, adjSens ! n ! 0, adjSens ! n ! 1}" for a
    using disj that by blast
  have hn: "h' (adjSeed ! n ! 0) = h (adjSeed ! n ! 0)" "h' (adjSens ! n ! 0) = h (adjSens ! n ! 0)"
    "h' (adjSens ! n ! Suc 0) = h (adjSens ! n ! Suc 0)"
    by (rule frame, rule mine, simp)+
  have "\<forall>e<n. output ! 0 \<notin> {adjSeed ! e ! 0, adjSens ! e ! 0, adjSens ! e ! 1}"
    using x n by simp
  then have hX: "h' (output ! 0) = h (output ! 0)"
    by (rule frame)
  have new: "adjoint_done ar be (factorization s') output adjSeed adjSens tr h' (snd (?F (s', h') n)) n"
    using a1 x [OF n] by (intro adj_dir_done) auto
  have step: "snd (foldl ?F (s, h) [0..<Suc n]) = snd (?F (s', h') n)"
    by (simp add: st)
  show ?case
  proof (intro allI impI)
    fix d
    assume d: "d < Suc n"
    show "adjoint_done ar be (factorization s) output adjSeed adjSens tr h
            (snd (foldl ?F (s, h) [0..<Suc n])) d"
    proof (cases "d = n")
      case True
      show ?thesis
        unfolding step True
        by (rule adjoint_done_cong [OF new [unfolded fs]]) (simp_all add: hn hX)
    next
      case False
      with d have dn: "d < n" by simp
      have old: "adjoint_done ar be (factorization s) output adjSeed adjSens tr h h' d"
        using Suc.IH n st dn by simp
      have keep: "snd (?F (s', h') n) a = h' a"
        if "a \<in> {adjSeed ! d ! 0, adjSens ! d ! 0, adjSens ! d ! 1}" for a
        using disj [OF dn] that by (intro adj_dir_frame) auto
      show ?thesis
        unfolding step
        by (rule adjoint_done_cong [OF old]) (simp_all add: keep)
    qed
  qed
qed



text \<open>
  C2, amended.  Let the caller keep the buffer discipline \<open>adj_ok\<close> and let no forward
  sensitivity buffer be X or a buffer of an adjoint direction.  For an adjoint direction
  \<open>d\<close> the code negates the seed and solves it in place with the opposite transpose flag
  (\<open>solved_seed\<close>); let \<open>lam\<close> be that result negated back to the sign of the seed
  (\<open>adjoint_lambda\<close>), so that the buffer holds \<open>-lam\<close>.

  Whatever the arithmetic, after \<open>evaluateDGen\<close> the A-adjoint has had the terms of the
  product of \<open>X\<^sup>T\<close> with the buffer (for \<open>tr\<close>: of the transposed buffer with \<open>X\<close>) added
  on its pattern, which is unchanged; when the seed buffer is the B-adjoint buffer it
  holds \<open>lam\<close>; otherwise the B-adjoint has the buffer subtracted and the seed buffer is
  zero.

  Let moreover the arithmetic be \<open>product_symmetric\<close>, the buffers of the adjoint
  directions have the shapes of what they are adjoints of (\<open>adj_fit\<close>) and the solve of
  the backend keep the length of its buffer.  Then the A-adjoint is
  \<open>A_bar += -(X\<^sup>T lam)\<close> (for \<open>tr\<close>: \<open>A_bar += -(lam\<^sup>T X)\<close>) projected onto the pattern of
  A, and when the seed buffer is not the B-adjoint buffer, the B-adjoint is
  \<open>B_bar += lam\<close> and the seed buffer is zero.
\<close>

theorem adjoint_sensitivities:
  assumes ok: "adj_ok output adjSeed adjSens"
    and fwd: "\<forall>e<length fwdSens. fwdSens ! e ! 0 \<noteq> output ! 0
                \<and> (\<forall>d<length adjSeed.
                      fwdSens ! e ! 0 \<notin> {adjSeed ! d ! 0, adjSens ! d ! 0, adjSens ! d ! 1})"
    and d: "d < length adjSeed"
  shows "data (snd (evaluateDGen ar be input output fwdSeed fwdSens adjSeed adjSens tr (s, h))
                 (adjSens ! d ! 1))
           = map (\<lambda>k. accumulate ar (data (h (adjSens ! d ! 1)) ! k)
                        (adj_terms tr (primal_solution be input output tr s h)
                           (solved_seed ar be input output tr s h (adjSeed ! d ! 0))
                           (sparsity (h (adjSens ! d ! 1))) k))
               [0..<length (data (h (adjSens ! d ! 1)))]
       \<and> sparsity (snd (evaluateDGen ar be input output fwdSeed fwdSens adjSeed adjSens tr (s, h))
                     (adjSens ! d ! 1))
           = sparsity (h (adjSens ! d ! 1))
       \<and> (adjSeed ! d ! 0 = adjSens ! d ! 0 \<longrightarrow>
            data (snd (evaluateDGen ar be input output fwdSeed fwdSens adjSeed adjSens tr (s, h))
                   (adjSens ! d ! 0))
              = data (adjoint_lambda ar be input output tr s h (adjSeed ! d ! 0)))
       \<and> (adjSeed ! d ! 0 \<noteq> adjSens ! d ! 0 \<longrightarrow>
            data (snd (evaluateDGen ar be input output fwdSeed fwdSens adjSeed adjSens tr (s, h))
                   (adjSens ! d ! 0))
              = minus_into ar (data (h (adjSens ! d ! 0)))
                  (data (solved_seed ar be input output tr s h (adjSeed ! d ! 0)))
            \<and> data (snd (evaluateDGen ar be input output fwdSeed fwdSens adjSeed adjSens tr (s, h))
                       (adjSeed ! d ! 0))
              = fill_zero (data (solved_seed ar be input output tr s h (adjSeed ! d ! 0))))
       \<and> (product_symmetric ar \<and> adj_fit h input output adjSeed adjSens \<and> in_place be \<longrightarrow>
            data (snd (evaluateDGen ar be input output fwdSeed fwdSens adjSeed adjSens tr (s, h))
                   (adjSens ! d ! 1))
              = adjoint_A_update ar tr (h (adjSens ! d ! 1)) (primal_solution be input output tr s h)
                  (adjoint_lambda ar be input output tr s h (adjSeed ! d ! 0))
                  (sparsity (h (input ! 1)))
            \<and> (adjSeed ! d ! 0 \<noteq> adjSens ! d ! 0 \<longrightarrow>
                 data (snd (evaluateDGen ar be input output fwdSeed fwdSens adjSeed adjSens tr (s, h))
                        (adjSens ! d ! 0))
                   = adjoint_B_update ar (h (adjSens ! d ! 0))
                       (adjoint_lambda ar be input output tr s h (adjSeed ! d ! 0))
                 \<and> data (snd (evaluateDGen ar be input output fwdSeed fwdSens adjSeed adjSens tr (s, h))
                            (adjSeed ! d ! 0))
                   = replicate (length (data (h (adjSeed ! d ! 0)))) 0))"
proof -
  obtain s1 h1 where p: "dgen_primal be input output tr (s, h) = (s1, h1)"
    by (cases "dgen_primal be input output tr (s, h)")
  obtain s2 h2 where f: "dgen_forward ar be output fwdSeed fwdSens tr (s1, h1) = (s2, h2)"
    by (cases "dgen_forward ar be output fwdSeed fwdSens tr (s1, h1)")
  let ?R = "snd (evaluateDGen ar be input output fwdSeed fwdSens adjSeed adjSens tr (s, h))"
  let ?X = "primal_solution be input output tr s h"
  let ?S = "h (adjSeed ! d ! 0)"
  let ?mu = "solve_impl be (primal_factorization be input s h) (negate ar (data ?S))
               (size1 (sparsity (h (output ! 0)))) (\<not> tr)"
  have R: "?R = snd (foldl (adj_dir ar be output adjSeed adjSens tr) (s2, h2) [0..<length adjSeed])"
    by (simp add: evaluateDGen_def p f dgen_adjoint_def)
  have fs1: "factorization s1 = primal_factorization be input s h"
    using dgen_primal_factorization [of be "input" "output" tr s h] p by simp
  have fs2: "factorization s2 = primal_factorization be input s h"
    using fwd_loop_solver [of ar be "output" fwdSeed fwdSens tr s1 h1 "length fwdSens"] f fs1
    by (simp add: dgen_forward_def)
  have X1: "h1 (output ! 0) = ?X"
    using dgen_primal_X [of be "input" "output" tr s h] p by simp
  have frame1: "h1 a = h a" if "a \<noteq> output ! 0" for a
    using dgen_primal_frame [of a "output" be "input" tr s h] p that by simp
  have frame2: "h2 a = h1 a" if "\<forall>e<length fwdSens. a \<noteq> fwdSens ! e ! 0" for a
    using fwd_loop_frame [OF that, of ar be "output" fwdSeed tr s1 h1] f
    by (simp add: dgen_forward_def)
  have X2: "h2 (output ! 0) = ?X"
    using fwd by (simp add: frame2 X1 eq_commute)
  have x: "output ! 0 \<notin> {adjSeed ! d ! 0, adjSens ! d ! 0, adjSens ! d ! 1}"
    using ok d by (simp add: adj_ok_def)
  have keep: "h2 a = h a" if "a \<in> {adjSeed ! d ! 0, adjSens ! d ! 0, adjSens ! d ! 1}" for a
  proof -
    have "\<forall>e<length fwdSens. a \<noteq> fwdSens ! e ! 0"
      using fwd d that by auto
    moreover have "a \<noteq> output ! 0"
      using x that by auto
    ultimately show ?thesis
      by (simp add: frame1 frame2)
  qed
  have "adjoint_done ar be (factorization s2) output adjSeed adjSens tr h2 ?R d"
    unfolding R using adj_loop_done [OF ok order_refl, of ar be s2 tr h2] d by simp
  then have M: "data (?R (adjSens ! d ! 1))
           = map (\<lambda>k. accumulate ar (data (h (adjSens ! d ! 1)) ! k)
                        (adj_terms tr ?X (?S\<lparr>data := ?mu\<rparr>) (sparsity (h (adjSens ! d ! 1))) k))
               [0..<length (data (h (adjSens ! d ! 1)))]"
    "sparsity (?R (adjSens ! d ! 1)) = sparsity (h (adjSens ! d ! 1))"
    "adjSeed ! d ! 0 = adjSens ! d ! 0 \<Longrightarrow> data (?R (adjSens ! d ! 0)) = negate ar ?mu"
    "adjSeed ! d ! 0 \<noteq> adjSens ! d ! 0 \<Longrightarrow>
       data (?R (adjSens ! d ! 0)) = minus_into ar (data (h (adjSens ! d ! 0))) ?mu
       \<and> data (?R (adjSeed ! d ! 0)) = fill_zero ?mu"
    unfolding adjoint_done_def Let_def
    by (simp_all add: fs2 X2 keep primal_solution_def)
  have L: "data (?R (adjSens ! d ! 1))
              = adjoint_A_update ar tr (h (adjSens ! d ! 1)) ?X (?S\<lparr>data := negate ar ?mu\<rparr>)
                  (sparsity (h (input ! 1)))
            \<and> (adjSeed ! d ! 0 \<noteq> adjSens ! d ! 0 \<longrightarrow>
                 data (?R (adjSens ! d ! 0))
                   = adjoint_B_update ar (h (adjSens ! d ! 0)) (?S\<lparr>data := negate ar ?mu\<rparr>)
                 \<and> data (?R (adjSeed ! d ! 0)) = replicate (length (data ?S)) 0)"
    if sym: "product_symmetric ar" and fit: "adj_fit h input output adjSeed adjSens"
      and inp: "in_place be"
  proof -
    from fit d have XS: "same_shape (h (output ! 0)) ?S"
      and rows: "\<forall>i < size1 (sparsity ?S). rowind (sparsity ?S) ! Suc i \<le> length (data ?S)"
      and SB: "same_shape ?S (h (adjSens ! d ! 0))"
      and spA: "sparsity (h (adjSens ! d ! 1)) = sparsity (h (input ! 1))"
      by (simp_all add: adj_fit_def)
    have len: "length ?mu = length (data ?S)"
      using inp by (simp add: in_place_def negate_def)
    have r1: "size1 (sparsity ?X) = size1 (sparsity ?S)"
      using XS by (simp add: primal_solution_def same_shape_def)
    have r2: "\<forall>i < size1 (sparsity ?S). rowind (sparsity ?S) ! Suc i \<le> length ?mu"
      using rows by (simp add: len)
    have A: "data (?R (adjSens ! d ! 1))
              = adjoint_A_update ar tr (h (adjSens ! d ! 1)) ?X (?S\<lparr>data := negate ar ?mu\<rparr>)
                  (sparsity (h (input ! 1)))"
      unfolding M(1) adjoint_A_update_def spA
      by (simp add: adj_terms_negated [OF sym r1 r2])
    have sub: "fsub ar x y = fadd ar x (fneg ar y)" for x y
      using sym by (simp add: product_symmetric_def)
    have B: "minus_into ar (data (h (adjSens ! d ! 0))) ?mu
        = adjoint_B_update ar (h (adjSens ! d ! 0)) (?S\<lparr>data := negate ar ?mu\<rparr>)"
      using SB len unfolding minus_into_def adjoint_B_update_def negate_def same_shape_def
      by (simp add: sub)
    show ?thesis
      using A B M(4) by (simp add: fill_zero_def len)
  qed
  show ?thesis
    using M L by (simp add: solved_seed_def adjoint_lambda_def)
qed


lemma product_symmetric_int53: "product_symmetric int53"
proof -
  have 1: "- (- x) = x" for x :: int
    by simp
  have 2: "round53 (x * - y) = - round53 (x * y)" for x y
    using round53_minus [of "x * y"] by simp
  have 3: "round53 (- x * y) = - round53 (x * y)" for x y
    using round53_minus [of "x * y"] by simp
  have 5: "round53 (x - y) = round53 (x + - y)" for x y
    by simp
  show ?thesis
    unfolding product_symmetric_def int53_def
    by (intro conjI allI) (simp_all only: arith.simps 1 2 3 5)
qed

lemma in_place_neg_backend: "in_place neg_backend"
  by (simp add: in_place_def neg_backend_def)

text \<open>
  C2, as stated, calls the seed negated and solved \<open>lam\<close> and has the A-adjoint grow by
  \<open>-(X\<^sup>T lam)\<close> and the B-adjoint by \<open>lam\<close>.  With the primal solution \<open>(-1, -2)\<close>, the
  seed \<open>(7, 9)\<close> (the buffer is \<open>(7, 9)\<close> again after it has been negated and solved, the
  backend negating), the A-adjoint \<open>(1000, 2000)\<close> on the diagonal and the B-adjoint
  \<open>(100, 200)\<close>, the code leaves \<open>(993, 1982)\<close> and \<open>(93, 191)\<close>; the formulas of the
  claim, read with the contents of the buffer, give \<open>(1007, 2018)\<close> and \<open>(107, 209)\<close>.
  They give what the code leaves when they are read with the buffer negated back,
  \<open>(-7, -9)\<close>, which is not what the negation and the solve give.
\<close>

theorem adjoint_sensitivities_counterexample:
  "data (solved_seed int53 neg_backend [0, 1] [2] False solver0 heap0 6) = [7, 9]
   \<and> data (adjoint_lambda int53 neg_backend [0, 1] [2] False solver0 heap0 6) = [-7, -9]
   \<and> data (primal_solution neg_backend [0, 1] [2] False solver0 heap0) = [-1, -2]
   \<and> data (snd (evaluateDGen int53 neg_backend [0, 1] [2] [] [] [[6]] [[7, 8]] False (solver0, heap0)) 8)
       = [993, 1982]
   \<and> adjoint_A_update int53 False (heap0 8) (primal_solution neg_backend [0, 1] [2] False solver0 heap0)
         (solved_seed int53 neg_backend [0, 1] [2] False solver0 heap0 6) (sparsity (heap0 1))
       = [1007, 2018]
   \<and> data (snd (evaluateDGen int53 neg_backend [0, 1] [2] [] [] [[6]] [[7, 8]] False (solver0, heap0)) 8)
       \<noteq> adjoint_A_update int53 False (heap0 8)
             (primal_solution neg_backend [0, 1] [2] False solver0 heap0)
             (solved_seed int53 neg_backend [0, 1] [2] False solver0 heap0 6) (sparsity (heap0 1))
   \<and> data (snd (evaluateDGen int53 neg_backend [0, 1] [2] [] [] [[6]] [[7, 8]] False (solver0, heap0)) 7)
       = [93, 191]
   \<and> adjoint_B_update int53 (heap0 7) (solved_seed int53 neg_backend [0, 1] [2] False solver0 heap0 6)
       = [107, 209]
   \<and> data (snd (evaluateDGen int53 neg_backend [0, 1] [2] [] [] [[6]] [[7, 8]] False (solver0, heap0)) 7)
       \<noteq> adjoint_B_update int53 (heap0 7)
             (solved_seed int53 neg_backend [0, 1] [2] False solver0 heap0 6)"
  by code_simp

text \<open>Two instances in the rounded arithmetic of the examples, the first value of the
  A-adjoint being \<open>2^54\<close>: one with a B-adjoint buffer of its own, one with the seed
  buffer as B-adjoint and the transposed solve.  \<open>2^54 - 7\<close> is rounded to \<open>2^54 - 8\<close>.\<close>

theorem adjoint_sensitivities_witness:
  "adj_ok [2] [[6]] [[7, 8]]
   \<and> product_symmetric int53
   \<and> adj_fit heap1 [0, 1] [2] [[6]] [[7, 8]]
   \<and> in_place neg_backend
   \<and> data (snd (evaluateDGen int53 neg_backend [0, 1] [2] [[3, 4]] [[5]] [[6]] [[7, 8]] False
                  (solver0, heap1)) 8) = [18014398509481976, 1982]
   \<and> data (snd (evaluateDGen int53 neg_backend [0, 1] [2] [[3, 4]] [[5]] [[6]] [[7, 8]] False
                  (solver0, heap1)) 7) = [93, 191]
   \<and> data (snd (evaluateDGen int53 neg_backend [0, 1] [2] [[3, 4]] [[5]] [[6]] [[7, 8]] False
                  (solver0, heap1)) 6) = [0, 0]
   \<and> adj_ok [2] [[6]] [[6, 8]]
   \<and> adj_fit heap1 [0, 1] [2] [[6]] [[6, 8]]
   \<and> data (snd (evaluateDGen int53 neg_backend [0, 1] [2] [[3, 4]] [[5]] [[6]] [[6, 8]] True
                  (solver0, heap1)) 8) = [18014398509481976, 1982]
   \<and> data (snd (evaluateDGen int53 neg_backend [0, 1] [2] [[3, 4]] [[5]] [[6]] [[6, 8]] True
                  (solver0, heap1)) 6) = [-7, -9]"
proof -
  have ok1: "adj_ok [2] [[6]] [[7, 8]]" and ok2: "adj_ok [2] [[6]] [[6, 8]]"
    by (simp_all add: adj_ok_def)
  have fit1: "adj_fit heap1 [0, 1] [2] [[6]] [[7, 8]]" and fit2: "adj_fit heap1 [0, 1] [2] [[6]] [[6, 8]]"
    by (simp_all add: adj_fit_def same_shape_def heap1_def heap0_def row2_def dg2_def
        dense_sparsity_def)
  have fwd1: "\<forall>e<length [[5::nat]]. [[5::nat]] ! e ! 0 \<noteq> [2] ! 0
                \<and> (\<forall>d<length [[6::nat]].
                      [[5::nat]] ! e ! 0 \<notin> {[[6]] ! d ! 0, [[7, 8]] ! d ! 0, [[7, 8]] ! d ! 1})"
    and fwd2: "\<forall>e<length [[5::nat]]. [[5::nat]] ! e ! 0 \<noteq> [2] ! 0
                \<and> (\<forall>d<length [[6::nat]].
                      [[5::nat]] ! e ! 0 \<notin> {[[6]] ! d ! 0, [[6, 8]] ! d ! 0, [[6, 8]] ! d ! 1})"
    by simp_all
  have d0: "0 < length [[6::nat]]"
    by simp
  have lam1: "data (adjoint_lambda int53 neg_backend [0, 1] [2] False solver0 heap1 6) = [-7, -9]"
    and lam2: "data (adjoint_lambda int53 neg_backend [0, 1] [2] True solver0 heap1 6) = [-7, -9]"
    and A1: "adjoint_A_update int53 False (heap1 8)
         (primal_solution neg_backend [0, 1] [2] False solver0 heap1)
         (adjoint_lambda int53 neg_backend [0, 1] [2] False solver0 heap1 6) (sparsity (heap1 1))
       = [18014398509481976, 1982]"
    and A2: "adjoint_A_update int53 True (heap1 8)
         (primal_solution neg_backend [0, 1] [2] True solver0 heap1)
         (adjoint_lambda int53 neg_backend [0, 1] [2] True solver0 heap1 6) (sparsity (heap1 1))
       = [18014398509481976, 1982]"
    and B1: "adjoint_B_update int53 (heap1 7)
         (adjoint_lambda int53 neg_backend [0, 1] [2] False solver0 heap1 6) = [93, 191]"
    and h6: "length (data (heap1 6)) = 2"
    by code_simp+
  note T1 = adjoint_sensitivities [OF ok1 fwd1 d0, of int53 neg_backend "[0, 1]" "[[3, 4]]" False solver0 heap1]
  note T2 = adjoint_sensitivities [OF ok2 fwd2 d0, of int53 neg_backend "[0, 1]" "[[3, 4]]" True solver0 heap1]
  have hyp1: "product_symmetric int53 \<and> adj_fit heap1 [0, 1] [2] [[6]] [[7, 8]] \<and> in_place neg_backend"
    and hyp2: "product_symmetric int53 \<and> adj_fit heap1 [0, 1] [2] [[6]] [[6, 8]] \<and> in_place neg_backend"
    using product_symmetric_int53 fit1 fit2 in_place_neg_backend by simp_all
  from T1 [THEN conjunct2, THEN conjunct2, THEN conjunct2, THEN conjunct2, rule_format, OF hyp1] A1 B1 h6
  have a: "data (snd (evaluateDGen int53 neg_backend [0, 1] [2] [[3, 4]] [[5]] [[6]] [[7, 8]] False
                  (solver0, heap1)) 8) = [18014398509481976, 1982]"
    "data (snd (evaluateDGen int53 neg_backend [0, 1] [2] [[3, 4]] [[5]] [[6]] [[7, 8]] False
                  (solver0, heap1)) 7) = [93, 191]"
    "data (snd (evaluateDGen int53 neg_backend [0, 1] [2] [[3, 4]] [[5]] [[6]] [[7, 8]] False
                  (solver0, heap1)) 6) = [0, 0]"
    by (simp_all add: numeral_2_eq_2)
  from T2 [THEN conjunct2, THEN conjunct2, THEN conjunct2, THEN conjunct2, rule_format, OF hyp2] A2
  have b: "data (snd (evaluateDGen int53 neg_backend [0, 1] [2] [[3, 4]] [[5]] [[6]] [[6, 8]] True
                  (solver0, heap1)) 8) = [18014398509481976, 1982]"
    by simp
  from T2 [THEN conjunct2, THEN conjunct2, THEN conjunct1] lam2
  have c: "data (snd (evaluateDGen int53 neg_backend [0, 1] [2] [[3, 4]] [[5]] [[6]] [[6, 8]] True
                  (solver0, heap1)) 6) = [-7, -9]"
    by simp
  from ok1 ok2 fit1 fit2 product_symmetric_int53 in_place_neg_backend a b c show ?thesis
    by simp
qed



section \<open>Sparsity propagation: the forward pass\<close>

lemma length_map_range [simp]: "length (map_range g lo hi xs) = length xs"
  by (simp add: map_range_def)

lemma nth_map_range:
  "k < length xs \<Longrightarrow> map_range g lo hi xs ! k = (if lo \<le> k \<and> k < hi then g (xs ! k) else xs ! k)"
  by (simp add: map_range_def)

lemma map_range_empty: "map_range g lo lo xs = xs"
  by (rule nth_equalityI) (auto simp: nth_map_range)

lemma map_range_snoc:
  "lo \<le> hi \<Longrightarrow> hi < length xs \<Longrightarrow>
   (map_range g lo hi xs)[hi := g (xs ! hi)] = map_range g lo (Suc hi) xs"
  by (rule nth_equalityI) (auto simp: nth_map_range nth_list_update)

text \<open>The loops over one row, in closed form.  The loop variable is only counted.\<close>

lemma read_loop:
  "foldl (\<lambda>(dep, p) k. (dep OR peek h B p, Suc p)) (d0, p0) ks
     = (foldl (OR) d0 (masks (data (h B)) p0 (p0 + length ks)), p0 + length ks)"
  by (induction ks rule: rev_induct) (simp_all add: masks_def peek_def)

lemma set_data_same [simp]: "data (set_data h P xs P) = xs"
  by (simp add: set_data_def)

lemma set_data_other [simp]: "a \<noteq> P \<Longrightarrow> set_data h P xs a = h a"
  by (simp add: set_data_def)

lemma set_data_twice [simp]: "set_data (set_data h P xs) P ys = set_data h P ys"
  by (simp add: set_data_def)

lemma set_data_id [simp]: "set_data h P (data (h P)) = h"
  by (simp add: set_data_def)

lemma poke_set_data: "poke h P p v = set_data h P ((data (h P))[p := v])"
  by (simp add: poke_def set_data_def)

lemma write_loop:
  assumes "p0 + length ks \<le> length (data (h P))"
  shows "foldl (\<lambda>(p, h) k. (Suc p, poke h P p (g (peek h P p)))) (p0, h) ks
     = (p0 + length ks, set_data h P (map_range g p0 (p0 + length ks) (data (h P))))"
  using assms
proof (induction ks rule: rev_induct)
  case Nil
  show ?case by (simp add: map_range_empty)
next
  case (snoc k ks)
  then have lt: "p0 + length ks < length (data (h P))" by simp
  have "map_range g p0 (p0 + length ks) (data (h P)) ! (p0 + length ks) = data (h P) ! (p0 + length ks)"
    using lt by (simp add: nth_map_range)
  then have "(map_range g p0 (p0 + length ks) (data (h P)))
      [p0 + length ks := g (map_range g p0 (p0 + length ks) (data (h P)) ! (p0 + length ks))]
    = map_range g p0 (Suc (p0 + length ks)) (data (h P))"
    using lt by (simp add: map_range_snoc)
  with snoc lt show ?case
    by (simp add: peek_def poke_set_data)
qed

lemma clear_loop:
  assumes "p0 + length ks \<le> length (data (h X))"
  shows "foldl (\<lambda>(dep, p, h) k. (dep OR peek h X p, Suc p, poke h X p 0)) (d0, p0, h) ks
     = (foldl (OR) d0 (masks (data (h X)) p0 (p0 + length ks)), p0 + length ks,
        set_data h X (map_range (\<lambda>x. 0) p0 (p0 + length ks) (data (h X))))"
  using assms
proof (induction ks rule: rev_induct)
  case Nil
  show ?case by (simp add: map_range_empty masks_def)
next
  case (snoc k ks)
  then have lt: "p0 + length ks < length (data (h X))" by simp
  have "map_range (\<lambda>x. 0) p0 (p0 + length ks) (data (h X)) ! (p0 + length ks)
      = data (h X) ! (p0 + length ks)"
    using lt by (simp add: nth_map_range)
  moreover have "(map_range (\<lambda>x. 0) p0 (p0 + length ks) (data (h X)))[p0 + length ks := 0]
    = map_range (\<lambda>x. 0) p0 (Suc (p0 + length ks)) (data (h X))"
    using lt map_range_snoc [of p0 "p0 + length ks" "data (h X)" "\<lambda>x. 0"] by simp
  ultimately show ?case
    using snoc lt by (simp add: peek_def poke_set_data masks_def)
qed

lemma fwd_row_closed:
  assumes "rind ! i \<le> rind ! Suc i"
    and "xp + (rind ! Suc i - rind ! i) \<le> length (data (h X))"
  shows "fwd_row rind B X A_dep (bp, xp, h) i
     = (bp + (rind ! Suc i - rind ! i), xp + (rind ! Suc i - rind ! i),
        set_data h X
          (map_range (\<lambda>x. foldl (OR) A_dep (masks (data (h B)) bp (bp + (rind ! Suc i - rind ! i))))
             xp (xp + (rind ! Suc i - rind ! i)) (data (h X))))"
  using assms
    write_loop [of xp "[rind ! i..<rind ! Suc i]" h X
      "\<lambda>x. foldl (OR) A_dep (masks (data (h B)) bp (bp + (rind ! Suc i - rind ! i)))"]
  by (simp add: fwd_row_def read_loop)

lemma masks_cong:
  assumes "\<And>k. lo \<le> k \<Longrightarrow> k < hi \<Longrightarrow> xs ! k = ys ! k"
  shows "masks xs lo hi = masks ys lo hi"
  unfolding masks_def by (rule map_cong [OF refl]) (simp add: assms)

lemma fwd_rows:
  fixes h0 :: "('w::len) word heap"
  assumes len: "length rind = Suc nrhs" and srt: "sorted rind" and z: "rind ! 0 = 0"
    and lx: "rind ! nrhs \<le> length (data (h0 X))"
    and n: "n \<le> nrhs"
  shows "\<exists>h. foldl (fwd_row rind B X A_dep) (0, 0, h0) [0..<n] = (rind ! n, rind ! n, h)
       \<and> (\<forall>p. p \<noteq> X \<longrightarrow> h p = h0 p)
       \<and> sparsity (h X) = sparsity (h0 X)
       \<and> length (data (h X)) = length (data (h0 X))
       \<and> (\<forall>k. rind ! n \<le> k \<and> k < length (data (h0 X)) \<longrightarrow> data (h X) ! k = data (h0 X) ! k)
       \<and> (\<forall>j<n. \<forall>k. rind ! j \<le> k \<and> k < rind ! Suc j \<longrightarrow>
             data (h X) ! k = foldl (OR) A_dep (masks (data (h0 B)) (rind ! j) (rind ! Suc j)))"
  using n
proof (induction n)
  case 0
  show ?case by (simp add: z)
next
  case (Suc n)
  then obtain h where run: "foldl (fwd_row rind B X A_dep) (0, 0, h0) [0..<n] = (rind ! n, rind ! n, h)"
    and other: "\<And>p. p \<noteq> X \<Longrightarrow> h p = h0 p"
    and sp: "sparsity (h X) = sparsity (h0 X)"
    and lh: "length (data (h X)) = length (data (h0 X))"
    and tail: "\<And>k. rind ! n \<le> k \<Longrightarrow> k < length (data (h0 X)) \<Longrightarrow> data (h X) ! k = data (h0 X) ! k"
    and prev: "\<And>j k. j < n \<Longrightarrow> rind ! j \<le> k \<Longrightarrow> k < rind ! Suc j \<Longrightarrow>
             data (h X) ! k = foldl (OR) A_dep (masks (data (h0 B)) (rind ! j) (rind ! Suc j))"
    by auto
  let ?lo = "rind ! n" and ?hi = "rind ! Suc n"
  from Suc.prems have n: "n < nrhs" by simp
  have lohi: "?lo \<le> ?hi"
    using srt len n by (intro sorted_nth_mono) simp_all
  have hi: "?hi \<le> length (data (h0 X))"
  proof -
    have "?hi \<le> rind ! nrhs"
      using srt len n by (intro sorted_nth_mono) simp_all
    with lx show ?thesis by simp
  qed
  have rows: "rind ! Suc j \<le> ?lo" if "j < n" for j
    using srt len n that by (intro sorted_nth_mono) simp_all
  have B: "masks (data (h B)) ?lo ?hi = masks (data (h0 B)) ?lo ?hi"
  proof (rule masks_cong)
    fix k assume k: "?lo \<le> k" "k < ?hi"
    show "data (h B) ! k = data (h0 B) ! k"
    proof (cases "B = X")
      case True
      with k hi tail [of k] show ?thesis by simp
    next
      case False
      then show ?thesis by (simp add: other)
    qed
  qed
  let ?v = "foldl (OR) A_dep (masks (data (h0 B)) ?lo ?hi)"
  let ?h' = "set_data h X (map_range (\<lambda>x. ?v) ?lo ?hi (data (h X)))"
  have step: "fwd_row rind B X A_dep (?lo, ?lo, h) n = (?hi, ?hi, ?h')"
    using fwd_row_closed [of rind n ?lo h X B A_dep ?lo] lohi hi lh B by simp
  have run': "foldl (fwd_row rind B X A_dep) (0, 0, h0) [0..<Suc n] = (?hi, ?hi, ?h')"
    by (simp add: run step)
  show ?case
  proof (intro exI conjI allI impI)
    show "foldl (fwd_row rind B X A_dep) (0, 0, h0) [0..<Suc n] = (?hi, ?hi, ?h')"
      by (fact run')
  next
    fix p assume "p \<noteq> X"
    then show "?h' p = h0 p" by (simp add: other)
  next
    show "sparsity (?h' X) = sparsity (h0 X)"
      by (simp add: sparsity_set_data sp)
  next
    show "length (data (?h' X)) = length (data (h0 X))"
      by (simp add: lh)
  next
    fix k assume k: "?hi \<le> k \<and> k < length (data (h0 X))"
    with lohi have "data (h X) ! k = data (h0 X) ! k"
      by (intro tail) simp_all
    with k show "data (?h' X) ! k = data (h0 X) ! k"
      by (simp add: nth_map_range lh)
  next
    fix j k assume j: "j < Suc n" and k: "rind ! j \<le> k \<and> k < rind ! Suc j"
    show "data (?h' X) ! k = foldl (OR) A_dep (masks (data (h0 B)) (rind ! j) (rind ! Suc j))"
    proof (cases "j = n")
      case True
      with k hi show ?thesis
        by (simp add: nth_map_range lh)
    next
      case False
      with j have jn: "j < n" by simp
      with k rows [OF jn] hi lohi have "k < ?lo" "k < length (data (h X))"
        by (simp_all add: lh)
      with k jn show ?thesis
        by (simp add: nth_map_range prev)
    qed
  qed
qed

lemma foldl_or: "foldl (OR) d xs = d OR or_all (xs :: ('w::len) word list)"
  unfolding or_all_def
  by (induction xs rule: rev_induct) (simp_all add: ac_simps)

lemma collect_A_closed:
  "collect_A h A n = (or_all (masks (data (h A)) 0 n), n)"
  using read_loop [of h A 0 0 "[0..<n]"] by (simp add: collect_A_def foldl_or)

text \<open>
  C6.  When the buffers fit the row structure, the forward pass leaves in every element
  of row \<open>i\<close> of X the OR of all masks of A, OR-ed with the OR of the masks that B held
  in row \<open>i\<close>; so the elements of one row of X hold one and the same mask.  No buffer
  needs to be distinct from another one for this: the masks of A are collected before
  anything is written, and a row of B is read before the row of X is written, so the
  statement also covers a B that is updated in place (X the same buffer as B).
\<close>

theorem forward_propagation:
  fixes h :: "('w::len) word heap"
  assumes ok: "buffers_ok input output h"
    and i: "i < size1 (sparsity (h (input ! 0)))"
    and k: "rowind (sparsity (h (input ! 0))) ! i \<le> k"
      "k < rowind (sparsity (h (input ! 0))) ! Suc i"
  shows "data (propagateSparsityGen input output True tr h (output ! 0)) ! k
       = or_all (masks (data (h (input ! 1))) 0 (nnz (sparsity (h (input ! 1)))))
         OR or_all (masks (data (h (input ! 0)))
                      (rowind (sparsity (h (input ! 0))) ! i)
                      (rowind (sparsity (h (input ! 0))) ! Suc i))"
proof -
  let ?sp = "sparsity (h (input ! 0))"
  let ?A_dep = "or_all (masks (data (h (input ! 1))) 0 (nnz (sparsity (h (input ! 1)))))"
  have len: "length (rowind ?sp) = Suc (size1 ?sp)" and srt: "sorted (rowind ?sp)"
    and z: "rowind ?sp ! 0 = 0"
    and lx: "rowind ?sp ! size1 ?sp \<le> length (data (h (output ! 0)))"
    using ok by (simp_all add: buffers_ok_def rows_ok_def)
  obtain h' where run: "foldl (fwd_row (rowind ?sp) (input ! 0) (output ! 0) ?A_dep) (0, 0, h)
        [0..<size1 ?sp] = (rowind ?sp ! size1 ?sp, rowind ?sp ! size1 ?sp, h')"
    and rows: "\<And>j k. j < size1 ?sp \<Longrightarrow> rowind ?sp ! j \<le> k \<Longrightarrow> k < rowind ?sp ! Suc j \<Longrightarrow>
        data (h' (output ! 0)) ! k
          = foldl (OR) ?A_dep (masks (data (h (input ! 0))) (rowind ?sp ! j) (rowind ?sp ! Suc j))"
    using fwd_rows [where rind = "rowind ?sp" and nrhs = "size1 ?sp" and ?h0.0 = h
        and X = "output ! 0" and n = "size1 ?sp" and B = "input ! 0" and A_dep = ?A_dep,
        OF len srt z lx order_refl]
    by auto
  have "propagateSparsityGen input output True tr h = h'"
    using run by (simp add: propagateSparsityGen_def Let_def collect_A_closed)
  with rows [OF i k] show ?thesis
    by (simp add: foldl_or)
qed

theorem forward_propagation_witness:
  "buffers_ok [0, 1] [2] bits0
   \<and> data (propagateSparsityGen [0, 1] [2] True False bits0 2) ! 1 = 27
   \<and> data (propagateSparsityGen [0, 1] [2] True False bits0 2) ! 2 = 28
   \<and> buffers_ok [0, 1] [0] bits0
   \<and> data (propagateSparsityGen [0, 1] [0] True False bits0 0) ! 1 = 27"
proof -
  have ok: "buffers_ok [0, 1] [2] bits0" and ok': "buffers_ok [0, 1] [0] bits0"
    by (simp_all add: buffers_ok_def rows_ok_def bits0_def tri2_def diag2_def nnz_def)
  have "data (propagateSparsityGen [0, 1] [2] True False bits0 ([2] ! 0)) ! 1
      = or_all (masks (data (bits0 ([0, 1] ! 1))) 0 (nnz (sparsity (bits0 ([0, 1] ! 1)))))
         OR or_all (masks (data (bits0 ([0, 1] ! 0)))
                      (rowind (sparsity (bits0 ([0, 1] ! 0))) ! 0)
                      (rowind (sparsity (bits0 ([0, 1] ! 0))) ! Suc 0))"
    by (rule forward_propagation [OF ok]) (simp_all add: bits0_def tri2_def)
  also have "\<dots> = 27"
    by code_simp
  finally have a: "data (propagateSparsityGen [0, 1] [2] True False bits0 2) ! 1 = 27"
    by simp
  have "data (propagateSparsityGen [0, 1] [2] True False bits0 ([2] ! 0)) ! 2
      = or_all (masks (data (bits0 ([0, 1] ! 1))) 0 (nnz (sparsity (bits0 ([0, 1] ! 1)))))
         OR or_all (masks (data (bits0 ([0, 1] ! 0)))
                      (rowind (sparsity (bits0 ([0, 1] ! 0))) ! 1)
                      (rowind (sparsity (bits0 ([0, 1] ! 0))) ! Suc 1))"
    by (rule forward_propagation [OF ok]) (simp_all add: bits0_def tri2_def)
  also have "\<dots> = 28"
    by code_simp
  finally have b: "data (propagateSparsityGen [0, 1] [2] True False bits0 2) ! 2 = 28"
    by simp
  have "data (propagateSparsityGen [0, 1] [0] True False bits0 ([0] ! 0)) ! 1
      = or_all (masks (data (bits0 ([0, 1] ! 1))) 0 (nnz (sparsity (bits0 ([0, 1] ! 1)))))
         OR or_all (masks (data (bits0 ([0, 1] ! 0)))
                      (rowind (sparsity (bits0 ([0, 1] ! 0))) ! 0)
                      (rowind (sparsity (bits0 ([0, 1] ! 0))) ! Suc 0))"
    by (rule forward_propagation [OF ok']) (simp_all add: bits0_def tri2_def)
  also have "\<dots> = 27"
    by code_simp
  finally have c: "data (propagateSparsityGen [0, 1] [0] True False bits0 0) ! 1 = 27"
    by simp
  from ok ok' a b c show ?thesis
    by simp
qed



section \<open>Sparsity propagation: the reverse pass\<close>

lemma or_all_snoc: "or_all (xs @ [x]) = or_all xs OR (x :: ('w::len) word)"
  by (simp add: or_all_def)

lemma rev_row_closed:
  fixes h :: "('w::len) word heap"
  assumes "rind ! i \<le> rind ! Suc i"
    and "xp + (rind ! Suc i - rind ! i) \<le> length (data (h X))"
    and "bp + (rind ! Suc i - rind ! i) \<le> length (data (h B))"
  shows "rev_row rind B X (acc, bp, xp, h) i
     = (acc OR or_all (masks (data (h X)) xp (xp + (rind ! Suc i - rind ! i))),
        bp + (rind ! Suc i - rind ! i), xp + (rind ! Suc i - rind ! i),
        set_data (set_data h X (map_range (\<lambda>x. 0) xp (xp + (rind ! Suc i - rind ! i)) (data (h X))))
          B (map_range (\<lambda>x. x OR or_all (masks (data (h X)) xp (xp + (rind ! Suc i - rind ! i))))
               bp (bp + (rind ! Suc i - rind ! i))
               (data (set_data h X (map_range (\<lambda>x. 0) xp (xp + (rind ! Suc i - rind ! i)) (data (h X))) B))))"
proof -
  let ?n = "rind ! Suc i - rind ! i"
  let ?ks = "[rind ! i..<rind ! Suc i]"
  let ?d = "or_all (masks (data (h X)) xp (xp + ?n))"
  let ?h1 = "set_data h X (map_range (\<lambda>x. 0) xp (xp + ?n) (data (h X)))"
  have l1: "foldl (\<lambda>(dep, p, h) k. (dep OR peek h X p, Suc p, poke h X p 0)) (0, xp, h) ?ks
      = (?d, xp + ?n, ?h1)"
    using clear_loop [of xp ?ks h X 0] assms(2) by (simp add: foldl_or)
  have "length (data (?h1 B)) = length (data (h B))"
    by (cases "B = X") simp_all
  then have l2: "foldl (\<lambda>(p, h) k. (Suc p, poke h B p (peek h B p OR ?d))) (bp, ?h1) ?ks
      = (bp + ?n, set_data ?h1 B (map_range (\<lambda>x. x OR ?d) bp (bp + ?n) (data (?h1 B))))"
    using write_loop [of bp ?ks ?h1 B "\<lambda>x. x OR ?d"] assms(3) by simp
  show ?thesis
    by (simp add: rev_row_def l1 l2)
qed

lemma rev_rows:
  fixes h0 :: "('w::len) word heap"
  assumes len: "length rind = Suc nrhs" and srt: "sorted rind" and z: "rind ! 0 = 0"
    and lx: "rind ! nrhs \<le> length (data (h0 X))"
    and lb: "rind ! nrhs \<le> length (data (h0 B))"
    and n: "n \<le> nrhs"
  shows "\<exists>h. foldl (rev_row rind B X) (0, 0, 0, h0) [0..<n]
           = (or_all (map (row_dep (data (h0 X)) rind) [0..<n]), rind ! n, rind ! n, h)
       \<and> (\<forall>p. p \<noteq> X \<and> p \<noteq> B \<longrightarrow> h p = h0 p)
       \<and> length (data (h X)) = length (data (h0 X))
       \<and> length (data (h B)) = length (data (h0 B))
       \<and> (\<forall>k. rind ! n \<le> k \<and> k < length (data (h0 X)) \<longrightarrow> data (h X) ! k = data (h0 X) ! k)
       \<and> (\<forall>k. rind ! n \<le> k \<and> k < length (data (h0 B)) \<longrightarrow> data (h B) ! k = data (h0 B) ! k)
       \<and> (X \<noteq> B \<longrightarrow> (\<forall>k<rind ! n. data (h X) ! k = 0))
       \<and> (\<forall>j<n. \<forall>k. rind ! j \<le> k \<and> k < rind ! Suc j \<longrightarrow>
             data (h B) ! k
               = (if B = X then 0 else data (h0 B) ! k) OR row_dep (data (h0 X)) rind j)"
  using n
proof (induction n)
  case 0
  show ?case by (simp add: z or_all_def)
next
  case (Suc n)
  then obtain h where
    run: "foldl (rev_row rind B X) (0, 0, 0, h0) [0..<n]
           = (or_all (map (row_dep (data (h0 X)) rind) [0..<n]), rind ! n, rind ! n, h)"
    and other: "\<And>p. p \<noteq> X \<Longrightarrow> p \<noteq> B \<Longrightarrow> h p = h0 p"
    and lhx: "length (data (h X)) = length (data (h0 X))"
    and lhb: "length (data (h B)) = length (data (h0 B))"
    and tailx: "\<And>k. rind ! n \<le> k \<Longrightarrow> k < length (data (h0 X)) \<Longrightarrow> data (h X) ! k = data (h0 X) ! k"
    and tailb: "\<And>k. rind ! n \<le> k \<Longrightarrow> k < length (data (h0 B)) \<Longrightarrow> data (h B) ! k = data (h0 B) ! k"
    and zero: "\<And>k. X \<noteq> B \<Longrightarrow> k < rind ! n \<Longrightarrow> data (h X) ! k = 0"
    and prev: "\<And>j k. j < n \<Longrightarrow> rind ! j \<le> k \<Longrightarrow> k < rind ! Suc j \<Longrightarrow>
             data (h B) ! k
               = (if B = X then 0 else data (h0 B) ! k) OR row_dep (data (h0 X)) rind j"
    by auto
  let ?lo = "rind ! n" and ?hi = "rind ! Suc n"
  from Suc.prems have n: "n < nrhs" by simp
  have lohi: "?lo \<le> ?hi"
    using srt len n by (intro sorted_nth_mono) simp_all
  have "?hi \<le> rind ! nrhs"
    using srt len n by (intro sorted_nth_mono) simp_all
  with lx lb have hix: "?hi \<le> length (data (h0 X))" and hib: "?hi \<le> length (data (h0 B))"
    by simp_all
  have rows: "rind ! Suc j \<le> ?lo" if "j < n" for j
    using srt len n that by (intro sorted_nth_mono) simp_all
  let ?d = "row_dep (data (h0 X)) rind n"
  have d: "or_all (masks (data (h X)) ?lo ?hi) = ?d"
    unfolding row_dep_def
    by (rule arg_cong [where f = or_all], rule masks_cong) (use hix tailx in simp)
  let ?h1 = "set_data h X (map_range (\<lambda>x. 0) ?lo ?hi (data (h X)))"
  let ?h2 = "set_data ?h1 B (map_range (\<lambda>x. x OR ?d) ?lo ?hi (data (?h1 B)))"
  have step: "rev_row rind B X (acc, ?lo, ?lo, h) n = (acc OR ?d, ?hi, ?hi, ?h2)" for acc
    using rev_row_closed [of rind n ?lo h X ?lo B acc] lohi hix hib lhx lhb by (simp add: d)
  have run': "foldl (rev_row rind B X) (0, 0, 0, h0) [0..<Suc n]
           = (or_all (map (row_dep (data (h0 X)) rind) [0..<Suc n]), ?hi, ?hi, ?h2)"
    by (simp add: run step or_all_snoc)
  have X2: "data (?h2 X) = (if X = B
        then map_range (\<lambda>x. x OR ?d) ?lo ?hi (map_range (\<lambda>x. 0) ?lo ?hi (data (h X)))
        else map_range (\<lambda>x. 0) ?lo ?hi (data (h X)))"
    by simp
  have B2: "data (?h2 B) = (if X = B
        then map_range (\<lambda>x. x OR ?d) ?lo ?hi (map_range (\<lambda>x. 0) ?lo ?hi (data (h X)))
        else map_range (\<lambda>x. x OR ?d) ?lo ?hi (data (h B)))"
    by simp
  show ?case
  proof (intro exI conjI allI impI)
    show "foldl (rev_row rind B X) (0, 0, 0, h0) [0..<Suc n]
           = (or_all (map (row_dep (data (h0 X)) rind) [0..<Suc n]), ?hi, ?hi, ?h2)"
      by (fact run')
  next
    fix p assume "p \<noteq> X \<and> p \<noteq> B"
    then show "?h2 p = h0 p" by (simp add: other)
  next
    show "length (data (?h2 X)) = length (data (h0 X))"
      unfolding X2 using lhx lhb by auto
  next
    show "length (data (?h2 B)) = length (data (h0 B))"
      unfolding B2 using lhx lhb by auto
  next
    fix k assume k: "?hi \<le> k \<and> k < length (data (h0 X))"
    with lohi have "data (h X) ! k = data (h0 X) ! k"
      by (intro tailx) simp_all
    with k show "data (?h2 X) ! k = data (h0 X) ! k"
      unfolding X2 using lhx lhb by (auto simp: nth_map_range)
  next
    fix k assume k: "?hi \<le> k \<and> k < length (data (h0 B))"
    with lohi have "data (h B) ! k = data (h0 B) ! k"
      by (intro tailb) simp_all
    with k show "data (?h2 B) ! k = data (h0 B) ! k"
      unfolding B2 using lhx lhb by (auto simp: nth_map_range)
  next
    fix k assume xb: "X \<noteq> B" and k: "k < ?hi"
    with hix have "k < length (data (h X))" by (simp add: lhx)
    with xb k zero [of k] show "data (?h2 X) ! k = 0"
      unfolding X2 by (auto simp: nth_map_range)
  next
    fix j k assume j: "j < Suc n" and k: "rind ! j \<le> k \<and> k < rind ! Suc j"
    show "data (?h2 B) ! k = (if B = X then 0 else data (h0 B) ! k) OR row_dep (data (h0 X)) rind j"
    proof (cases "j = n")
      case True
      with k hix hib have kx: "k < length (data (h X))" and kb: "k < length (data (h B))"
        by (simp_all add: lhx lhb)
      have "data (h B) ! k = data (h0 B) ! k"
        using k True hib by (intro tailb) simp_all
      with True k kx kb show ?thesis
        unfolding B2 by (auto simp: nth_map_range)
    next
      case False
      with j have jn: "j < n" by simp
      with k rows [OF jn] hix hib lohi have "k < ?lo" "k < length (data (h X))" "k < length (data (h B))"
        by (simp_all add: lhx lhb)
      with k jn prev [of j k] show ?thesis
        unfolding B2 by (auto simp: nth_map_range)
    qed
  qed
qed

lemma spread_A_closed:
  fixes h :: "('w::len) word heap"
  assumes "n \<le> length (data (h A))"
  shows "spread_A h A n d = (n, set_data h A (map_range (\<lambda>x. x OR d) 0 n (data (h A))))"
  using write_loop [of 0 "[0..<n]" h A "\<lambda>x. x OR d"] assms by (simp add: spread_A_def)

text \<open>
  C7, amended.  Let the buffers fit the row structure and let A be a buffer of its own.
  With \<open>row_dep i\<close> the OR of the masks that X held in row \<open>i\<close>: when X and B are
  different buffers, the reverse pass leaves every mask of X zero and every element of
  row \<open>i\<close> of B OR-ed with \<open>row_dep i\<close>; when X and B are one buffer (the pass runs in
  place), every element of row \<open>i\<close> of that buffer is left as \<open>row_dep i\<close>; in both cases
  every mask of A is OR-ed with the OR of all \<open>row_dep i\<close>.
\<close>

theorem reverse_propagation:
  fixes h :: "('w::len) word heap"
  assumes ok: "buffers_ok input output h"
    and A: "input ! 1 \<noteq> input ! 0" "input ! 1 \<noteq> output ! 0"
  shows "(output ! 0 \<noteq> input ! 0 \<longrightarrow>
            (\<forall>k<rowind (sparsity (h (input ! 0))) ! size1 (sparsity (h (input ! 0))).
               data (propagateSparsityGen input output False tr h (output ! 0)) ! k = 0)
          \<and> (\<forall>i < size1 (sparsity (h (input ! 0))). \<forall>k.
               rowind (sparsity (h (input ! 0))) ! i \<le> k
               \<and> k < rowind (sparsity (h (input ! 0))) ! Suc i \<longrightarrow>
               data (propagateSparsityGen input output False tr h (input ! 0)) ! k
                 = data (h (input ! 0)) ! k
                   OR row_dep (data (h (output ! 0))) (rowind (sparsity (h (input ! 0)))) i))
       \<and> (output ! 0 = input ! 0 \<longrightarrow>
            (\<forall>i < size1 (sparsity (h (input ! 0))). \<forall>k.
               rowind (sparsity (h (input ! 0))) ! i \<le> k
               \<and> k < rowind (sparsity (h (input ! 0))) ! Suc i \<longrightarrow>
               data (propagateSparsityGen input output False tr h (output ! 0)) ! k
                 = row_dep (data (h (output ! 0))) (rowind (sparsity (h (input ! 0)))) i))
       \<and> (\<forall>k<nnz (sparsity (h (input ! 1))).
            data (propagateSparsityGen input output False tr h (input ! 1)) ! k
              = data (h (input ! 1)) ! k
                OR or_all (map (row_dep (data (h (output ! 0))) (rowind (sparsity (h (input ! 0)))))
                             [0..<size1 (sparsity (h (input ! 0)))]))"
proof -
  let ?sp = "sparsity (h (input ! 0))"
  let ?B = "input ! 0" and ?A = "input ! Suc 0" and ?X = "output ! 0"
  let ?all = "or_all (map (row_dep (data (h ?X)) (rowind ?sp)) [0..<size1 ?sp])"
  have len: "length (rowind ?sp) = Suc (size1 ?sp)" and srt: "sorted (rowind ?sp)"
    and z: "rowind ?sp ! 0 = 0"
    and lx: "rowind ?sp ! size1 ?sp \<le> length (data (h ?X))"
    and lb: "rowind ?sp ! size1 ?sp \<le> length (data (h ?B))"
    and la: "nnz (sparsity (h ?A)) \<le> length (data (h ?A))"
    using ok by (simp_all add: buffers_ok_def rows_ok_def)
  from A have A': "?A \<noteq> ?B" "?A \<noteq> ?X" by simp_all
  obtain h1 where run: "foldl (rev_row (rowind ?sp) ?B ?X) (0, 0, 0, h) [0..<size1 ?sp]
        = (?all, rowind ?sp ! size1 ?sp, rowind ?sp ! size1 ?sp, h1)"
    and other: "\<And>p. p \<noteq> ?X \<Longrightarrow> p \<noteq> ?B \<Longrightarrow> h1 p = h p"
    and zero: "\<And>k. ?X \<noteq> ?B \<Longrightarrow> k < rowind ?sp ! size1 ?sp \<Longrightarrow> data (h1 ?X) ! k = 0"
    and rows: "\<And>j k. j < size1 ?sp \<Longrightarrow> rowind ?sp ! j \<le> k \<Longrightarrow> k < rowind ?sp ! Suc j \<Longrightarrow>
        data (h1 ?B) ! k = (if ?B = ?X then 0 else data (h ?B) ! k) OR row_dep (data (h ?X)) (rowind ?sp) j"
    using rev_rows [where rind = "rowind ?sp" and nrhs = "size1 ?sp" and ?h0.0 = h
        and X = ?X and n = "size1 ?sp" and B = ?B, OF len srt z lx lb order_refl]
    by auto
  have hA: "h1 ?A = h ?A"
    using A' by (intro other) simp_all
  let ?R = "set_data h1 ?A (map_range (\<lambda>x. x OR ?all) 0 (nnz (sparsity (h ?A))) (data (h ?A)))"
  have R: "propagateSparsityGen input output False tr h = ?R"
    using run spread_A_closed [of "nnz (sparsity (h ?A))" h1 ?A ?all] la
    by (simp add: propagateSparsityGen_def Let_def hA)
  have RX: "?R ?X = h1 ?X" and RB: "?R ?B = h1 ?B"
    using A' by simp_all
  show ?thesis
    unfolding R
  proof (intro conjI impI allI)
    fix k assume "?X \<noteq> ?B" "k < rowind ?sp ! size1 ?sp"
    then show "data (?R ?X) ! k = 0"
      unfolding RX by (rule zero)
  next
    fix i k assume "?X \<noteq> ?B" "i < size1 ?sp" "rowind ?sp ! i \<le> k \<and> k < rowind ?sp ! Suc i"
    then show "data (?R ?B) ! k = data (h ?B) ! k OR row_dep (data (h ?X)) (rowind ?sp) i"
      unfolding RB using rows [of i k] by auto
  next
    fix i k assume "?X = ?B" "i < size1 ?sp" "rowind ?sp ! i \<le> k \<and> k < rowind ?sp ! Suc i"
    then show "data (?R ?X) ! k = row_dep (data (h ?X)) (rowind ?sp) i"
      unfolding RX using rows [of i k] by auto
  next
    fix k assume "k < nnz (sparsity (h (input ! 1)))"
    with la show "data (?R (input ! 1)) ! k = data (h (input ! 1)) ! k OR ?all"
      by (simp add: nth_map_range)
  qed
qed

text \<open>
  C7, as stated, ends with "after the pass every mask of X is zero".  When the caller
  passes one buffer as B and as X, as it does for an update in place, the row of X is
  cleared and then, being the row of B, OR-ed with \<open>row_dep\<close>: the masks \<open>(1, 2)\<close> and
  \<open>(4)\<close> come out as \<open>(3, 3)\<close> and \<open>(4)\<close>.
\<close>

theorem reverse_propagation_counterexample:
  "data (bits0 0) = [1, 2, 4]
   \<and> data (propagateSparsityGen [0, 1] [0] False False bits0 0) = [3, 3, 4]
   \<and> data (propagateSparsityGen [0, 1] [0] False False bits0 0) ! 1 \<noteq> 0"
  by code_simp

theorem reverse_propagation_witness:
  "buffers_ok [0, 1] [2] bits0
   \<and> data (propagateSparsityGen [0, 1] [2] False False bits0 2) ! 1 = 0
   \<and> data (propagateSparsityGen [0, 1] [2] False False bits0 0) ! 1 = 98
   \<and> data (propagateSparsityGen [0, 1] [2] False False bits0 1) ! 0 = 232
   \<and> buffers_ok [0, 1] [0] bits0
   \<and> data (propagateSparsityGen [0, 1] [0] False False bits0 0) ! 1 = 3
   \<and> data (propagateSparsityGen [0, 1] [0] False False bits0 1) ! 0 = 15"
proof -
  have ok: "buffers_ok [0, 1] [2] bits0" and ok': "buffers_ok [0, 1] [0] bits0"
    by (simp_all add: buffers_ok_def rows_ok_def bits0_def tri2_def diag2_def nnz_def)
  have ne: "[0, 1::nat] ! 1 \<noteq> [0, 1] ! 0" "[0, 1::nat] ! 1 \<noteq> [2] ! 0" "[0, 1::nat] ! 1 \<noteq> [0] ! 0"
    "[2::nat] ! 0 \<noteq> [0, 1] ! 0" "[0::nat] ! 0 = [0, 1] ! 0"
    by simp_all
  note sep = reverse_propagation [OF ok ne(1) ne(2), of False]
  note ali = reverse_propagation [OF ok' ne(1) ne(3), of False]
  have "data (propagateSparsityGen [0, 1] [2] False False bits0 ([2] ! 0)) ! 1 = 0"
    by (rule sep [THEN conjunct1, rule_format, OF ne(4), THEN conjunct1, rule_format])
      (simp add: bits0_def tri2_def)
  then have a: "data (propagateSparsityGen [0, 1] [2] False False bits0 2) ! 1 = 0"
    by simp
  have "data (propagateSparsityGen [0, 1] [2] False False bits0 ([0, 1] ! 0)) ! 1
      = data (bits0 ([0, 1] ! 0)) ! 1
        OR row_dep (data (bits0 ([2] ! 0))) (rowind (sparsity (bits0 ([0, 1] ! 0)))) 0"
    by (rule sep [THEN conjunct1, rule_format, OF ne(4), THEN conjunct2, rule_format])
      (simp_all add: bits0_def tri2_def)
  also have "\<dots> = 98"
    by code_simp
  finally have b: "data (propagateSparsityGen [0, 1] [2] False False bits0 0) ! 1 = 98"
    by simp
  have "data (propagateSparsityGen [0, 1] [2] False False bits0 ([0, 1] ! 1)) ! 0
      = data (bits0 ([0, 1] ! 1)) ! 0
        OR or_all (map (row_dep (data (bits0 ([2] ! 0))) (rowind (sparsity (bits0 ([0, 1] ! 0)))))
                     [0..<size1 (sparsity (bits0 ([0, 1] ! 0)))])"
    by (rule sep [THEN conjunct2, THEN conjunct2, rule_format])
      (simp add: bits0_def diag2_def nnz_def)
  also have "\<dots> = 232"
    by code_simp
  finally have c: "data (propagateSparsityGen [0, 1] [2] False False bits0 1) ! 0 = 232"
    by simp
  have "data (propagateSparsityGen [0, 1] [0] False False bits0 ([0] ! 0)) ! 1
      = row_dep (data (bits0 ([0] ! 0))) (rowind (sparsity (bits0 ([0, 1] ! 0)))) 0"
    by (rule ali [THEN conjunct2, THEN conjunct1, rule_format, OF ne(5)])
      (simp_all add: bits0_def tri2_def)
  also have "\<dots> = 3"
    by code_simp
  finally have d: "data (propagateSparsityGen [0, 1] [0] False False bits0 0) ! 1 = 3"
    by simp
  have "data (propagateSparsityGen [0, 1] [0] False False bits0 ([0, 1] ! 1)) ! 0
      = data (bits0 ([0, 1] ! 1)) ! 0
        OR or_all (map (row_dep (data (bits0 ([0] ! 0))) (rowind (sparsity (bits0 ([0, 1] ! 0)))))
                     [0..<size1 (sparsity (bits0 ([0, 1] ! 0)))])"
    by (rule ali [THEN conjunct2, THEN conjunct2, rule_format])
      (simp add: bits0_def diag2_def nnz_def)
  also have "\<dots> = 15"
    by code_simp
  finally have e: "data (propagateSparsityGen [0, 1] [0] False False bits0 1) ! 0 = 15"
    by simp
  from ok ok' a b c d e show ?thesis
    by simp
qed



section \<open>Symbolic evaluation: the forward pass\<close>

lemma row_offsets_snoc:
  "row_offsets (sizes @ [n]) = row_offsets sizes @ [last (row_offsets sizes) + n]"
  by (simp add: row_offsets_def)

lemma length_row_offsets: "length (row_offsets sizes) = Suc (length sizes)"
  by (induction sizes rule: rev_induct) (simp_all add: row_offsets_snoc, simp add: row_offsets_def)









lemma splits_ok_term_engine: "splits_ok term_engine"
  by (simp add: splits_ok_def term_engine_def)



section \<open>Symbolic evaluation: the adjoint pass\<close>

lemma adj_nonzero_Suc:
  "adj_nonzero eng h adjSeed (Suc n)
     = adj_nonzero eng h adjSeed n @ (if isZero eng (h (adjSeed ! n ! 0)) then [] else [n])"
  by (simp add: adj_nonzero_def)

lemma adj_nonzero_nth:
  assumes "i < length (adj_nonzero eng h adjSeed n)"
  shows "adj_nonzero eng h adjSeed n ! i < n"
    and "\<not> isZero eng (h (adjSeed ! (adj_nonzero eng h adjSeed n ! i) ! 0))"
  using nth_mem [OF assms] by (simp_all add: adj_nonzero_def)

lemma adj_nonzero_distinct: "distinct (adj_nonzero eng h adjSeed n)"
  by (simp add: adj_nonzero_def)

lemma adj_nonzero_mem:
  "d < n \<Longrightarrow> \<not> isZero eng (h (adjSeed ! d ! 0)) \<Longrightarrow> d \<in> set (adj_nonzero eng h adjSeed n)"
  by (simp add: adj_nonzero_def)

text \<open>The slots of an adjoint direction.\<close>

lemma adj_collect_loop:
  assumes ok: "adj_ok output adjSeed adjSens" and n: "n \<le> length adjSeed"
  shows "\<exists>sl. foldl (adj_collect eng adjSeed adjSens) ([], [], [0], h) [0..<n]
         = (adj_nonzero eng h adjSeed n,
            map (\<lambda>d. h (adjSeed ! d ! 0)) (adj_nonzero eng h adjSeed n),
            row_offsets (map (\<lambda>d. mx_size1 eng (h (adjSeed ! d ! 0))) (adj_nonzero eng h adjSeed n)),
            sl)
       \<and> (\<forall>d<n. sl (adjSens ! d ! 1) = h (adjSens ! d ! 1)
               \<and> (if isZero eng (h (adjSeed ! d ! 0))
                   then (if adjSeed ! d ! 0 \<noteq> adjSens ! d ! 0
                         then sl (adjSens ! d ! 0) = h (adjSeed ! d ! 0)
                              \<and> sl (adjSeed ! d ! 0) = mx_null eng
                         else sl (adjSeed ! d ! 0) = h (adjSeed ! d ! 0))
                   else sl (adjSeed ! d ! 0) = mx_null eng
                        \<and> (adjSeed ! d ! 0 \<noteq> adjSens ! d ! 0 \<longrightarrow>
                             sl (adjSens ! d ! 0) = h (adjSens ! d ! 0))))
       \<and> (\<forall>a. (\<forall>d<n. a \<noteq> adjSeed ! d ! 0 \<and> a \<noteq> adjSens ! d ! 0) \<longrightarrow> sl a = h a)"
  using n
proof (induction n)
  case 0
  show ?case by (simp add: adj_nonzero_def row_offsets_def)
next
  case (Suc n)
  let ?nz = "adj_nonzero eng h adjSeed n"
  let ?offs = "row_offsets (map (\<lambda>d. mx_size1 eng (h (adjSeed ! d ! 0))) ?nz)"
  let ?P = "\<lambda>sl d. sl (adjSens ! d ! 1) = h (adjSens ! d ! 1)
               \<and> (if isZero eng (h (adjSeed ! d ! 0))
                   then (if adjSeed ! d ! 0 \<noteq> adjSens ! d ! 0
                         then sl (adjSens ! d ! 0) = h (adjSeed ! d ! 0)
                              \<and> sl (adjSeed ! d ! 0) = mx_null eng
                         else sl (adjSeed ! d ! 0) = h (adjSeed ! d ! 0))
                   else sl (adjSeed ! d ! 0) = mx_null eng
                        \<and> (adjSeed ! d ! 0 \<noteq> adjSens ! d ! 0 \<longrightarrow>
                             sl (adjSens ! d ! 0) = h (adjSens ! d ! 0)))"
  from Suc obtain sl where
    run: "foldl (adj_collect eng adjSeed adjSens) ([], [], [0], h) [0..<n]
         = (?nz, map (\<lambda>d. h (adjSeed ! d ! 0)) ?nz, ?offs, sl)"
    and prev: "\<And>d. d < n \<Longrightarrow> ?P sl d"
    and frame: "\<And>a. (\<forall>d<n. a \<noteq> adjSeed ! d ! 0 \<and> a \<noteq> adjSens ! d ! 0) \<Longrightarrow> sl a = h a"
    by auto
  from Suc.prems have n: "n < length adjSeed" by simp
  have disj: "{adjSeed ! e ! 0, adjSens ! e ! 0, adjSens ! e ! 1}
              \<inter> {adjSeed ! n ! 0, adjSens ! n ! 0, adjSens ! n ! 1} = {}" if "e < n" for e
    using ok n that by (simp add: adj_ok_def)
  have a1: "adjSens ! n ! 1 \<noteq> adjSeed ! n ! 0" "adjSens ! n ! 1 \<noteq> adjSens ! n ! 0"
    using ok n by (simp_all add: adj_ok_def)
  have mine: "sl a = h a" if "a \<in> {adjSeed ! n ! 0, adjSens ! n ! 0, adjSens ! n ! 1}" for a
  proof (rule frame, intro allI impI)
    fix d assume "d < n"
    from disj [OF this] that show "a \<noteq> adjSeed ! d ! 0 \<and> a \<noteq> adjSens ! d ! 0" by blast
  qed
  have seed: "sl (adjSeed ! n ! 0) = h (adjSeed ! n ! 0)"
    by (rule mine) simp
  have keep: "?P sl' d" if "d < n" "\<And>a. a \<notin> {adjSeed ! n ! 0, adjSens ! n ! 0} \<Longrightarrow> sl' a = sl a" for sl' d
  proof -
    have "a \<notin> {adjSeed ! n ! 0, adjSens ! n ! 0}" if "a \<in> {adjSeed ! d ! 0, adjSens ! d ! 0, adjSens ! d ! 1}" for a
      using disj [OF \<open>d < n\<close>] that by blast
    then have eqs: "sl' (adjSeed ! d ! 0) = sl (adjSeed ! d ! 0)"
      "sl' (adjSens ! d ! 0) = sl (adjSens ! d ! 0)"
      "sl' (adjSens ! d ! 1) = sl (adjSens ! d ! 1)"
      by (simp_all add: that(2))
    show ?thesis
      unfolding eqs by (rule prev [OF \<open>d < n\<close>])
  qed
  obtain sl' where step: "adj_collect eng adjSeed adjSens
        (?nz, map (\<lambda>d. h (adjSeed ! d ! 0)) ?nz, ?offs, sl) n
      = (adj_nonzero eng h adjSeed (Suc n),
         map (\<lambda>d. h (adjSeed ! d ! 0)) (adj_nonzero eng h adjSeed (Suc n)),
         row_offsets (map (\<lambda>d. mx_size1 eng (h (adjSeed ! d ! 0))) (adj_nonzero eng h adjSeed (Suc n))),
         sl')"
    and new: "?P sl' n"
    and same: "\<And>a. a \<notin> {adjSeed ! n ! 0, adjSens ! n ! 0} \<Longrightarrow> sl' a = sl a"
  proof (cases "isZero eng (h (adjSeed ! n ! 0))")
    case True
    show ?thesis
    proof (cases "adjSeed ! n ! 0 = adjSens ! n ! 0")
      case same: True
      show ?thesis
        by (rule that [of sl])
          (use True same a1 mine in \<open>simp_all add: adj_collect_def Let_def seed adj_nonzero_Suc\<close>)
    next
      case diff: False
      show ?thesis
        by (rule that [of "(sl(adjSens ! n ! 0 := h (adjSeed ! n ! 0)))(adjSeed ! n ! 0 := mx_null eng)"])
          (use True diff a1 mine in \<open>simp_all add: adj_collect_def Let_def seed adj_nonzero_Suc\<close>)
    qed
  next
    case False
    show ?thesis
      by (rule that [of "sl(adjSeed ! n ! 0 := mx_null eng)"])
        (use False a1 mine in \<open>auto simp: adj_collect_def Let_def seed adj_nonzero_Suc row_offsets_snoc\<close>)
  qed
  show ?case
  proof (intro exI conjI)
    show "foldl (adj_collect eng adjSeed adjSens) ([], [], [0], h) [0..<Suc n]
      = (adj_nonzero eng h adjSeed (Suc n),
         map (\<lambda>d. h (adjSeed ! d ! 0)) (adj_nonzero eng h adjSeed (Suc n)),
         row_offsets (map (\<lambda>d. mx_size1 eng (h (adjSeed ! d ! 0))) (adj_nonzero eng h adjSeed (Suc n))),
         sl')"
      by (simp add: run step)
  next
    show "\<forall>d<Suc n. ?P sl' d"
    proof (intro allI impI)
      fix d assume "d < Suc n"
      then consider "d = n" | "d < n" by linarith
      then show "?P sl' d"
      proof cases
        case 1
        show ?thesis unfolding 1 by (rule new)
      next
        case 2
        then show ?thesis by (rule keep) (rule same)
      qed
    qed
  next
    show "\<forall>a. (\<forall>d<Suc n. a \<noteq> adjSeed ! d ! 0 \<and> a \<noteq> adjSens ! d ! 0) \<longrightarrow> sl' a = h a"
    proof (intro allI impI)
      fix a assume a: "\<forall>d<Suc n. a \<noteq> adjSeed ! d ! 0 \<and> a \<noteq> adjSens ! d ! 0"
      then have "sl' a = sl a" by (intro same) simp
      also from a have "sl a = h a" by (intro frame) simp
      finally show "sl' a = h a" .
    qed
  qed
qed

lemma adj_save_frame:
  "a \<notin> {adjSens ! (rhs_ind ! i) ! 0, adjSens ! (rhs_ind ! i) ! 1}
   \<Longrightarrow> adj_save eng input output adjSeed adjSens tr rhs_ind parts sl i a = sl a"
  by (simp add: adj_save_def Let_def)

lemma adj_save_alias:
  "adjSeed ! (rhs_ind ! i) ! 0 = adjSens ! (rhs_ind ! i) ! 0
   \<Longrightarrow> adj_save eng input output adjSeed adjSens tr rhs_ind parts sl i (adjSens ! (rhs_ind ! i) ! 0)
       = parts ! i"
  by (simp add: adj_save_def Let_def)

lemma adj_save_loop_frame:
  "\<forall>i<m. a \<notin> {adjSens ! (rhs_ind ! i) ! 0, adjSens ! (rhs_ind ! i) ! 1}
   \<Longrightarrow> foldl (adj_save eng input output adjSeed adjSens tr rhs_ind parts) sl [0..<m] a = sl a"
proof (induction m)
  case 0
  show ?case by simp
next
  case (Suc m)
  then have "a \<notin> {adjSens ! (rhs_ind ! m) ! 0, adjSens ! (rhs_ind ! m) ! 1}"
    by simp
  then have "adj_save eng input output adjSeed adjSens tr rhs_ind parts
      (foldl (adj_save eng input output adjSeed adjSens tr rhs_ind parts) sl [0..<m]) m a
    = foldl (adj_save eng input output adjSeed adjSens tr rhs_ind parts) sl [0..<m] a"
    by (rule adj_save_frame)
  with Suc show ?case by simp
qed

lemma adj_save_loop_alias:
  assumes "i < m" and "adjSeed ! (rhs_ind ! i) ! 0 = adjSens ! (rhs_ind ! i) ! 0"
    and "\<forall>j<m. j \<noteq> i \<longrightarrow>
           adjSens ! (rhs_ind ! i) ! 0 \<notin> {adjSens ! (rhs_ind ! j) ! 0, adjSens ! (rhs_ind ! j) ! 1}"
  shows "foldl (adj_save eng input output adjSeed adjSens tr rhs_ind parts) sl [0..<m]
           (adjSens ! (rhs_ind ! i) ! 0) = parts ! i"
  using assms(1,3)
proof (induction m)
  case 0
  then show ?case by simp
next
  case (Suc m)
  let ?F = "adj_save eng input output adjSeed adjSens tr rhs_ind parts"
  show ?case
  proof (cases "i = m")
    case True
    then show ?thesis
      using adj_save_alias [OF assms(2), of eng "input" "output" tr parts "foldl ?F sl [0..<m]"]
      by simp
  next
    case False
    with Suc.prems have im: "i < m" by simp
    from Suc.prems False
    have "adjSens ! (rhs_ind ! i) ! 0 \<notin> {adjSens ! (rhs_ind ! m) ! 0, adjSens ! (rhs_ind ! m) ! 1}"
      by simp
    then have "?F (foldl ?F sl [0..<m]) m (adjSens ! (rhs_ind ! i) ! 0)
        = foldl ?F sl [0..<m] (adjSens ! (rhs_ind ! i) ! 0)"
      by (rule adj_save_frame)
    moreover have "foldl ?F sl [0..<m] (adjSens ! (rhs_ind ! i) ! 0) = parts ! i"
      using Suc.prems im by (intro Suc.IH) simp_all
    ultimately show ?thesis by simp
  qed
qed

text \<open>The adjoint pass as a whole: the collecting loop, then at most one solve.\<close>

lemma adj_collected_props:
  assumes ok: "adj_ok output adjSeed adjSens"
  shows "adj_collect_all eng adjSeed adjSens sl
           = (adj_nonzero eng sl adjSeed (length adjSeed),
              map (\<lambda>d. sl (adjSeed ! d ! 0)) (adj_nonzero eng sl adjSeed (length adjSeed)),
              row_offsets (map (\<lambda>d. mx_size1 eng (sl (adjSeed ! d ! 0)))
                             (adj_nonzero eng sl adjSeed (length adjSeed))),
              adj_collected eng adjSeed adjSens sl)"
    and "d < length adjSeed \<Longrightarrow>
           adj_collected eng adjSeed adjSens sl (adjSens ! d ! 1) = sl (adjSens ! d ! 1)"
    and "d < length adjSeed \<Longrightarrow> isZero eng (sl (adjSeed ! d ! 0)) \<Longrightarrow>
           adjSeed ! d ! 0 \<noteq> adjSens ! d ! 0 \<Longrightarrow>
           adj_collected eng adjSeed adjSens sl (adjSens ! d ! 0) = sl (adjSeed ! d ! 0)
           \<and> adj_collected eng adjSeed adjSens sl (adjSeed ! d ! 0) = mx_null eng"
    and "d < length adjSeed \<Longrightarrow> isZero eng (sl (adjSeed ! d ! 0)) \<Longrightarrow>
           adjSeed ! d ! 0 = adjSens ! d ! 0 \<Longrightarrow>
           adj_collected eng adjSeed adjSens sl (adjSeed ! d ! 0) = sl (adjSeed ! d ! 0)"
    and "d < length adjSeed \<Longrightarrow> \<not> isZero eng (sl (adjSeed ! d ! 0)) \<Longrightarrow>
           adj_collected eng adjSeed adjSens sl (adjSeed ! d ! 0) = mx_null eng"
    and "(\<forall>d<length adjSeed. a \<noteq> adjSeed ! d ! 0 \<and> a \<noteq> adjSens ! d ! 0) \<Longrightarrow>
           adj_collected eng adjSeed adjSens sl a = sl a"
proof -
  obtain sl1 where
    run: "adj_collect_all eng adjSeed adjSens sl
           = (adj_nonzero eng sl adjSeed (length adjSeed),
              map (\<lambda>d. sl (adjSeed ! d ! 0)) (adj_nonzero eng sl adjSeed (length adjSeed)),
              row_offsets (map (\<lambda>d. mx_size1 eng (sl (adjSeed ! d ! 0)))
                             (adj_nonzero eng sl adjSeed (length adjSeed))),
              sl1)"
    and props: "\<And>d. d < length adjSeed \<Longrightarrow>
               sl1 (adjSens ! d ! 1) = sl (adjSens ! d ! 1)
               \<and> (if isZero eng (sl (adjSeed ! d ! 0))
                   then (if adjSeed ! d ! 0 \<noteq> adjSens ! d ! 0
                         then sl1 (adjSens ! d ! 0) = sl (adjSeed ! d ! 0)
                              \<and> sl1 (adjSeed ! d ! 0) = mx_null eng
                         else sl1 (adjSeed ! d ! 0) = sl (adjSeed ! d ! 0))
                   else sl1 (adjSeed ! d ! 0) = mx_null eng
                        \<and> (adjSeed ! d ! 0 \<noteq> adjSens ! d ! 0 \<longrightarrow>
                             sl1 (adjSens ! d ! 0) = sl (adjSens ! d ! 0)))"
    and frame: "\<And>a. (\<forall>d<length adjSeed. a \<noteq> adjSeed ! d ! 0 \<and> a \<noteq> adjSens ! d ! 0) \<Longrightarrow> sl1 a = sl a"
    using adj_collect_loop [OF ok order_refl, of eng sl] unfolding adj_collect_all_def by auto
  have c: "adj_collected eng adjSeed adjSens sl = sl1"
    by (simp add: adj_collected_def run)
  show "adj_collect_all eng adjSeed adjSens sl
           = (adj_nonzero eng sl adjSeed (length adjSeed),
              map (\<lambda>d. sl (adjSeed ! d ! 0)) (adj_nonzero eng sl adjSeed (length adjSeed)),
              row_offsets (map (\<lambda>d. mx_size1 eng (sl (adjSeed ! d ! 0)))
                             (adj_nonzero eng sl adjSeed (length adjSeed))),
              adj_collected eng adjSeed adjSens sl)"
    unfolding c by (rule run)
  show "d < length adjSeed \<Longrightarrow>
           adj_collected eng adjSeed adjSens sl (adjSens ! d ! 1) = sl (adjSens ! d ! 1)"
    unfolding c using props [of d] by simp
  show "d < length adjSeed \<Longrightarrow> isZero eng (sl (adjSeed ! d ! 0)) \<Longrightarrow>
           adjSeed ! d ! 0 \<noteq> adjSens ! d ! 0 \<Longrightarrow>
           adj_collected eng adjSeed adjSens sl (adjSens ! d ! 0) = sl (adjSeed ! d ! 0)
           \<and> adj_collected eng adjSeed adjSens sl (adjSeed ! d ! 0) = mx_null eng"
    unfolding c using props [of d] by simp
  show "d < length adjSeed \<Longrightarrow> isZero eng (sl (adjSeed ! d ! 0)) \<Longrightarrow>
           adjSeed ! d ! 0 = adjSens ! d ! 0 \<Longrightarrow>
           adj_collected eng adjSeed adjSens sl (adjSeed ! d ! 0) = sl (adjSeed ! d ! 0)"
    unfolding c using props [of d] by simp
  show "d < length adjSeed \<Longrightarrow> \<not> isZero eng (sl (adjSeed ! d ! 0)) \<Longrightarrow>
           adj_collected eng adjSeed adjSens sl (adjSeed ! d ! 0) = mx_null eng"
    unfolding c using props [of d] by simp
  show "(\<forall>d<length adjSeed. a \<noteq> adjSeed ! d ! 0 \<and> a \<noteq> adjSens ! d ! 0) \<Longrightarrow>
           adj_collected eng adjSeed adjSens sl a = sl a"
    unfolding c by (rule frame)
qed

lemma mx_adjoint_closed:
  assumes ok: "mx_adj_ok input output adjSeed adjSens" and split: "splits_ok eng"
  shows "mx_adjoint eng input output adjSeed adjSens tr (sl, log)
           = (if adj_nonzero eng sl adjSeed (length adjSeed) = []
              then (adj_collected eng adjSeed adjSens sl, log)
              else (foldl (adj_save eng input output adjSeed adjSens tr
                             (adj_nonzero eng sl adjSeed (length adjSeed))
                             (adj_parts eng input tr sl adjSeed))
                      (adj_collected eng adjSeed adjSens sl)
                      [0..<length (adj_nonzero eng sl adjSeed (length adjSeed))],
                    log @ [(sl (input ! 1),
                            vertcat eng (map (\<lambda>d. sl (adjSeed ! d ! 0))
                                           (adj_nonzero eng sl adjSeed (length adjSeed))),
                            \<not> tr)]))"
proof -
  let ?nz = "adj_nonzero eng sl adjSeed (length adjSeed)"
  from ok have ok': "adj_ok output adjSeed adjSens"
    and A: "\<forall>d<length adjSeed. input ! 1 \<notin> {adjSeed ! d ! 0, adjSens ! d ! 0, adjSens ! d ! 1}"
    by (simp_all add: mx_adj_ok_def)
  note run = adj_collected_props(1) [OF ok', of eng sl]
  have A1: "adj_collected eng adjSeed adjSens sl (input ! Suc 0) = sl (input ! Suc 0)"
    using A by (intro adj_collected_props(6) [OF ok']) auto
  have lp: "length (adj_parts eng input tr sl adjSeed) = length ?nz"
    using split by (simp add: adj_parts_def splits_ok_def length_row_offsets)
  show ?thesis
    using lp by (simp add: mx_adjoint_def run solve_mx_def A1 Let_def adj_parts_def)
qed

lemma adj_other_direction:
  assumes ok: "adj_ok output adjSeed adjSens"
    and "d < length adjSeed" "e < length adjSeed" "e \<noteq> d"
    and "a \<in> {adjSeed ! d ! 0, adjSens ! d ! 0, adjSens ! d ! 1}"
  shows "a \<notin> {adjSens ! e ! 0, adjSens ! e ! 1}"
proof -
  have "{adjSeed ! e ! 0, adjSens ! e ! 0, adjSens ! e ! 1}
        \<inter> {adjSeed ! d ! 0, adjSens ! d ! 0, adjSens ! d ! 1} = {}"
    using ok assms(2-4) by (simp add: adj_ok_def)
  with assms(5) show ?thesis by blast
qed

text \<open>
  C9, amended.  Let the caller keep \<open>mx_adj_ok\<close> and let \<open>vertsplit\<close> give one piece per
  pair of offsets.  For an adjoint direction \<open>d\<close> whose seed is a structural zero, the
  adjoint pass does this: when seed and sensitivity are different slots, the sensitivity
  slot gets the (zero) seed expression and the seed slot is cleared to the empty
  expression; when they are one slot, the slot is left holding the zero seed, it is not
  cleared.  The A-adjoint slot of \<open>d\<close> is left as it was, \<open>d\<close> is not in the stacked solve,
  and the pass emits at most the one solve for the non-zero seeds.
\<close>

theorem zero_adjoint_seed:
  assumes ok: "mx_adj_ok input output adjSeed adjSens" and split: "splits_ok eng"
    and d: "d < length adjSeed" and z: "isZero eng (sl (adjSeed ! d ! 0))"
  shows "(adjSeed ! d ! 0 \<noteq> adjSens ! d ! 0 \<longrightarrow>
            fst (mx_adjoint eng input output adjSeed adjSens tr (sl, log)) (adjSens ! d ! 0)
              = sl (adjSeed ! d ! 0)
            \<and> fst (mx_adjoint eng input output adjSeed adjSens tr (sl, log)) (adjSeed ! d ! 0)
              = mx_null eng)
       \<and> (adjSeed ! d ! 0 = adjSens ! d ! 0 \<longrightarrow>
            fst (mx_adjoint eng input output adjSeed adjSens tr (sl, log)) (adjSeed ! d ! 0)
              = sl (adjSeed ! d ! 0))
       \<and> fst (mx_adjoint eng input output adjSeed adjSens tr (sl, log)) (adjSens ! d ! 1)
           = sl (adjSens ! d ! 1)
       \<and> d \<notin> set (adj_nonzero eng sl adjSeed (length adjSeed))
       \<and> snd (mx_adjoint eng input output adjSeed adjSens tr (sl, log))
           = log @ (if adj_nonzero eng sl adjSeed (length adjSeed) = [] then []
                    else [(sl (input ! 1),
                           vertcat eng (map (\<lambda>e. sl (adjSeed ! e ! 0))
                                          (adj_nonzero eng sl adjSeed (length adjSeed))),
                           \<not> tr)])"
proof -
  let ?nz = "adj_nonzero eng sl adjSeed (length adjSeed)"
  let ?c = "adj_collected eng adjSeed adjSens sl"
  let ?R = "fst (mx_adjoint eng input output adjSeed adjSens tr (sl, log))"
  from ok have ok': "adj_ok output adjSeed adjSens"
    by (simp add: mx_adj_ok_def)
  note closed = mx_adjoint_closed [OF ok split, of tr sl log]
  have mine: "?R a = ?c a" if a: "a \<in> {adjSeed ! d ! 0, adjSens ! d ! 0, adjSens ! d ! 1}" for a
  proof -
    have "\<forall>i<length ?nz. a \<notin> {adjSens ! (?nz ! i) ! 0, adjSens ! (?nz ! i) ! 1}"
    proof (intro allI impI)
      fix i assume i: "i < length ?nz"
      then have e: "?nz ! i < length adjSeed" and "\<not> isZero eng (sl (adjSeed ! (?nz ! i) ! 0))"
        using adj_nonzero_nth by blast+
      with z have "?nz ! i \<noteq> d" by auto
      from adj_other_direction [OF ok' d e this a]
      show "a \<notin> {adjSens ! (?nz ! i) ! 0, adjSens ! (?nz ! i) ! 1}" .
    qed
    then have "foldl (adj_save eng input output adjSeed adjSens tr ?nz (adj_parts eng input tr sl adjSeed))
        ?c [0..<length ?nz] a = ?c a"
      by (rule adj_save_loop_frame)
    then show ?thesis
      by (simp add: closed)
  qed
  show ?thesis
  proof (intro conjI impI)
    assume ne: "adjSeed ! d ! 0 \<noteq> adjSens ! d ! 0"
    show "?R (adjSens ! d ! 0) = sl (adjSeed ! d ! 0)"
      using adj_collected_props(3) [where eng = eng and sl = sl and d = d, OF ok' d z ne] by (simp add: mine)
    show "?R (adjSeed ! d ! 0) = mx_null eng"
      using adj_collected_props(3) [where eng = eng and sl = sl and d = d, OF ok' d z ne] by (simp add: mine)
  next
    assume eq: "adjSeed ! d ! 0 = adjSens ! d ! 0"
    show "?R (adjSeed ! d ! 0) = sl (adjSeed ! d ! 0)"
      using adj_collected_props(4) [where eng = eng and sl = sl and d = d, OF ok' d z eq] by (simp add: mine)
  next
    show "?R (adjSens ! d ! 1) = sl (adjSens ! d ! 1)"
      using adj_collected_props(2) [where eng = eng and sl = sl and d = d, OF ok' d] by (simp add: mine)
  next
    show "d \<notin> set ?nz"
      using z by (simp add: adj_nonzero_def)
  next
    show "snd (mx_adjoint eng input output adjSeed adjSens tr (sl, log))
           = log @ (if ?nz = [] then []
                    else [(sl (input ! 1), vertcat eng (map (\<lambda>e. sl (adjSeed ! e ! 0)) ?nz), \<not> tr)])"
      by (simp add: closed)
  qed
qed

lemma mx_adj_ok_example: "mx_adj_ok [0, 1] [2] aseed0 asens0"
  by (simp add: mx_adj_ok_def adj_ok_def aseed0_def asens0_def nth_Cons' less_Suc_eq
      numeral_eq_Suc)

text \<open>
  C9, as stated, has the slot cleared when seed and sensitivity share it.  The fourth
  adjoint direction of the example has the zero seed \<open>Sparse 1 2\<close> in slot 20, which is
  also its sensitivity slot; after the adjoint pass the slot holds \<open>Sparse 1 2\<close> as before,
  not the empty expression.
\<close>

theorem zero_adjoint_seed_counterexample:
  "isZero term_engine (slots0 (aseed0 ! 3 ! 0))
   \<and> aseed0 ! 3 ! 0 = asens0 ! 3 ! 0
   \<and> fst (mx_adjoint term_engine [0, 1] [2] aseed0 asens0 False (slots0, [])) (aseed0 ! 3 ! 0)
       = Sparse 1 2
   \<and> fst (mx_adjoint term_engine [0, 1] [2] aseed0 asens0 False (slots0, [])) (aseed0 ! 3 ! 0)
       \<noteq> mx_null term_engine"
  by code_simp

theorem zero_adjoint_seed_witness:
  "mx_adj_ok [0, 1] [2] aseed0 asens0
   \<and> splits_ok term_engine
   \<and> fst (mx_adjoint term_engine [0, 1] [2] aseed0 asens0 False (slots0, [])) 13 = Sparse 1 2
   \<and> fst (mx_adjoint term_engine [0, 1] [2] aseed0 asens0 False (slots0, [])) 12 = Null
   \<and> fst (mx_adjoint term_engine [0, 1] [2] aseed0 asens0 False (slots0, [])) 14 = Sym ''S14'' 2 2
   \<and> fst (mx_adjoint term_engine [0, 1] [2] aseed0 asens0 False (slots0, [])) 20 = Sparse 1 2
   \<and> length (snd (mx_adjoint term_engine [0, 1] [2] aseed0 asens0 False (slots0, []))) = 1"
proof -
  have z0: "isZero term_engine (slots0 (aseed0 ! 0 ! 0))" and z3: "isZero term_engine (slots0 (aseed0 ! 3 ! 0))"
    by code_simp+
  have d: "0 < length aseed0" "3 < length aseed0"
    by (simp_all add: aseed0_def)
  have ne: "aseed0 ! 0 ! 0 \<noteq> asens0 ! 0 ! 0" and eq: "aseed0 ! 3 ! 0 = asens0 ! 3 ! 0"
    by (simp_all add: aseed0_def asens0_def)
  note T0 = zero_adjoint_seed [where sl = slots0 and d = 0 and tr = False and log = "[]",
      OF mx_adj_ok_example splits_ok_term_engine d(1) z0]
  note T3 = zero_adjoint_seed [where sl = slots0 and d = 3 and tr = False and log = "[]",
      OF mx_adj_ok_example splits_ok_term_engine d(2) z3]
  have nzl: "adj_nonzero term_engine slots0 aseed0 (length aseed0) \<noteq> []"
    by code_simp
  from T0 [THEN conjunct1, rule_format, OF ne]
  have a: "fst (mx_adjoint term_engine [0, 1] [2] aseed0 asens0 False (slots0, [])) 13 = Sparse 1 2"
    "fst (mx_adjoint term_engine [0, 1] [2] aseed0 asens0 False (slots0, [])) 12 = Null"
    by (simp_all add: aseed0_def asens0_def slots0_def term_engine_def)
  from T0 [THEN conjunct2, THEN conjunct2, THEN conjunct1]
  have b: "fst (mx_adjoint term_engine [0, 1] [2] aseed0 asens0 False (slots0, [])) 14 = Sym ''S14'' 2 2"
    by (simp add: asens0_def slots0_def)
  from T3 [THEN conjunct2, THEN conjunct1, rule_format, OF eq]
  have c: "fst (mx_adjoint term_engine [0, 1] [2] aseed0 asens0 False (slots0, [])) 20 = Sparse 1 2"
    by (simp add: aseed0_def slots0_def)
  from T0 [THEN conjunct2, THEN conjunct2, THEN conjunct2, THEN conjunct2] nzl
  have e: "length (snd (mx_adjoint term_engine [0, 1] [2] aseed0 asens0 False (slots0, []))) = 1"
    by simp
  from mx_adj_ok_example splits_ok_term_engine a b c e show ?thesis
    by simp
qed



section \<open>Symbolic evaluation: primal output and forward sensitivities\<close>











section \<open>Symbolic evaluation: non-zero adjoint seeds\<close>

text \<open>
  The adjoint pass, run from any slots, for a direction \<open>d\<close> whose seed is not a structural
  zero.  When the seed slot is also the sensitivity slot, it ends holding the piece of
  the stacked solve that belongs to \<open>d\<close>; this piece ranks above the seed, which is an
  operand of the solve, so it is not the seed.
\<close>

lemma mx_adjoint_nonzero:
  assumes ok: "mx_adj_ok input output adjSeed adjSens" and split: "splits_ok eng"
    and acyc: "acyclic_engine eng rk"
    and d: "d < length adjSeed" and nz: "\<not> isZero eng (sl (adjSeed ! d ! 0))"
  shows "adj_collected eng adjSeed adjSens sl (adjSeed ! d ! 0) = mx_null eng
       \<and> d \<in> set (adj_nonzero eng sl adjSeed (length adjSeed))
       \<and> (adjSeed ! d ! 0 \<noteq> adjSens ! d ! 0 \<longrightarrow>
            fst (mx_adjoint eng input output adjSeed adjSens tr (sl, log)) (adjSeed ! d ! 0)
              = mx_null eng)
       \<and> (adjSeed ! d ! 0 = adjSens ! d ! 0 \<longrightarrow>
            (\<forall>i<length (adj_nonzero eng sl adjSeed (length adjSeed)).
               adj_nonzero eng sl adjSeed (length adjSeed) ! i = d \<longrightarrow>
               fst (mx_adjoint eng input output adjSeed adjSens tr (sl, log)) (adjSeed ! d ! 0)
                 = adj_parts eng input tr sl adjSeed ! i)
            \<and> fst (mx_adjoint eng input output adjSeed adjSens tr (sl, log)) (adjSeed ! d ! 0)
                \<noteq> sl (adjSeed ! d ! 0))"
proof -
  let ?nz = "adj_nonzero eng sl adjSeed (length adjSeed)"
  let ?c = "adj_collected eng adjSeed adjSens sl"
  let ?parts = "adj_parts eng input tr sl adjSeed"
  let ?R = "fst (mx_adjoint eng input output adjSeed adjSens tr (sl, log))"
  let ?F = "adj_save eng input output adjSeed adjSens tr ?nz ?parts"
  from ok have ok': "adj_ok output adjSeed adjSens"
    by (simp add: mx_adj_ok_def)
  have mem: "d \<in> set ?nz"
    using d nz by (rule adj_nonzero_mem)
  then have ne: "?nz \<noteq> []" by auto
  have R: "?R = foldl ?F ?c [0..<length ?nz]"
    using mx_adjoint_closed [OF ok split, of tr sl log] ne by simp
  have null: "?c (adjSeed ! d ! 0) = mx_null eng"
    by (rule adj_collected_props(5) [where eng = eng and sl = sl and d = d, OF ok' d nz])
  have a1: "adjSens ! d ! 1 \<notin> {adjSeed ! d ! 0, adjSens ! d ! 0}"
    using ok' d by (simp add: adj_ok_def)
  have aliased: "?R (adjSeed ! d ! 0) = ?parts ! i"
    if same: "adjSeed ! d ! 0 = adjSens ! d ! 0" and i: "i < length ?nz" and id: "?nz ! i = d" for i
  proof -
    have "foldl ?F ?c [0..<length ?nz] (adjSens ! (?nz ! i) ! 0) = ?parts ! i"
    proof (rule adj_save_loop_alias [OF i])
      show "adjSeed ! (?nz ! i) ! 0 = adjSens ! (?nz ! i) ! 0"
        using same id by simp
      show "\<forall>j<length ?nz. j \<noteq> i \<longrightarrow>
          adjSens ! (?nz ! i) ! 0 \<notin> {adjSens ! (?nz ! j) ! 0, adjSens ! (?nz ! j) ! 1}"
      proof (intro allI impI)
        fix j assume j: "j < length ?nz" and ji: "j \<noteq> i"
        then have e: "?nz ! j < length adjSeed"
          using adj_nonzero_nth by blast
        have "?nz ! j \<noteq> ?nz ! i"
          using adj_nonzero_distinct [of eng sl adjSeed "length adjSeed"] i j ji
          by (simp add: nth_eq_iff_index_eq)
        then have "?nz ! j \<noteq> d"
          using id by simp
        moreover have "adjSens ! d ! 0 \<in> {adjSeed ! d ! 0, adjSens ! d ! 0, adjSens ! d ! 1}"
          by simp
        ultimately have "adjSens ! d ! 0 \<notin> {adjSens ! (?nz ! j) ! 0, adjSens ! (?nz ! j) ! 1}"
          by (rule adj_other_direction [OF ok' d e])
        then show "adjSens ! (?nz ! i) ! 0 \<notin> {adjSens ! (?nz ! j) ! 0, adjSens ! (?nz ! j) ! 1}"
          using id by simp
      qed
    qed
    then show ?thesis
      using same id by (simp add: R)
  qed
  show ?thesis
  proof (intro conjI impI allI)
    show "?c (adjSeed ! d ! 0) = mx_null eng" by (fact null)
  next
    show "d \<in> set ?nz" by (fact mem)
  next
    assume diff: "adjSeed ! d ! 0 \<noteq> adjSens ! d ! 0"
    have "\<forall>i<length ?nz. adjSeed ! d ! 0 \<notin> {adjSens ! (?nz ! i) ! 0, adjSens ! (?nz ! i) ! 1}"
    proof (intro allI impI)
      fix i assume i: "i < length ?nz"
      then have e: "?nz ! i < length adjSeed"
        using adj_nonzero_nth by blast
      show "adjSeed ! d ! 0 \<notin> {adjSens ! (?nz ! i) ! 0, adjSens ! (?nz ! i) ! 1}"
      proof (cases "?nz ! i = d")
        case True
        with diff a1 show ?thesis by auto
      next
        case False
        have "adjSeed ! d ! 0 \<in> {adjSeed ! d ! 0, adjSens ! d ! 0, adjSens ! d ! 1}"
          by simp
        from adj_other_direction [OF ok' d e False this] show ?thesis .
      qed
    qed
    then have "foldl ?F ?c [0..<length ?nz] (adjSeed ! d ! 0) = ?c (adjSeed ! d ! 0)"
      by (rule adj_save_loop_frame)
    then show "?R (adjSeed ! d ! 0) = mx_null eng"
      by (simp add: R null)
  next
    fix i
    assume "adjSeed ! d ! 0 = adjSens ! d ! 0" "i < length ?nz" "?nz ! i = d"
    then show "?R (adjSeed ! d ! 0) = ?parts ! i"
      by (rule aliased)
  next
    assume same: "adjSeed ! d ! 0 = adjSens ! d ! 0"
    from mem obtain i where i: "i < length ?nz" and id: "?nz ! i = d"
      by (auto simp: in_set_conv_nth)
    have at: "?R (adjSeed ! d ! 0) = ?parts ! i"
      by (rule aliased [OF same i id])
    let ?seeds = "map (\<lambda>e. sl (adjSeed ! e ! 0)) ?nz"
    let ?node = "getSolve eng (sl (input ! 1)) (vertcat eng ?seeds) (\<not> tr)"
    have "length ?parts = length ?nz"
      using split by (simp add: adj_parts_def splits_ok_def length_row_offsets)
    with i have "?parts ! i \<in> set ?parts"
      by simp
    then have "rk ?node \<le> rk (?parts ! i)"
      using acyc unfolding adj_parts_def acyclic_engine_def by blast
    moreover have "rk (vertcat eng ?seeds) < rk ?node"
      using acyc by (simp add: acyclic_engine_def)
    moreover have "sl (adjSeed ! d ! 0) \<in> set ?seeds"
      using mem by auto
    then have "rk (sl (adjSeed ! d ! 0)) \<le> rk (vertcat eng ?seeds)"
      using acyc unfolding acyclic_engine_def by blast
    ultimately have "rk (sl (adjSeed ! d ! 0)) < rk (?parts ! i)"
      by simp
    then show "?R (adjSeed ! d ! 0) \<noteq> sl (adjSeed ! d ! 0)"
      unfolding at by auto
  qed
qed



text \<open>
  C10.  Let the caller keep \<open>mx_adj_ok\<close>, let \<open>vertsplit\<close> give one piece per pair of
  offsets and let the engine be acyclic.  Take an adjoint direction \<open>d\<close> whose seed, as the
  adjoint pass of \<open>evaluateMXGen\<close> finds it, is not a structural zero.  The slots that the
  collecting loop leaves hold the empty expression in the seed slot of \<open>d\<close>, whether or
  not that slot is also the sensitivity slot, and \<open>d\<close> is among the collected directions.
  After \<open>evaluateMXGen\<close> the seed slot holds the empty expression when it is not the
  sensitivity slot; when it is, it holds the sensitivity, the piece of the stacked solve
  that belongs to \<open>d\<close>, and this is not the seed.  So in neither case is the seed left
  in its slot (unless the seed was the empty expression itself).
\<close>

theorem nonzero_adjoint_seed:
  assumes ok: "mx_adj_ok input output adjSeed adjSens" and split: "splits_ok eng"
    and acyc: "acyclic_engine eng rk"
    and d: "d < length adjSeed"
    and nz: "\<not> isZero eng (before_adjoint eng input output fwdSeed fwdSens output_given tr (sl, log)
                              (adjSeed ! d ! 0))"
  shows "adj_collected eng adjSeed adjSens
           (before_adjoint eng input output fwdSeed fwdSens output_given tr (sl, log)) (adjSeed ! d ! 0)
           = mx_null eng
       \<and> d \<in> set (adj_nonzero eng
                      (before_adjoint eng input output fwdSeed fwdSens output_given tr (sl, log))
                      adjSeed (length adjSeed))
       \<and> (adjSeed ! d ! 0 \<noteq> adjSens ! d ! 0 \<longrightarrow>
            fst (evaluateMXGen eng input output fwdSeed fwdSens adjSeed adjSens output_given tr (sl, log))
                (adjSeed ! d ! 0)
              = mx_null eng)
       \<and> (adjSeed ! d ! 0 = adjSens ! d ! 0 \<longrightarrow>
            (\<forall>i<length (adj_nonzero eng
                            (before_adjoint eng input output fwdSeed fwdSens output_given tr (sl, log))
                            adjSeed (length adjSeed)).
               adj_nonzero eng
                 (before_adjoint eng input output fwdSeed fwdSens output_given tr (sl, log))
                 adjSeed (length adjSeed) ! i = d \<longrightarrow>
               fst (evaluateMXGen eng input output fwdSeed fwdSens adjSeed adjSens output_given tr (sl, log))
                   (adjSeed ! d ! 0)
                 = adj_parts eng input tr
                     (before_adjoint eng input output fwdSeed fwdSens output_given tr (sl, log))
                     adjSeed ! i)
            \<and> fst (evaluateMXGen eng input output fwdSeed fwdSens adjSeed adjSens output_given tr (sl, log))
                  (adjSeed ! d ! 0)
                \<noteq> before_adjoint eng input output fwdSeed fwdSens output_given tr (sl, log)
                     (adjSeed ! d ! 0))
       \<and> (before_adjoint eng input output fwdSeed fwdSens output_given tr (sl, log) (adjSeed ! d ! 0)
              \<noteq> mx_null eng \<longrightarrow>
            fst (evaluateMXGen eng input output fwdSeed fwdSens adjSeed adjSens output_given tr (sl, log))
                (adjSeed ! d ! 0)
              \<noteq> before_adjoint eng input output fwdSeed fwdSens output_given tr (sl, log)
                   (adjSeed ! d ! 0))"
proof -
  let ?sl2 = "before_adjoint eng input output fwdSeed fwdSens output_given tr (sl, log)"
  let ?R = "fst (evaluateMXGen eng input output fwdSeed fwdSens adjSeed adjSens output_given tr (sl, log))"
  obtain l2 where F: "mx_forward eng input output fwdSeed fwdSens tr
                        (mx_primal eng input output output_given tr (sl, log)) = (?sl2, l2)"
    by (cases "mx_forward eng input output fwdSeed fwdSens tr
                 (mx_primal eng input output output_given tr (sl, log))")
      (simp add: before_adjoint_def)
  have E: "?R = fst (mx_adjoint eng input output adjSeed adjSens tr (?sl2, l2))"
    by (simp add: evaluateMXGen_def F)
  note P = mx_adjoint_nonzero [where sl = ?sl2 and d = d and tr = tr and log = l2,
      OF ok split acyc d nz, folded E]
  have "?R (adjSeed ! d ! 0) \<noteq> ?sl2 (adjSeed ! d ! 0)" if "?sl2 (adjSeed ! d ! 0) \<noteq> mx_null eng"
  proof (cases "adjSeed ! d ! 0 = adjSens ! d ! 0")
    case True
    with P show ?thesis by blast
  next
    case False
    with P have "?R (adjSeed ! d ! 0) = mx_null eng" by blast
    with that show ?thesis by simp
  qed
  with P show ?thesis
    by blast
qed

lemma acyclic_term_engine: "acyclic_engine term_engine size"
proof -
  have "size x \<le> size (Vertcat xs)" if "x \<in> set xs" for x xs
    using that by (induction xs) auto
  then show ?thesis
    by (auto simp: acyclic_engine_def term_engine_def)
qed

theorem nonzero_adjoint_seed_witness:
  "mx_adj_ok [0, 1] [2] aseed0 asens0
   \<and> splits_ok term_engine
   \<and> acyclic_engine term_engine size
   \<and> adj_collected term_engine aseed0 asens0
        (before_adjoint term_engine [0, 1] [2] fseed0 fsens0 False False (slots0, [])) 15 = Null
   \<and> adj_collected term_engine aseed0 asens0
        (before_adjoint term_engine [0, 1] [2] fseed0 fsens0 False False (slots0, [])) 17 = Null
   \<and> fst (evaluateMXGen term_engine [0, 1] [2] fseed0 fsens0 aseed0 asens0 False False (slots0, [])) 17
       = Null
   \<and> fst (evaluateMXGen term_engine [0, 1] [2] fseed0 fsens0 aseed0 asens0 False False (slots0, [])) 15
       = Part (SolveNode (Sym ''A'' 2 2) (Vertcat [Sym ''Xb'' 1 2, Sym ''Xc'' 1 2]) True) [0, 1, 2] 0
   \<and> fst (evaluateMXGen term_engine [0, 1] [2] fseed0 fsens0 aseed0 asens0 False False (slots0, [])) 15
       \<noteq> Sym ''Xb'' 1 2"
proof -
  let ?b = "before_adjoint term_engine [0, 1] [2] fseed0 fsens0 False False (slots0, [])"
  have n1: "\<not> isZero term_engine (?b (aseed0 ! 1 ! 0))"
    and n2: "\<not> isZero term_engine (?b (aseed0 ! 2 ! 0))"
    by code_simp+
  have d: "1 < length aseed0" "2 < length aseed0"
    by (simp_all add: aseed0_def)
  have eq: "aseed0 ! 1 ! 0 = asens0 ! 1 ! 0" and ne: "aseed0 ! 2 ! 0 \<noteq> asens0 ! 2 ! 0"
    by (simp_all add: aseed0_def asens0_def)
  note T1 = nonzero_adjoint_seed [where sl = slots0 and d = 1 and tr = False and log = "[]"
      and fwdSeed = fseed0 and fwdSens = fsens0 and output_given = False,
      OF mx_adj_ok_example splits_ok_term_engine acyclic_term_engine d(1) n1]
  note T2 = nonzero_adjoint_seed [where sl = slots0 and d = 2 and tr = False and log = "[]"
      and fwdSeed = fseed0 and fwdSens = fsens0 and output_given = False,
      OF mx_adj_ok_example splits_ok_term_engine acyclic_term_engine d(2) n2]
  have nzl: "adj_nonzero term_engine ?b aseed0 (length aseed0) = [1, 2]"
    and parts: "adj_parts term_engine [0, 1] False ?b aseed0 ! 0
      = Part (SolveNode (Sym ''A'' 2 2) (Vertcat [Sym ''Xb'' 1 2, Sym ''Xc'' 1 2]) True) [0, 1, 2] 0"
    and seed: "?b (aseed0 ! 1 ! 0) = Sym ''Xb'' 1 2"
    by code_simp+
  from T1 [THEN conjunct1] T2 [THEN conjunct1]
  have a: "adj_collected term_engine aseed0 asens0 ?b 15 = Null"
    "adj_collected term_engine aseed0 asens0 ?b 17 = Null"
    by (simp_all add: aseed0_def term_engine_def)
  from T2 [THEN conjunct2, THEN conjunct2, THEN conjunct1, rule_format, OF ne]
  have b: "fst (evaluateMXGen term_engine [0, 1] [2] fseed0 fsens0 aseed0 asens0 False False (slots0, [])) 17
       = Null"
    by (simp add: aseed0_def term_engine_def)
  have "fst (evaluateMXGen term_engine [0, 1] [2] fseed0 fsens0 aseed0 asens0 False False (slots0, []))
          (aseed0 ! 1 ! 0)
      = adj_parts term_engine [0, 1] False ?b aseed0 ! 0"
    by (rule T1 [THEN conjunct2, THEN conjunct2, THEN conjunct2, THEN conjunct1, rule_format,
          OF eq, THEN conjunct1, rule_format])
      (use nzl in simp_all)
  then have c: "fst (evaluateMXGen term_engine [0, 1] [2] fseed0 fsens0 aseed0 asens0 False False
                       (slots0, [])) 15
       = Part (SolveNode (Sym ''A'' 2 2) (Vertcat [Sym ''Xb'' 1 2, Sym ''Xc'' 1 2]) True) [0, 1, 2] 0"
    unfolding parts by (simp add: aseed0_def)
  from T1 [THEN conjunct2, THEN conjunct2, THEN conjunct2, THEN conjunct1, rule_format,
      OF eq, THEN conjunct2] seed
  have e: "fst (evaluateMXGen term_engine [0, 1] [2] fseed0 fsens0 aseed0 asens0 False False
                  (slots0, [])) 15 \<noteq> Sym ''Xb'' 1 2"
    by (simp add: aseed0_def)
  from mx_adj_ok_example splits_ok_term_engine acyclic_term_engine a b c e show ?thesis
    by simp
qed


end
